theory Spec2Isabelle
  imports Main "HOL-Library.AList" "HOL-Library.Word"
begin

section \<open>Strings of the host language\<close>

text \<open>
  The parser of \<^verbatim>\<open>src/utils/logParser.ts\<close> works on JavaScript strings. A string of the
  language is a sequence of 16-bit code units, and the operations the source uses on one
  (\<^verbatim>\<open>split\<close>, \<^verbatim>\<open>trim\<close>, \<^verbatim>\<open>slice\<close>, \<^verbatim>\<open>indexOf\<close>, indexing, the regular expressions, which
  have no \<^verbatim>\<open>u\<close> flag) work on code units, the case conversions on the code points they
  encode; so a string is a list of 16-bit words.
  \<open>cu c\<close> is the code unit of an ASCII character and \<open>js s\<close> the string of an ASCII
  literal.
\<close>

type_synonym codeunit = "16 word"

type_synonym jstring = "codeunit list"

abbreviation cu :: "char \<Rightarrow> codeunit" where
  "cu c \<equiv> of_char c"

abbreviation js :: "string \<Rightarrow> jstring" where
  "js s \<equiv> map of_char s"

text \<open>
  The white space of \<^verbatim>\<open>String.prototype.trim\<close> and of the class \<^verbatim>\<open>\s\<close>: the language's
  \<^verbatim>\<open>WhiteSpace\<close> (TAB, VT, FF, SPACE, U+00A0, U+FEFF and the other space separators
  U+1680, U+2000 to U+200A, U+202F, U+205F, U+3000) and its \<^verbatim>\<open>LineTerminator\<close> (LF, CR,
  U+2028, U+2029). The comparisons with \<open>0x20\<close> and \<open>0xA0\<close> only shorten the search.
\<close>

definition is_line_terminator :: "codeunit \<Rightarrow> bool" where
  "is_line_terminator c = (c \<in> set [0x0A, 0x0D, 0x2028, 0x2029])"

definition is_ws :: "codeunit \<Rightarrow> bool" where
  "is_ws c =
     (if c \<le> 0x20 then c \<in> set [0x20, 0x09, 0x0A, 0x0B, 0x0C, 0x0D]
      else 0xA0 \<le> c \<and>
           c \<in> set [0xA0, 0x1680, 0x2000, 0x2001, 0x2002, 0x2003, 0x2004, 0x2005, 0x2006, 0x2007,
                     0x2008, 0x2009, 0x200A, 0x2028, 0x2029, 0x202F, 0x205F, 0x3000, 0xFEFF])"

text \<open>The classes \<^verbatim>\<open>\d\<close>, \<^verbatim>\<open>[A-Z]\<close>, \<^verbatim>\<open>[a-z]\<close> and \<^verbatim>\<open>\w\<close> of an expression without flags.\<close>

definition is_digit :: "codeunit \<Rightarrow> bool" where
  "is_digit c = (cu CHR ''0'' \<le> c \<and> c \<le> cu CHR ''9'')"

definition is_upper :: "codeunit \<Rightarrow> bool" where
  "is_upper c = (cu CHR ''A'' \<le> c \<and> c \<le> cu CHR ''Z'')"

definition is_lower :: "codeunit \<Rightarrow> bool" where
  "is_lower c = (cu CHR ''a'' \<le> c \<and> c \<le> cu CHR ''z'')"

definition is_word :: "codeunit \<Rightarrow> bool" where
  "is_word c = (is_upper c \<or> is_lower c \<or> is_digit c \<or> c = cu CHR ''_'')"

definition trim :: "jstring \<Rightarrow> jstring" where
  "trim s = rev (dropWhile is_ws (rev (dropWhile is_ws s)))"

text \<open>\<^verbatim>\<open>content.split("\n")\<close>: the segments between line feeds, at least one.\<close>

fun split_nl :: "jstring \<Rightarrow> jstring list" where
  "split_nl [] = [[]]"
| "split_nl (c # cs) =
     (if c = 0x0A then [] # split_nl cs
      else (case split_nl cs of [] \<Rightarrow> [[c]] | x # xs \<Rightarrow> (c # x) # xs))"

text \<open>\<^verbatim>\<open>s.startsWith(t)\<close>: \<open>t\<close> is a prefix of \<open>s\<close>.\<close>

fun startsWith :: "jstring \<Rightarrow> jstring \<Rightarrow> bool" where
  "startsWith s [] = True"
| "startsWith [] (t # ts) = False"
| "startsWith (c # cs) (t # ts) = (c = t \<and> startsWith cs ts)"

text \<open>\<^verbatim>\<open>s.includes(t)\<close>: \<open>t\<close> occurs in \<open>s\<close> as a contiguous substring.\<close>

fun includes_str :: "jstring \<Rightarrow> jstring \<Rightarrow> bool" where
  "includes_str [] t = (t = [])"
| "includes_str (c # cs) t = (startsWith (c # cs) t \<or> includes_str cs t)"

text \<open>\<^verbatim>\<open>s.indexOf(c)\<close> for a single code unit; \<open>None\<close> is the source's \<open>-1\<close>.\<close>

definition indexOf :: "jstring \<Rightarrow> codeunit \<Rightarrow> nat option" where
  "indexOf s c = (if c \<in> set s then Some (length (takeWhile (\<lambda>d. d \<noteq> c) s)) else None)"

text \<open>\<^verbatim>\<open>s.slice(i, j)\<close> for \<open>0 \<le> i\<close>, \<open>0 \<le> j\<close>.\<close>

definition slice :: "jstring \<Rightarrow> nat \<Rightarrow> nat \<Rightarrow> jstring" where
  "slice s i j = take (j - i) (drop i s)"

fun join :: "jstring \<Rightarrow> jstring list \<Rightarrow> jstring" where
  "join sep [] = []"
| "join sep [x] = x"
| "join sep (x # y # ys) = x @ sep @ join sep (y # ys)"


section \<open>Case conversion\<close>

text \<open>
  \<^verbatim>\<open>toUpperCase\<close> and \<^verbatim>\<open>toLowerCase\<close> convert the code points of a string (a high surrogate
  followed by a low one is one code point, any other code unit is its own) by the case
  mappings of the Unicode Character Database without regard to the locale, the
  one-to-many mappings included. The tables are those of version 14.0 of the database.
  A mapping table lists runs \<open>(first, last, step, offset)\<close>: every \<open>step\<close>-th code point
  from \<open>first\<close> to \<open>last\<close> is mapped to itself plus \<open>offset\<close>. The runs and the
  one-to-many entries are in increasing order, so a search stops at the first entry
  beyond the code point.
\<close>

definition upper_ranges :: "(int \<times> int \<times> int \<times> int) list" where
  "upper_ranges =
     [(0x61, 0x7A, 1, - 32), (0xB5, 0xB5, 1, 743), (0xE0, 0xF6, 1, - 32),
      (0xF8, 0xFE, 1, - 32), (0xFF, 0xFF, 1, 121), (0x101, 0x12F, 2, - 1),
      (0x131, 0x131, 1, - 232), (0x133, 0x137, 2, - 1), (0x13A, 0x148, 2, - 1),
      (0x14B, 0x177, 2, - 1), (0x17A, 0x17E, 2, - 1), (0x17F, 0x17F, 1, - 300),
      (0x180, 0x180, 1, 195), (0x183, 0x185, 2, - 1), (0x188, 0x188, 1, - 1),
      (0x18C, 0x18C, 1, - 1), (0x192, 0x192, 1, - 1), (0x195, 0x195, 1, 97),
      (0x199, 0x199, 1, - 1), (0x19A, 0x19A, 1, 163), (0x19E, 0x19E, 1, 130),
      (0x1A1, 0x1A5, 2, - 1), (0x1A8, 0x1A8, 1, - 1), (0x1AD, 0x1AD, 1, - 1),
      (0x1B0, 0x1B0, 1, - 1), (0x1B4, 0x1B6, 2, - 1), (0x1B9, 0x1B9, 1, - 1),
      (0x1BD, 0x1BD, 1, - 1), (0x1BF, 0x1BF, 1, 56), (0x1C5, 0x1C5, 1, - 1),
      (0x1C6, 0x1C6, 1, - 2), (0x1C8, 0x1C8, 1, - 1), (0x1C9, 0x1C9, 1, - 2),
      (0x1CB, 0x1CB, 1, - 1), (0x1CC, 0x1CC, 1, - 2), (0x1CE, 0x1DC, 2, - 1),
      (0x1DD, 0x1DD, 1, - 79), (0x1DF, 0x1EF, 2, - 1), (0x1F2, 0x1F2, 1, - 1),
      (0x1F3, 0x1F3, 1, - 2), (0x1F5, 0x1F5, 1, - 1), (0x1F9, 0x21F, 2, - 1),
      (0x223, 0x233, 2, - 1), (0x23C, 0x23C, 1, - 1), (0x23F, 0x240, 1, 10815),
      (0x242, 0x242, 1, - 1), (0x247, 0x24F, 2, - 1), (0x250, 0x250, 1, 10783),
      (0x251, 0x251, 1, 10780), (0x252, 0x252, 1, 10782), (0x253, 0x253, 1, - 210),
      (0x254, 0x254, 1, - 206), (0x256, 0x257, 1, - 205), (0x259, 0x259, 1, - 202),
      (0x25B, 0x25B, 1, - 203), (0x25C, 0x25C, 1, 42319), (0x260, 0x260, 1, - 205),
      (0x261, 0x261, 1, 42315), (0x263, 0x263, 1, - 207), (0x265, 0x265, 1, 42280),
      (0x266, 0x266, 1, 42308), (0x268, 0x268, 1, - 209), (0x269, 0x269, 1, - 211),
      (0x26A, 0x26A, 1, 42308), (0x26B, 0x26B, 1, 10743), (0x26C, 0x26C, 1, 42305),
      (0x26F, 0x26F, 1, - 211), (0x271, 0x271, 1, 10749), (0x272, 0x272, 1, - 213),
      (0x275, 0x275, 1, - 214), (0x27D, 0x27D, 1, 10727), (0x280, 0x280, 1, - 218),
      (0x282, 0x282, 1, 42307), (0x283, 0x283, 1, - 218), (0x287, 0x287, 1, 42282),
      (0x288, 0x288, 1, - 218), (0x289, 0x289, 1, - 69), (0x28A, 0x28B, 1, - 217),
      (0x28C, 0x28C, 1, - 71), (0x292, 0x292, 1, - 219), (0x29D, 0x29D, 1, 42261),
      (0x29E, 0x29E, 1, 42258), (0x345, 0x345, 1, 84), (0x371, 0x373, 2, - 1),
      (0x377, 0x377, 1, - 1), (0x37B, 0x37D, 1, 130), (0x3AC, 0x3AC, 1, - 38),
      (0x3AD, 0x3AF, 1, - 37), (0x3B1, 0x3C1, 1, - 32), (0x3C2, 0x3C2, 1, - 31),
      (0x3C3, 0x3CB, 1, - 32), (0x3CC, 0x3CC, 1, - 64), (0x3CD, 0x3CE, 1, - 63),
      (0x3D0, 0x3D0, 1, - 62), (0x3D1, 0x3D1, 1, - 57), (0x3D5, 0x3D5, 1, - 47),
      (0x3D6, 0x3D6, 1, - 54), (0x3D7, 0x3D7, 1, - 8), (0x3D9, 0x3EF, 2, - 1),
      (0x3F0, 0x3F0, 1, - 86), (0x3F1, 0x3F1, 1, - 80), (0x3F2, 0x3F2, 1, 7),
      (0x3F3, 0x3F3, 1, - 116), (0x3F5, 0x3F5, 1, - 96), (0x3F8, 0x3F8, 1, - 1),
      (0x3FB, 0x3FB, 1, - 1), (0x430, 0x44F, 1, - 32), (0x450, 0x45F, 1, - 80),
      (0x461, 0x481, 2, - 1), (0x48B, 0x4BF, 2, - 1), (0x4C2, 0x4CE, 2, - 1),
      (0x4CF, 0x4CF, 1, - 15), (0x4D1, 0x52F, 2, - 1), (0x561, 0x586, 1, - 48),
      (0x10D0, 0x10FA, 1, 3008), (0x10FD, 0x10FF, 1, 3008), (0x13F8, 0x13FD, 1, - 8),
      (0x1C80, 0x1C80, 1, - 6254), (0x1C81, 0x1C81, 1, - 6253), (0x1C82, 0x1C82, 1, - 6244),
      (0x1C83, 0x1C84, 1, - 6242), (0x1C85, 0x1C85, 1, - 6243), (0x1C86, 0x1C86, 1, - 6236),
      (0x1C87, 0x1C87, 1, - 6181), (0x1C88, 0x1C88, 1, 35266), (0x1D79, 0x1D79, 1, 35332),
      (0x1D7D, 0x1D7D, 1, 3814), (0x1D8E, 0x1D8E, 1, 35384), (0x1E01, 0x1E95, 2, - 1),
      (0x1E9B, 0x1E9B, 1, - 59), (0x1EA1, 0x1EFF, 2, - 1), (0x1F00, 0x1F07, 1, 8),
      (0x1F10, 0x1F15, 1, 8), (0x1F20, 0x1F27, 1, 8), (0x1F30, 0x1F37, 1, 8),
      (0x1F40, 0x1F45, 1, 8), (0x1F51, 0x1F57, 2, 8), (0x1F60, 0x1F67, 1, 8),
      (0x1F70, 0x1F71, 1, 74), (0x1F72, 0x1F75, 1, 86), (0x1F76, 0x1F77, 1, 100),
      (0x1F78, 0x1F79, 1, 128), (0x1F7A, 0x1F7B, 1, 112), (0x1F7C, 0x1F7D, 1, 126),
      (0x1FB0, 0x1FB1, 1, 8), (0x1FBE, 0x1FBE, 1, - 7205), (0x1FD0, 0x1FD1, 1, 8),
      (0x1FE0, 0x1FE1, 1, 8), (0x1FE5, 0x1FE5, 1, 7), (0x214E, 0x214E, 1, - 28),
      (0x2170, 0x217F, 1, - 16), (0x2184, 0x2184, 1, - 1), (0x24D0, 0x24E9, 1, - 26),
      (0x2C30, 0x2C5F, 1, - 48), (0x2C61, 0x2C61, 1, - 1), (0x2C65, 0x2C65, 1, - 10795),
      (0x2C66, 0x2C66, 1, - 10792), (0x2C68, 0x2C6C, 2, - 1), (0x2C73, 0x2C73, 1, - 1),
      (0x2C76, 0x2C76, 1, - 1), (0x2C81, 0x2CE3, 2, - 1), (0x2CEC, 0x2CEE, 2, - 1),
      (0x2CF3, 0x2CF3, 1, - 1), (0x2D00, 0x2D25, 1, - 7264), (0x2D27, 0x2D27, 1, - 7264),
      (0x2D2D, 0x2D2D, 1, - 7264), (0xA641, 0xA66D, 2, - 1), (0xA681, 0xA69B, 2, - 1),
      (0xA723, 0xA72F, 2, - 1), (0xA733, 0xA76F, 2, - 1), (0xA77A, 0xA77C, 2, - 1),
      (0xA77F, 0xA787, 2, - 1), (0xA78C, 0xA78C, 1, - 1), (0xA791, 0xA793, 2, - 1),
      (0xA794, 0xA794, 1, 48), (0xA797, 0xA7A9, 2, - 1), (0xA7B5, 0xA7C3, 2, - 1),
      (0xA7C8, 0xA7CA, 2, - 1), (0xA7D1, 0xA7D1, 1, - 1), (0xA7D7, 0xA7D9, 2, - 1),
      (0xA7F6, 0xA7F6, 1, - 1), (0xAB53, 0xAB53, 1, - 928), (0xAB70, 0xABBF, 1, - 38864),
      (0xFF41, 0xFF5A, 1, - 32), (0x10428, 0x1044F, 1, - 40), (0x104D8, 0x104FB, 1, - 40),
      (0x10597, 0x105BB, 2, - 39), (0x10598, 0x105A0, 2, - 39), (0x105A4, 0x105B0, 2, - 39),
      (0x105B4, 0x105B8, 2, - 39), (0x105BC, 0x105BC, 1, - 39), (0x10CC0, 0x10CF2, 1, - 64),
      (0x118C0, 0x118DF, 1, - 32), (0x16E60, 0x16E7F, 1, - 32), (0x1E922, 0x1E943, 1, - 34)]"

definition upper_special :: "(int \<times> int list) list" where
  "upper_special =
     [(0xDF, [0x53, 0x53]), (0x149, [0x2BC, 0x4E]), (0x1F0, [0x4A, 0x30C]),
      (0x390, [0x399, 0x308, 0x301]), (0x3B0, [0x3A5, 0x308, 0x301]), (0x587, [0x535, 0x552]),
      (0x1E96, [0x48, 0x331]), (0x1E97, [0x54, 0x308]), (0x1E98, [0x57, 0x30A]),
      (0x1E99, [0x59, 0x30A]), (0x1E9A, [0x41, 0x2BE]), (0x1F50, [0x3A5, 0x313]),
      (0x1F52, [0x3A5, 0x313, 0x300]), (0x1F54, [0x3A5, 0x313, 0x301]), (0x1F56, [0x3A5, 0x313, 0x342]),
      (0x1F80, [0x1F08, 0x399]), (0x1F81, [0x1F09, 0x399]), (0x1F82, [0x1F0A, 0x399]),
      (0x1F83, [0x1F0B, 0x399]), (0x1F84, [0x1F0C, 0x399]), (0x1F85, [0x1F0D, 0x399]),
      (0x1F86, [0x1F0E, 0x399]), (0x1F87, [0x1F0F, 0x399]), (0x1F88, [0x1F08, 0x399]),
      (0x1F89, [0x1F09, 0x399]), (0x1F8A, [0x1F0A, 0x399]), (0x1F8B, [0x1F0B, 0x399]),
      (0x1F8C, [0x1F0C, 0x399]), (0x1F8D, [0x1F0D, 0x399]), (0x1F8E, [0x1F0E, 0x399]),
      (0x1F8F, [0x1F0F, 0x399]), (0x1F90, [0x1F28, 0x399]), (0x1F91, [0x1F29, 0x399]),
      (0x1F92, [0x1F2A, 0x399]), (0x1F93, [0x1F2B, 0x399]), (0x1F94, [0x1F2C, 0x399]),
      (0x1F95, [0x1F2D, 0x399]), (0x1F96, [0x1F2E, 0x399]), (0x1F97, [0x1F2F, 0x399]),
      (0x1F98, [0x1F28, 0x399]), (0x1F99, [0x1F29, 0x399]), (0x1F9A, [0x1F2A, 0x399]),
      (0x1F9B, [0x1F2B, 0x399]), (0x1F9C, [0x1F2C, 0x399]), (0x1F9D, [0x1F2D, 0x399]),
      (0x1F9E, [0x1F2E, 0x399]), (0x1F9F, [0x1F2F, 0x399]), (0x1FA0, [0x1F68, 0x399]),
      (0x1FA1, [0x1F69, 0x399]), (0x1FA2, [0x1F6A, 0x399]), (0x1FA3, [0x1F6B, 0x399]),
      (0x1FA4, [0x1F6C, 0x399]), (0x1FA5, [0x1F6D, 0x399]), (0x1FA6, [0x1F6E, 0x399]),
      (0x1FA7, [0x1F6F, 0x399]), (0x1FA8, [0x1F68, 0x399]), (0x1FA9, [0x1F69, 0x399]),
      (0x1FAA, [0x1F6A, 0x399]), (0x1FAB, [0x1F6B, 0x399]), (0x1FAC, [0x1F6C, 0x399]),
      (0x1FAD, [0x1F6D, 0x399]), (0x1FAE, [0x1F6E, 0x399]), (0x1FAF, [0x1F6F, 0x399]),
      (0x1FB2, [0x1FBA, 0x399]), (0x1FB3, [0x391, 0x399]), (0x1FB4, [0x386, 0x399]),
      (0x1FB6, [0x391, 0x342]), (0x1FB7, [0x391, 0x342, 0x399]), (0x1FBC, [0x391, 0x399]),
      (0x1FC2, [0x1FCA, 0x399]), (0x1FC3, [0x397, 0x399]), (0x1FC4, [0x389, 0x399]),
      (0x1FC6, [0x397, 0x342]), (0x1FC7, [0x397, 0x342, 0x399]), (0x1FCC, [0x397, 0x399]),
      (0x1FD2, [0x399, 0x308, 0x300]), (0x1FD3, [0x399, 0x308, 0x301]), (0x1FD6, [0x399, 0x342]),
      (0x1FD7, [0x399, 0x308, 0x342]), (0x1FE2, [0x3A5, 0x308, 0x300]), (0x1FE3, [0x3A5, 0x308, 0x301]),
      (0x1FE4, [0x3A1, 0x313]), (0x1FE6, [0x3A5, 0x342]), (0x1FE7, [0x3A5, 0x308, 0x342]),
      (0x1FF2, [0x1FFA, 0x399]), (0x1FF3, [0x3A9, 0x399]), (0x1FF4, [0x38F, 0x399]),
      (0x1FF6, [0x3A9, 0x342]), (0x1FF7, [0x3A9, 0x342, 0x399]), (0x1FFC, [0x3A9, 0x399]),
      (0xFB00, [0x46, 0x46]), (0xFB01, [0x46, 0x49]), (0xFB02, [0x46, 0x4C]),
      (0xFB03, [0x46, 0x46, 0x49]), (0xFB04, [0x46, 0x46, 0x4C]), (0xFB05, [0x53, 0x54]),
      (0xFB06, [0x53, 0x54]), (0xFB13, [0x544, 0x546]), (0xFB14, [0x544, 0x535]),
      (0xFB15, [0x544, 0x53B]), (0xFB16, [0x54E, 0x546]), (0xFB17, [0x544, 0x53D])]"

definition lower_ranges :: "(int \<times> int \<times> int \<times> int) list" where
  "lower_ranges =
     [(0x41, 0x5A, 1, 32), (0xC0, 0xD6, 1, 32), (0xD8, 0xDE, 1, 32),
      (0x100, 0x12E, 2, 1), (0x132, 0x136, 2, 1), (0x139, 0x147, 2, 1),
      (0x14A, 0x176, 2, 1), (0x178, 0x178, 1, - 121), (0x179, 0x17D, 2, 1),
      (0x181, 0x181, 1, 210), (0x182, 0x184, 2, 1), (0x186, 0x186, 1, 206),
      (0x187, 0x187, 1, 1), (0x189, 0x18A, 1, 205), (0x18B, 0x18B, 1, 1),
      (0x18E, 0x18E, 1, 79), (0x18F, 0x18F, 1, 202), (0x190, 0x190, 1, 203),
      (0x191, 0x191, 1, 1), (0x193, 0x193, 1, 205), (0x194, 0x194, 1, 207),
      (0x196, 0x196, 1, 211), (0x197, 0x197, 1, 209), (0x198, 0x198, 1, 1),
      (0x19C, 0x19C, 1, 211), (0x19D, 0x19D, 1, 213), (0x19F, 0x19F, 1, 214),
      (0x1A0, 0x1A4, 2, 1), (0x1A6, 0x1A6, 1, 218), (0x1A7, 0x1A7, 1, 1),
      (0x1A9, 0x1A9, 1, 218), (0x1AC, 0x1AC, 1, 1), (0x1AE, 0x1AE, 1, 218),
      (0x1AF, 0x1AF, 1, 1), (0x1B1, 0x1B2, 1, 217), (0x1B3, 0x1B5, 2, 1),
      (0x1B7, 0x1B7, 1, 219), (0x1B8, 0x1B8, 1, 1), (0x1BC, 0x1BC, 1, 1),
      (0x1C4, 0x1C4, 1, 2), (0x1C5, 0x1C5, 1, 1), (0x1C7, 0x1C7, 1, 2),
      (0x1C8, 0x1C8, 1, 1), (0x1CA, 0x1CA, 1, 2), (0x1CB, 0x1DB, 2, 1),
      (0x1DE, 0x1EE, 2, 1), (0x1F1, 0x1F1, 1, 2), (0x1F2, 0x1F4, 2, 1),
      (0x1F6, 0x1F6, 1, - 97), (0x1F7, 0x1F7, 1, - 56), (0x1F8, 0x21E, 2, 1),
      (0x220, 0x220, 1, - 130), (0x222, 0x232, 2, 1), (0x23A, 0x23A, 1, 10795),
      (0x23B, 0x23B, 1, 1), (0x23D, 0x23D, 1, - 163), (0x23E, 0x23E, 1, 10792),
      (0x241, 0x241, 1, 1), (0x243, 0x243, 1, - 195), (0x244, 0x244, 1, 69),
      (0x245, 0x245, 1, 71), (0x246, 0x24E, 2, 1), (0x370, 0x372, 2, 1),
      (0x376, 0x376, 1, 1), (0x37F, 0x37F, 1, 116), (0x386, 0x386, 1, 38),
      (0x388, 0x38A, 1, 37), (0x38C, 0x38C, 1, 64), (0x38E, 0x38F, 1, 63),
      (0x391, 0x3A1, 1, 32), (0x3A4, 0x3AB, 1, 32), (0x3CF, 0x3CF, 1, 8),
      (0x3D8, 0x3EE, 2, 1), (0x3F4, 0x3F4, 1, - 60), (0x3F7, 0x3F7, 1, 1),
      (0x3F9, 0x3F9, 1, - 7), (0x3FA, 0x3FA, 1, 1), (0x3FD, 0x3FF, 1, - 130),
      (0x400, 0x40F, 1, 80), (0x410, 0x42F, 1, 32), (0x460, 0x480, 2, 1),
      (0x48A, 0x4BE, 2, 1), (0x4C0, 0x4C0, 1, 15), (0x4C1, 0x4CD, 2, 1),
      (0x4D0, 0x52E, 2, 1), (0x531, 0x556, 1, 48), (0x10A0, 0x10C5, 1, 7264),
      (0x10C7, 0x10C7, 1, 7264), (0x10CD, 0x10CD, 1, 7264), (0x13A0, 0x13EF, 1, 38864),
      (0x13F0, 0x13F5, 1, 8), (0x1C90, 0x1CBA, 1, - 3008), (0x1CBD, 0x1CBF, 1, - 3008),
      (0x1E00, 0x1E94, 2, 1), (0x1E9E, 0x1E9E, 1, - 7615), (0x1EA0, 0x1EFE, 2, 1),
      (0x1F08, 0x1F0F, 1, - 8), (0x1F18, 0x1F1D, 1, - 8), (0x1F28, 0x1F2F, 1, - 8),
      (0x1F38, 0x1F3F, 1, - 8), (0x1F48, 0x1F4D, 1, - 8), (0x1F59, 0x1F5F, 2, - 8),
      (0x1F68, 0x1F6F, 1, - 8), (0x1F88, 0x1F8F, 1, - 8), (0x1F98, 0x1F9F, 1, - 8),
      (0x1FA8, 0x1FAF, 1, - 8), (0x1FB8, 0x1FB9, 1, - 8), (0x1FBA, 0x1FBB, 1, - 74),
      (0x1FBC, 0x1FBC, 1, - 9), (0x1FC8, 0x1FCB, 1, - 86), (0x1FCC, 0x1FCC, 1, - 9),
      (0x1FD8, 0x1FD9, 1, - 8), (0x1FDA, 0x1FDB, 1, - 100), (0x1FE8, 0x1FE9, 1, - 8),
      (0x1FEA, 0x1FEB, 1, - 112), (0x1FEC, 0x1FEC, 1, - 7), (0x1FF8, 0x1FF9, 1, - 128),
      (0x1FFA, 0x1FFB, 1, - 126), (0x1FFC, 0x1FFC, 1, - 9), (0x2126, 0x2126, 1, - 7517),
      (0x212A, 0x212A, 1, - 8383), (0x212B, 0x212B, 1, - 8262), (0x2132, 0x2132, 1, 28),
      (0x2160, 0x216F, 1, 16), (0x2183, 0x2183, 1, 1), (0x24B6, 0x24CF, 1, 26),
      (0x2C00, 0x2C2F, 1, 48), (0x2C60, 0x2C60, 1, 1), (0x2C62, 0x2C62, 1, - 10743),
      (0x2C63, 0x2C63, 1, - 3814), (0x2C64, 0x2C64, 1, - 10727), (0x2C67, 0x2C6B, 2, 1),
      (0x2C6D, 0x2C6D, 1, - 10780), (0x2C6E, 0x2C6E, 1, - 10749), (0x2C6F, 0x2C6F, 1, - 10783),
      (0x2C70, 0x2C70, 1, - 10782), (0x2C72, 0x2C72, 1, 1), (0x2C75, 0x2C75, 1, 1),
      (0x2C7E, 0x2C7F, 1, - 10815), (0x2C80, 0x2CE2, 2, 1), (0x2CEB, 0x2CED, 2, 1),
      (0x2CF2, 0x2CF2, 1, 1), (0xA640, 0xA66C, 2, 1), (0xA680, 0xA69A, 2, 1),
      (0xA722, 0xA72E, 2, 1), (0xA732, 0xA76E, 2, 1), (0xA779, 0xA77B, 2, 1),
      (0xA77D, 0xA77D, 1, - 35332), (0xA77E, 0xA786, 2, 1), (0xA78B, 0xA78B, 1, 1),
      (0xA78D, 0xA78D, 1, - 42280), (0xA790, 0xA792, 2, 1), (0xA796, 0xA7A8, 2, 1),
      (0xA7AA, 0xA7AA, 1, - 42308), (0xA7AB, 0xA7AB, 1, - 42319), (0xA7AC, 0xA7AC, 1, - 42315),
      (0xA7AD, 0xA7AD, 1, - 42305), (0xA7AE, 0xA7AE, 1, - 42308), (0xA7B0, 0xA7B0, 1, - 42258),
      (0xA7B1, 0xA7B1, 1, - 42282), (0xA7B2, 0xA7B2, 1, - 42261), (0xA7B3, 0xA7B3, 1, 928),
      (0xA7B4, 0xA7C2, 2, 1), (0xA7C4, 0xA7C4, 1, - 48), (0xA7C5, 0xA7C5, 1, - 42307),
      (0xA7C6, 0xA7C6, 1, - 35384), (0xA7C7, 0xA7C9, 2, 1), (0xA7D0, 0xA7D0, 1, 1),
      (0xA7D6, 0xA7D8, 2, 1), (0xA7F5, 0xA7F5, 1, 1), (0xFF21, 0xFF3A, 1, 32),
      (0x10400, 0x10427, 1, 40), (0x104B0, 0x104D3, 1, 40), (0x10570, 0x10594, 2, 39),
      (0x10571, 0x10579, 2, 39), (0x1057D, 0x10589, 2, 39), (0x1058D, 0x10591, 2, 39),
      (0x10595, 0x10595, 1, 39), (0x10C80, 0x10CB2, 1, 64), (0x118A0, 0x118BF, 1, 32),
      (0x16E40, 0x16E5F, 1, 32), (0x1E900, 0x1E921, 1, 34)]"

definition lower_special :: "(int \<times> int list) list" where
  "lower_special =
     [(0x130, [0x69, 0x307])]"

definition case_ignorable_ranges :: "(int \<times> int) list" where
  "case_ignorable_ranges =
     [(0x27, 0x27), (0x2E, 0x2E), (0x3A, 0x3A), (0x5E, 0x5E), (0x60, 0x60),
      (0xA8, 0xA8), (0xAD, 0xAD), (0xAF, 0xAF), (0xB4, 0xB4), (0xB7, 0xB8),
      (0x2B0, 0x36F), (0x374, 0x375), (0x37A, 0x37A), (0x384, 0x385), (0x387, 0x387),
      (0x483, 0x489), (0x559, 0x559), (0x55F, 0x55F), (0x591, 0x5BD), (0x5BF, 0x5BF),
      (0x5C1, 0x5C2), (0x5C4, 0x5C5), (0x5C7, 0x5C7), (0x5F4, 0x5F4), (0x600, 0x605),
      (0x610, 0x61A), (0x61C, 0x61C), (0x640, 0x640), (0x64B, 0x65F), (0x670, 0x670),
      (0x6D6, 0x6DD), (0x6DF, 0x6E8), (0x6EA, 0x6ED), (0x70F, 0x70F), (0x711, 0x711),
      (0x730, 0x74A), (0x7A6, 0x7B0), (0x7EB, 0x7F5), (0x7FA, 0x7FA), (0x7FD, 0x7FD),
      (0x816, 0x82D), (0x859, 0x85B), (0x888, 0x888), (0x890, 0x891), (0x898, 0x89F),
      (0x8C9, 0x902), (0x93A, 0x93A), (0x93C, 0x93C), (0x941, 0x948), (0x94D, 0x94D),
      (0x951, 0x957), (0x962, 0x963), (0x971, 0x971), (0x981, 0x981), (0x9BC, 0x9BC),
      (0x9C1, 0x9C4), (0x9CD, 0x9CD), (0x9E2, 0x9E3), (0x9FE, 0x9FE), (0xA01, 0xA02),
      (0xA3C, 0xA3C), (0xA41, 0xA42), (0xA47, 0xA48), (0xA4B, 0xA4D), (0xA51, 0xA51),
      (0xA70, 0xA71), (0xA75, 0xA75), (0xA81, 0xA82), (0xABC, 0xABC), (0xAC1, 0xAC5),
      (0xAC7, 0xAC8), (0xACD, 0xACD), (0xAE2, 0xAE3), (0xAFA, 0xAFF), (0xB01, 0xB01),
      (0xB3C, 0xB3C), (0xB3F, 0xB3F), (0xB41, 0xB44), (0xB4D, 0xB4D), (0xB55, 0xB56),
      (0xB62, 0xB63), (0xB82, 0xB82), (0xBC0, 0xBC0), (0xBCD, 0xBCD), (0xC00, 0xC00),
      (0xC04, 0xC04), (0xC3C, 0xC3C), (0xC3E, 0xC40), (0xC46, 0xC48), (0xC4A, 0xC4D),
      (0xC55, 0xC56), (0xC62, 0xC63), (0xC81, 0xC81), (0xCBC, 0xCBC), (0xCBF, 0xCBF),
      (0xCC6, 0xCC6), (0xCCC, 0xCCD), (0xCE2, 0xCE3), (0xD00, 0xD01), (0xD3B, 0xD3C),
      (0xD41, 0xD44), (0xD4D, 0xD4D), (0xD62, 0xD63), (0xD81, 0xD81), (0xDCA, 0xDCA),
      (0xDD2, 0xDD4), (0xDD6, 0xDD6), (0xE31, 0xE31), (0xE34, 0xE3A), (0xE46, 0xE4E),
      (0xEB1, 0xEB1), (0xEB4, 0xEBC), (0xEC6, 0xEC6), (0xEC8, 0xECD), (0xF18, 0xF19),
      (0xF35, 0xF35), (0xF37, 0xF37), (0xF39, 0xF39), (0xF71, 0xF7E), (0xF80, 0xF84),
      (0xF86, 0xF87), (0xF8D, 0xF97), (0xF99, 0xFBC), (0xFC6, 0xFC6), (0x102D, 0x1030),
      (0x1032, 0x1037), (0x1039, 0x103A), (0x103D, 0x103E), (0x1058, 0x1059), (0x105E, 0x1060),
      (0x1071, 0x1074), (0x1082, 0x1082), (0x1085, 0x1086), (0x108D, 0x108D), (0x109D, 0x109D),
      (0x10FC, 0x10FC), (0x135D, 0x135F), (0x1712, 0x1714), (0x1732, 0x1733), (0x1752, 0x1753),
      (0x1772, 0x1773), (0x17B4, 0x17B5), (0x17B7, 0x17BD), (0x17C6, 0x17C6), (0x17C9, 0x17D3),
      (0x17D7, 0x17D7), (0x17DD, 0x17DD), (0x180B, 0x180F), (0x1843, 0x1843), (0x1885, 0x1886),
      (0x18A9, 0x18A9), (0x1920, 0x1922), (0x1927, 0x1928), (0x1932, 0x1932), (0x1939, 0x193B),
      (0x1A17, 0x1A18), (0x1A1B, 0x1A1B), (0x1A56, 0x1A56), (0x1A58, 0x1A5E), (0x1A60, 0x1A60),
      (0x1A62, 0x1A62), (0x1A65, 0x1A6C), (0x1A73, 0x1A7C), (0x1A7F, 0x1A7F), (0x1AA7, 0x1AA7),
      (0x1AB0, 0x1ACE), (0x1B00, 0x1B03), (0x1B34, 0x1B34), (0x1B36, 0x1B3A), (0x1B3C, 0x1B3C),
      (0x1B42, 0x1B42), (0x1B6B, 0x1B73), (0x1B80, 0x1B81), (0x1BA2, 0x1BA5), (0x1BA8, 0x1BA9),
      (0x1BAB, 0x1BAD), (0x1BE6, 0x1BE6), (0x1BE8, 0x1BE9), (0x1BED, 0x1BED), (0x1BEF, 0x1BF1),
      (0x1C2C, 0x1C33), (0x1C36, 0x1C37), (0x1C78, 0x1C7D), (0x1CD0, 0x1CD2), (0x1CD4, 0x1CE0),
      (0x1CE2, 0x1CE8), (0x1CED, 0x1CED), (0x1CF4, 0x1CF4), (0x1CF8, 0x1CF9), (0x1D2C, 0x1D6A),
      (0x1D78, 0x1D78), (0x1D9B, 0x1DFF), (0x1FBD, 0x1FBD), (0x1FBF, 0x1FC1), (0x1FCD, 0x1FCF),
      (0x1FDD, 0x1FDF), (0x1FED, 0x1FEF), (0x1FFD, 0x1FFE), (0x200B, 0x200F), (0x2018, 0x2019),
      (0x2024, 0x2024), (0x2027, 0x2027), (0x202A, 0x202E), (0x2060, 0x2064), (0x2066, 0x206F),
      (0x2071, 0x2071), (0x207F, 0x207F), (0x2090, 0x209C), (0x20D0, 0x20F0), (0x2C7C, 0x2C7D),
      (0x2CEF, 0x2CF1), (0x2D6F, 0x2D6F), (0x2D7F, 0x2D7F), (0x2DE0, 0x2DFF), (0x2E2F, 0x2E2F),
      (0x3005, 0x3005), (0x302A, 0x302D), (0x3031, 0x3035), (0x303B, 0x303B), (0x3099, 0x309E),
      (0x30FC, 0x30FE), (0xA015, 0xA015), (0xA4F8, 0xA4FD), (0xA60C, 0xA60C), (0xA66F, 0xA672),
      (0xA674, 0xA67D), (0xA67F, 0xA67F), (0xA69C, 0xA69F), (0xA6F0, 0xA6F1), (0xA700, 0xA721),
      (0xA770, 0xA770), (0xA788, 0xA78A), (0xA7F2, 0xA7F4), (0xA7F8, 0xA7F9), (0xA802, 0xA802),
      (0xA806, 0xA806), (0xA80B, 0xA80B), (0xA825, 0xA826), (0xA82C, 0xA82C), (0xA8C4, 0xA8C5),
      (0xA8E0, 0xA8F1), (0xA8FF, 0xA8FF), (0xA926, 0xA92D), (0xA947, 0xA951), (0xA980, 0xA982),
      (0xA9B3, 0xA9B3), (0xA9B6, 0xA9B9), (0xA9BC, 0xA9BD), (0xA9CF, 0xA9CF), (0xA9E5, 0xA9E6),
      (0xAA29, 0xAA2E), (0xAA31, 0xAA32), (0xAA35, 0xAA36), (0xAA43, 0xAA43), (0xAA4C, 0xAA4C),
      (0xAA70, 0xAA70), (0xAA7C, 0xAA7C), (0xAAB0, 0xAAB0), (0xAAB2, 0xAAB4), (0xAAB7, 0xAAB8),
      (0xAABE, 0xAABF), (0xAAC1, 0xAAC1), (0xAADD, 0xAADD), (0xAAEC, 0xAAED), (0xAAF3, 0xAAF4),
      (0xAAF6, 0xAAF6), (0xAB5B, 0xAB5F), (0xAB69, 0xAB6B), (0xABE5, 0xABE5), (0xABE8, 0xABE8),
      (0xABED, 0xABED), (0xFB1E, 0xFB1E), (0xFBB2, 0xFBC2), (0xFE00, 0xFE0F), (0xFE13, 0xFE13),
      (0xFE20, 0xFE2F), (0xFE52, 0xFE52), (0xFE55, 0xFE55), (0xFEFF, 0xFEFF), (0xFF07, 0xFF07),
      (0xFF0E, 0xFF0E), (0xFF1A, 0xFF1A), (0xFF3E, 0xFF3E), (0xFF40, 0xFF40), (0xFF70, 0xFF70),
      (0xFF9E, 0xFF9F), (0xFFE3, 0xFFE3), (0xFFF9, 0xFFFB), (0x101FD, 0x101FD), (0x102E0, 0x102E0),
      (0x10376, 0x1037A), (0x10780, 0x10785), (0x10787, 0x107B0), (0x107B2, 0x107BA), (0x10A01, 0x10A03),
      (0x10A05, 0x10A06), (0x10A0C, 0x10A0F), (0x10A38, 0x10A3A), (0x10A3F, 0x10A3F), (0x10AE5, 0x10AE6),
      (0x10D24, 0x10D27), (0x10EAB, 0x10EAC), (0x10F46, 0x10F50), (0x10F82, 0x10F85), (0x11001, 0x11001),
      (0x11038, 0x11046), (0x11070, 0x11070), (0x11073, 0x11074), (0x1107F, 0x11081), (0x110B3, 0x110B6),
      (0x110B9, 0x110BA), (0x110BD, 0x110BD), (0x110C2, 0x110C2), (0x110CD, 0x110CD), (0x11100, 0x11102),
      (0x11127, 0x1112B), (0x1112D, 0x11134), (0x11173, 0x11173), (0x11180, 0x11181), (0x111B6, 0x111BE),
      (0x111C9, 0x111CC), (0x111CF, 0x111CF), (0x1122F, 0x11231), (0x11234, 0x11234), (0x11236, 0x11237),
      (0x1123E, 0x1123E), (0x112DF, 0x112DF), (0x112E3, 0x112EA), (0x11300, 0x11301), (0x1133B, 0x1133C),
      (0x11340, 0x11340), (0x11366, 0x1136C), (0x11370, 0x11374), (0x11438, 0x1143F), (0x11442, 0x11444),
      (0x11446, 0x11446), (0x1145E, 0x1145E), (0x114B3, 0x114B8), (0x114BA, 0x114BA), (0x114BF, 0x114C0),
      (0x114C2, 0x114C3), (0x115B2, 0x115B5), (0x115BC, 0x115BD), (0x115BF, 0x115C0), (0x115DC, 0x115DD),
      (0x11633, 0x1163A), (0x1163D, 0x1163D), (0x1163F, 0x11640), (0x116AB, 0x116AB), (0x116AD, 0x116AD),
      (0x116B0, 0x116B5), (0x116B7, 0x116B7), (0x1171D, 0x1171F), (0x11722, 0x11725), (0x11727, 0x1172B),
      (0x1182F, 0x11837), (0x11839, 0x1183A), (0x1193B, 0x1193C), (0x1193E, 0x1193E), (0x11943, 0x11943),
      (0x119D4, 0x119D7), (0x119DA, 0x119DB), (0x119E0, 0x119E0), (0x11A01, 0x11A0A), (0x11A33, 0x11A38),
      (0x11A3B, 0x11A3E), (0x11A47, 0x11A47), (0x11A51, 0x11A56), (0x11A59, 0x11A5B), (0x11A8A, 0x11A96),
      (0x11A98, 0x11A99), (0x11C30, 0x11C36), (0x11C38, 0x11C3D), (0x11C3F, 0x11C3F), (0x11C92, 0x11CA7),
      (0x11CAA, 0x11CB0), (0x11CB2, 0x11CB3), (0x11CB5, 0x11CB6), (0x11D31, 0x11D36), (0x11D3A, 0x11D3A),
      (0x11D3C, 0x11D3D), (0x11D3F, 0x11D45), (0x11D47, 0x11D47), (0x11D90, 0x11D91), (0x11D95, 0x11D95),
      (0x11D97, 0x11D97), (0x11EF3, 0x11EF4), (0x13430, 0x13438), (0x16AF0, 0x16AF4), (0x16B30, 0x16B36),
      (0x16B40, 0x16B43), (0x16F4F, 0x16F4F), (0x16F8F, 0x16F9F), (0x16FE0, 0x16FE1), (0x16FE3, 0x16FE4),
      (0x1AFF0, 0x1AFF3), (0x1AFF5, 0x1AFFB), (0x1AFFD, 0x1AFFE), (0x1BC9D, 0x1BC9E), (0x1BCA0, 0x1BCA3),
      (0x1CF00, 0x1CF2D), (0x1CF30, 0x1CF46), (0x1D167, 0x1D169), (0x1D173, 0x1D182), (0x1D185, 0x1D18B),
      (0x1D1AA, 0x1D1AD), (0x1D242, 0x1D244), (0x1DA00, 0x1DA36), (0x1DA3B, 0x1DA6C), (0x1DA75, 0x1DA75),
      (0x1DA84, 0x1DA84), (0x1DA9B, 0x1DA9F), (0x1DAA1, 0x1DAAF), (0x1E000, 0x1E006), (0x1E008, 0x1E018),
      (0x1E01B, 0x1E021), (0x1E023, 0x1E024), (0x1E026, 0x1E02A), (0x1E130, 0x1E13D), (0x1E2AE, 0x1E2AE),
      (0x1E2EC, 0x1E2EF), (0x1E8D0, 0x1E8D6), (0x1E944, 0x1E94B), (0x1F3FB, 0x1F3FF), (0xE0001, 0xE0001),
      (0xE0020, 0xE007F), (0xE0100, 0xE01EF)]"

definition cased_ranges :: "(int \<times> int) list" where
  "cased_ranges =
     [(0x41, 0x5A), (0x61, 0x7A), (0xAA, 0xAA), (0xB5, 0xB5), (0xBA, 0xBA),
      (0xC0, 0xD6), (0xD8, 0xF6), (0xF8, 0x1BA), (0x1BC, 0x1BF), (0x1C4, 0x293),
      (0x295, 0x2AF), (0x370, 0x373), (0x376, 0x377), (0x37B, 0x37D), (0x37F, 0x37F),
      (0x386, 0x386), (0x388, 0x38A), (0x38C, 0x38C), (0x38E, 0x3A1), (0x3A3, 0x3F5),
      (0x3F7, 0x481), (0x48A, 0x52F), (0x531, 0x556), (0x560, 0x588), (0x10A0, 0x10C5),
      (0x10C7, 0x10C7), (0x10CD, 0x10CD), (0x10D0, 0x10FA), (0x10FD, 0x10FF), (0x13A0, 0x13F5),
      (0x13F8, 0x13FD), (0x1C80, 0x1C88), (0x1C90, 0x1CBA), (0x1CBD, 0x1CBF), (0x1D00, 0x1D2B),
      (0x1D6B, 0x1D77), (0x1D79, 0x1D9A), (0x1E00, 0x1F15), (0x1F18, 0x1F1D), (0x1F20, 0x1F45),
      (0x1F48, 0x1F4D), (0x1F50, 0x1F57), (0x1F59, 0x1F59), (0x1F5B, 0x1F5B), (0x1F5D, 0x1F5D),
      (0x1F5F, 0x1F7D), (0x1F80, 0x1FB4), (0x1FB6, 0x1FBC), (0x1FBE, 0x1FBE), (0x1FC2, 0x1FC4),
      (0x1FC6, 0x1FCC), (0x1FD0, 0x1FD3), (0x1FD6, 0x1FDB), (0x1FE0, 0x1FEC), (0x1FF2, 0x1FF4),
      (0x1FF6, 0x1FFC), (0x2102, 0x2102), (0x2107, 0x2107), (0x210A, 0x2113), (0x2115, 0x2115),
      (0x2119, 0x211D), (0x2124, 0x2124), (0x2126, 0x2126), (0x2128, 0x2128), (0x212A, 0x212D),
      (0x212F, 0x2134), (0x2139, 0x2139), (0x213C, 0x213F), (0x2145, 0x2149), (0x214E, 0x214E),
      (0x2160, 0x217F), (0x2183, 0x2184), (0x24B6, 0x24E9), (0x2C00, 0x2C7B), (0x2C7E, 0x2CE4),
      (0x2CEB, 0x2CEE), (0x2CF2, 0x2CF3), (0x2D00, 0x2D25), (0x2D27, 0x2D27), (0x2D2D, 0x2D2D),
      (0xA640, 0xA66D), (0xA680, 0xA69B), (0xA722, 0xA76F), (0xA771, 0xA787), (0xA78B, 0xA78E),
      (0xA790, 0xA7CA), (0xA7D0, 0xA7D1), (0xA7D3, 0xA7D3), (0xA7D5, 0xA7D9), (0xA7F5, 0xA7F6),
      (0xA7FA, 0xA7FA), (0xAB30, 0xAB5A), (0xAB60, 0xAB68), (0xAB70, 0xABBF), (0xFB00, 0xFB06),
      (0xFB13, 0xFB17), (0xFF21, 0xFF3A), (0xFF41, 0xFF5A), (0x10400, 0x1044F), (0x104B0, 0x104D3),
      (0x104D8, 0x104FB), (0x10570, 0x1057A), (0x1057C, 0x1058A), (0x1058C, 0x10592), (0x10594, 0x10595),
      (0x10597, 0x105A1), (0x105A3, 0x105B1), (0x105B3, 0x105B9), (0x105BB, 0x105BC), (0x10C80, 0x10CB2),
      (0x10CC0, 0x10CF2), (0x118A0, 0x118DF), (0x16E40, 0x16E7F), (0x1D400, 0x1D454), (0x1D456, 0x1D49C),
      (0x1D49E, 0x1D49F), (0x1D4A2, 0x1D4A2), (0x1D4A5, 0x1D4A6), (0x1D4A9, 0x1D4AC), (0x1D4AE, 0x1D4B9),
      (0x1D4BB, 0x1D4BB), (0x1D4BD, 0x1D4C3), (0x1D4C5, 0x1D505), (0x1D507, 0x1D50A), (0x1D50D, 0x1D514),
      (0x1D516, 0x1D51C), (0x1D51E, 0x1D539), (0x1D53B, 0x1D53E), (0x1D540, 0x1D544), (0x1D546, 0x1D546),
      (0x1D54A, 0x1D550), (0x1D552, 0x1D6A5), (0x1D6A8, 0x1D6C0), (0x1D6C2, 0x1D6DA), (0x1D6DC, 0x1D6FA),
      (0x1D6FC, 0x1D714), (0x1D716, 0x1D734), (0x1D736, 0x1D74E), (0x1D750, 0x1D76E), (0x1D770, 0x1D788),
      (0x1D78A, 0x1D7A8), (0x1D7AA, 0x1D7C2), (0x1D7C4, 0x1D7CB), (0x1DF00, 0x1DF09), (0x1DF0B, 0x1DF1E),
      (0x1E900, 0x1E943), (0x1F130, 0x1F149), (0x1F150, 0x1F169), (0x1F170, 0x1F189)]"

fun range_offset :: "(int \<times> int \<times> int \<times> int) list \<Rightarrow> int \<Rightarrow> int" where
  "range_offset [] c = 0"
| "range_offset ((a, b, st, d) # rs) c =
     (if c < a then 0
      else if c \<le> b \<and> (c - a) mod st = 0 then d
      else range_offset rs c)"

fun special_case :: "(int \<times> int list) list \<Rightarrow> int \<Rightarrow> int list option" where
  "special_case [] c = None"
| "special_case ((k, v) # rs) c =
     (if c < k then None else if c = k then Some v else special_case rs c)"

fun in_ranges :: "(int \<times> int) list \<Rightarrow> int \<Rightarrow> bool" where
  "in_ranges [] c = False"
| "in_ranges ((a, b) # rs) c = (if c < a then False else c \<le> b \<or> in_ranges rs c)"

definition upper_cp :: "int \<Rightarrow> int list" where
  "upper_cp c =
     (case special_case upper_special c of
        Some cs \<Rightarrow> cs
      | None \<Rightarrow> [c + range_offset upper_ranges c])"

definition lower_cp :: "int \<Rightarrow> int list" where
  "lower_cp c =
     (case special_case lower_special c of
        Some cs \<Rightarrow> cs
      | None \<Rightarrow> [c + range_offset lower_ranges c])"

text \<open>The code points of a string, and the code units of a code point.\<close>

definition is_high :: "codeunit \<Rightarrow> bool" where
  "is_high c = (0xD800 \<le> c \<and> c \<le> 0xDBFF)"

definition is_low :: "codeunit \<Rightarrow> bool" where
  "is_low c = (0xDC00 \<le> c \<and> c \<le> 0xDFFF)"

fun code_points :: "jstring \<Rightarrow> int list" where
  "code_points [] = []"
| "code_points [c] = [uint c]"
| "code_points (c # d # r) =
     (if is_high c \<and> is_low d
      then (0x10000 + (uint c - 0xD800) * 0x400 + (uint d - 0xDC00)) # code_points r
      else uint c # code_points (d # r))"

definition code_units :: "int \<Rightarrow> jstring" where
  "code_units n =
     (if n < 0x10000 then [word_of_int n]
      else [word_of_int (0xD800 + (n - 0x10000) div 0x400),
            word_of_int (0xDC00 + (n - 0x10000) mod 0x400)])"

definition toUpperCase :: "jstring \<Rightarrow> jstring" where
  "toUpperCase s = concat (map code_units (concat (map upper_cp (code_points s))))"

text \<open>
  The one mapping that depends on the context: a capital sigma (U+03A3) becomes the
  final small sigma (U+03C2) when a cased letter comes before it, with nothing but
  case-ignorable code points in between, and no cased letter comes after it in the same
  way; otherwise the small sigma (U+03C3). \<open>cased_ranges\<close> lists the cased letters that
  are not case-ignorable.
\<close>

fun after_ignorable_cased :: "int list \<Rightarrow> bool" where
  "after_ignorable_cased [] = False"
| "after_ignorable_cased (c # cs) =
     (if in_ranges case_ignorable_ranges c then after_ignorable_cased cs
      else in_ranges cased_ranges c)"

fun lower_from :: "int list \<Rightarrow> int list \<Rightarrow> int list" where
  "lower_from pre [] = []"
| "lower_from pre (c # cs) =
     (if c = 0x3A3
      then [if after_ignorable_cased pre \<and> \<not> after_ignorable_cased cs then 0x3C2 else 0x3C3]
      else lower_cp c) @ lower_from (c # pre) cs"

definition toLowerCase :: "jstring \<Rightarrow> jstring" where
  "toLowerCase s = concat (map code_units (lower_from [] (code_points s)))"


section \<open>JSON values and \<^verbatim>\<open>JSON.parse\<close>\<close>

text \<open>
  The values \<^verbatim>\<open>JSON.parse\<close> can return. A number keeps the text it was written with; what
  the engine makes of it (printing, truthiness, the instant of \<^verbatim>\<open>new Date(n)\<close>) is
  supplied by the platform record below. An object is an association list with distinct
  keys, in the order of the text (the engine enumerates keys that are array indices
  first, which nothing in the source observes); the value \<^verbatim>\<open>undefined\<close> of a missing
  property is \<open>None\<close>.
\<close>

datatype jv =
    JNull
  | JBool bool
  | JNum jstring
  | JStr jstring
  | JArr "jv list"
  | JObj "(jstring \<times> jv) list"

definition json_ws :: "codeunit \<Rightarrow> bool" where
  "json_ws c = (c \<in> set [0x20, 0x09, 0x0A, 0x0D])"

definition skip_ws :: "jstring \<Rightarrow> jstring" where
  "skip_ws s = dropWhile json_ws s"

definition hexval :: "codeunit \<Rightarrow> codeunit option" where
  "hexval c = map_of (zip (js ''0123456789abcdefABCDEF'')
                 [0, 1, 2, 3, 4, 5, 6, 7, 8, 9, 10, 11, 12, 13, 14, 15, 10, 11, 12, 13, 14, 15]) c"

definition json_escape :: "codeunit \<Rightarrow> codeunit option" where
  "json_escape e = map_of
     [(0x22, 0x22), (0x5C, 0x5C), (cu CHR ''/'', cu CHR ''/''),
      (cu CHR ''b'', 0x08), (cu CHR ''f'', 0x0C), (cu CHR ''n'', 0x0A),
      (cu CHR ''r'', 0x0D), (cu CHR ''t'', 0x09)] e"

text \<open>The code unit of the escape \<^verbatim>\<open>\uXXXX\<close>.\<close>

definition hex4 :: "codeunit \<Rightarrow> codeunit \<Rightarrow> codeunit \<Rightarrow> codeunit \<Rightarrow> codeunit option" where
  "hex4 a b c d =
     (case (hexval a, hexval b, hexval c, hexval d) of
        (Some w, Some x, Some y, Some z) \<Rightarrow> Some (((w * 16 + x) * 16 + y) * 16 + z)
      | _ \<Rightarrow> None)"

text \<open>
  The characters of a JSON string after its opening quote (\<open>0x22\<close>; \<open>0x5C\<close> is the
  backslash): the decoded text and what follows the closing quote. An escape
  \<^verbatim>\<open>\uXXXX\<close> gives one code unit, so that an escaped surrogate pair is the same string as
  the character written out.
\<close>

fun json_chars :: "jstring \<Rightarrow> (jstring \<times> jstring) option" where
  "json_chars [] = None"
| "json_chars (c # cs) =
     (if c = 0x22 then Some ([], cs)
      else if c = 0x5C then
        (case cs of
           [] \<Rightarrow> None
         | e # r \<Rightarrow>
             if e = cu CHR ''u'' then
               (case r of
                  h1 # h2 # h3 # h4 # r' \<Rightarrow>
                    (case hex4 h1 h2 h3 h4 of
                       None \<Rightarrow> None
                     | Some u \<Rightarrow> map_option (\<lambda>(s, q). (u # s, q)) (json_chars r'))
                | _ \<Rightarrow> None)
             else
               (case json_escape e of
                  None \<Rightarrow> None
                | Some d \<Rightarrow> map_option (\<lambda>(s, q). (d # s, q)) (json_chars r)))
      else if c < 0x20 then None
      else map_option (\<lambda>(s, q). (c # s, q)) (json_chars cs))"

text \<open>A run of one or more digits, or nothing.\<close>

definition digits1 :: "jstring \<Rightarrow> (jstring \<times> jstring) option" where
  "digits1 s = (if takeWhile is_digit s = [] then None
                else Some (takeWhile is_digit s, dropWhile is_digit s))"

text \<open>The JSON number grammar: sign, integer part, fraction, exponent.\<close>

definition json_int :: "jstring \<Rightarrow> (jstring \<times> jstring) option" where
  "json_int s =
     (case s of
        [] \<Rightarrow> None
      | d # r \<Rightarrow>
          if d = cu CHR ''0'' then Some ([d], r)
          else if is_digit d then Some (d # takeWhile is_digit r, dropWhile is_digit r)
          else None)"

definition json_frac :: "jstring \<Rightarrow> (jstring \<times> jstring) option" where
  "json_frac s =
     (case s of
        [] \<Rightarrow> Some ([], [])
      | d # r \<Rightarrow>
          if d = cu CHR ''.'' then map_option (\<lambda>(ds, q). (d # ds, q)) (digits1 r)
          else Some ([], s))"

definition json_exp :: "jstring \<Rightarrow> (jstring \<times> jstring) option" where
  "json_exp s =
     (case s of
        [] \<Rightarrow> Some ([], [])
      | e # r \<Rightarrow>
          if e = cu CHR ''e'' \<or> e = cu CHR ''E'' then
            (case r of
               [] \<Rightarrow> None
             | g # r' \<Rightarrow>
                 if g = cu CHR ''+'' \<or> g = cu CHR ''-''
                 then map_option (\<lambda>(ds, q). (e # g # ds, q)) (digits1 r')
                 else map_option (\<lambda>(ds, q). (e # ds, q)) (digits1 r))
          else Some ([], s))"

definition json_number :: "jstring \<Rightarrow> (jstring \<times> jstring) option" where
  "json_number s =
     (let (sg, s0) = (case s of [] \<Rightarrow> ([], s)
                      | c # r \<Rightarrow> if c = cu CHR ''-'' then ([c], r) else ([], s))
      in case json_int s0 of
           None \<Rightarrow> None
         | Some (ip, s1) \<Rightarrow>
             (case json_frac s1 of
                None \<Rightarrow> None
              | Some (fp, s2) \<Rightarrow>
                  (case json_exp s2 of
                     None \<Rightarrow> None
                   | Some (ep, s3) \<Rightarrow> Some (sg @ ip @ fp @ ep, s3))))"

text \<open>
  The recursive descent over values, array elements and object members. The first
  argument bounds the number of nested calls; \<open>JSON_parse\<close> starts it at twice the
  length of the text plus two, which is enough (\<open>JSON_parse_fuel\<close> below).
  A repeated key keeps its first position and takes the last value, as the engine's
  property definition does.
\<close>

fun json_value :: "nat \<Rightarrow> jstring \<Rightarrow> (jv \<times> jstring) option"
  and json_elems :: "nat \<Rightarrow> jstring \<Rightarrow> jv list \<Rightarrow> (jv list \<times> jstring) option"
  and json_members :: "nat \<Rightarrow> jstring \<Rightarrow> (jstring \<times> jv) list
                         \<Rightarrow> ((jstring \<times> jv) list \<times> jstring) option"
where
  "json_value 0 s = None"
| "json_value (Suc n) s =
     (case skip_ws s of
        [] \<Rightarrow> None
      | c # r \<Rightarrow>
          if c = cu CHR ''{'' then
            (case skip_ws r of
               [] \<Rightarrow> None
             | d # r' \<Rightarrow>
                 if d = cu CHR ''}'' then Some (JObj [], r')
                 else map_option (\<lambda>(kvs, q). (JObj kvs, q)) (json_members n r []))
          else if c = cu CHR ''['' then
            (case skip_ws r of
               [] \<Rightarrow> None
             | d # r' \<Rightarrow>
                 if d = cu CHR '']'' then Some (JArr [], r')
                 else map_option (\<lambda>(vs, q). (JArr vs, q)) (json_elems n r []))
          else if c = 0x22 then map_option (\<lambda>(t, q). (JStr t, q)) (json_chars r)
          else if startsWith (c # r) (js ''true'') then Some (JBool True, drop 4 (c # r))
          else if startsWith (c # r) (js ''false'') then Some (JBool False, drop 5 (c # r))
          else if startsWith (c # r) (js ''null'') then Some (JNull, drop 4 (c # r))
          else map_option (\<lambda>(t, q). (JNum t, q)) (json_number (c # r)))"
| "json_elems 0 s acc = None"
| "json_elems (Suc n) s acc =
     (case json_value n s of
        None \<Rightarrow> None
      | Some (v, r) \<Rightarrow>
          (case skip_ws r of
             [] \<Rightarrow> None
           | d # r' \<Rightarrow>
               if d = cu CHR '','' then json_elems n r' (acc @ [v])
               else if d = cu CHR '']'' then Some (acc @ [v], r')
               else None))"
| "json_members 0 s acc = None"
| "json_members (Suc n) s acc =
     (case skip_ws s of
        [] \<Rightarrow> None
      | q # r \<Rightarrow>
          if q \<noteq> 0x22 then None
          else
            (case json_chars r of
               None \<Rightarrow> None
             | Some (k, r1) \<Rightarrow>
                 (case skip_ws r1 of
                    [] \<Rightarrow> None
                  | col # r2 \<Rightarrow>
                      if col \<noteq> (cu CHR '':'') then None
                      else
                        (case json_value n r2 of
                           None \<Rightarrow> None
                         | Some (v, r3) \<Rightarrow>
                             (case skip_ws r3 of
                                [] \<Rightarrow> None
                              | d # r4 \<Rightarrow>
                                  if d = cu CHR '','' then json_members n r4 (AList.update k v acc)
                                  else if d = cu CHR ''}'' then Some (AList.update k v acc, r4)
                                  else None)))))"

text \<open>\<^verbatim>\<open>JSON.parse(text)\<close>; \<open>None\<close> is the \<^verbatim>\<open>SyntaxError\<close> it throws.\<close>

definition JSON_parse :: "jstring \<Rightarrow> jv option" where
  "JSON_parse s =
     (case json_value (2 * length s + 2) s of
        None \<Rightarrow> None
      | Some (v, r) \<Rightarrow> if skip_ws r = [] then Some v else None)"



section \<open>Truthiness, printing and property access\<close>

text \<open>
  What the ECMAScript engine decides and the source relies on: how a number prints
  (\<^verbatim>\<open>String(n)\<close>), whether it is truthy, how \<^verbatim>\<open>new Date\<close> reads a string or a
  number (\<open>None\<close> is the invalid date; an instant is its time value in milliseconds),
  and the clock: the year of \<^verbatim>\<open>new Date().getFullYear()\<close> and the date part of
  \<^verbatim>\<open>new Date().toISOString()\<close>. The functions below take them as a parameter.
\<close>

record platform =
  num_to_string :: "jstring \<Rightarrow> jstring"
  num_truthy :: "jstring \<Rightarrow> bool"
  date_of_string :: "jstring \<Rightarrow> int option"
  date_of_number :: "jstring \<Rightarrow> int option"
  current_year :: jstring
  today :: jstring

datatype exn = TypeError

fun truthy :: "platform \<Rightarrow> jv option \<Rightarrow> bool" where
  "truthy P None = False"
| "truthy P (Some JNull) = False"
| "truthy P (Some (JBool b)) = b"
| "truthy P (Some (JNum n)) = num_truthy P n"
| "truthy P (Some (JStr s)) = (s \<noteq> [])"
| "truthy P (Some (JArr vs)) = True"
| "truthy P (Some (JObj kvs)) = True"

text \<open>\<^verbatim>\<open>a || b\<close>\<close>

definition or_js :: "platform \<Rightarrow> jv option \<Rightarrow> jv option \<Rightarrow> jv option" where
  "or_js P a b = (if truthy P a then a else b)"

text \<open>
  \<^verbatim>\<open>String(v)\<close>, which is also the conversion of a template literal. An array prints its
  elements joined by commas, \<^verbatim>\<open>null\<close> as the empty string. A parsed object has no
  callable property: with a key \<^verbatim>\<open>toString\<close> of its own the conversion to a primitive
  finds no method that returns one and throws \<^verbatim>\<open>TypeError\<close>; without it the inherited
  method prints \<^verbatim>\<open>[object Object]\<close>.
\<close>

fun ToString :: "platform \<Rightarrow> jv \<Rightarrow> exn + jstring"
  and ToString_elems :: "platform \<Rightarrow> jv list \<Rightarrow> exn + jstring list"
where
  "ToString P JNull = Inr (js ''null'')"
| "ToString P (JBool b) = Inr (if b then js ''true'' else js ''false'')"
| "ToString P (JNum n) = Inr (num_to_string P n)"
| "ToString P (JStr s) = Inr s"
| "ToString P (JArr vs) =
     (case ToString_elems P vs of Inl e \<Rightarrow> Inl e | Inr ss \<Rightarrow> Inr (join (js '','') ss))"
| "ToString P (JObj kvs) =
     (if map_of kvs (js ''toString'') \<noteq> None then Inl TypeError else Inr (js ''[object Object]''))"
| "ToString_elems P [] = Inr []"
| "ToString_elems P (v # vs) =
     (case (if v = JNull then Inr [] else ToString P v) of
        Inl e \<Rightarrow> Inl e
      | Inr s \<Rightarrow> (case ToString_elems P vs of Inl e \<Rightarrow> Inl e | Inr ss \<Rightarrow> Inr (s # ss)))"

text \<open>
  \<^verbatim>\<open>json.k\<close> and \<^verbatim>\<open>obj[k]\<close> for the keys the source reads (none of them is a property
  of a prototype): the own property of an object, \<^verbatim>\<open>undefined\<close> on any other value but
  \<^verbatim>\<open>null\<close>, where the access throws.
\<close>

fun getp :: "jv \<Rightarrow> jstring \<Rightarrow> exn + jv option" where
  "getp (JObj kvs) k = Inr (map_of kvs k)"
| "getp JNull k = Inl TypeError"
| "getp v k = Inr None"

fun is_JStr :: "jv option \<Rightarrow> bool" where
  "is_JStr (Some (JStr s)) = True"
| "is_JStr v = False"

fun is_JNum :: "jv option \<Rightarrow> bool" where
  "is_JNum (Some (JNum n)) = True"
| "is_JNum v = False"

text \<open>The text of a value known to be a string.\<close>

fun str_of :: "jv option \<Rightarrow> jstring option" where
  "str_of (Some (JStr s)) = Some s"
| "str_of v = None"

text \<open>Sequencing of computations that may throw.\<close>

definition bindE :: "exn + 'a \<Rightarrow> ('a \<Rightarrow> exn + 'b) \<Rightarrow> exn + 'b" where
  "bindE m f = (case m of Inl e \<Rightarrow> Inl e | Inr x \<Rightarrow> f x)"


section \<open>Regular expressions\<close>

text \<open>
  The constructs the source's regular expressions use: a character class, sequence,
  the greedy optional \<^verbatim>\<open>r?\<close>, the greedy star of a character class, a numbered capture
  group and the end anchor. Every expression of the source is anchored at the start.
  \<open>rmatch\<close> is the backtracking matcher on a stack of what is still to be matched;
  \<open>Close i s0\<close> ends group \<open>i\<close>, opened when the input was \<open>s0\<close>. The first
  alternative that lets the rest match wins, as in the engine.
\<close>

datatype re =
    Eps
  | Cls "codeunit \<Rightarrow> bool"
  | Seq re re
  | Opt re
  | Star "codeunit \<Rightarrow> bool"
  | Grp nat re
  | Eol

datatype item = R re | Close nat jstring

type_synonym caps = "(nat \<times> jstring) list"

fun re_weight :: "re \<Rightarrow> nat" where
  "re_weight Eps = 1"
| "re_weight (Cls p) = 1"
| "re_weight (Seq a b) = Suc (re_weight a + re_weight b)"
| "re_weight (Opt a) = Suc (re_weight a)"
| "re_weight (Star p) = 1"
| "re_weight (Grp i a) = Suc (Suc (re_weight a))"
| "re_weight Eol = 1"

fun item_weight :: "item \<Rightarrow> nat" where
  "item_weight (R r) = re_weight r"
| "item_weight (Close i s0) = 1"

function rmatch :: "item list \<Rightarrow> jstring \<Rightarrow> caps \<Rightarrow> caps option" where
  "rmatch [] s c = Some c"
| "rmatch (R Eps # k) s c = rmatch k s c"
| "rmatch (R (Cls p) # k) s c =
     (case s of [] \<Rightarrow> None | x # xs \<Rightarrow> if p x then rmatch k xs c else None)"
| "rmatch (R (Seq a b) # k) s c = rmatch (R a # R b # k) s c"
| "rmatch (R (Opt a) # k) s c =
     (case rmatch (R a # k) s c of Some c' \<Rightarrow> Some c' | None \<Rightarrow> rmatch k s c)"
| "rmatch (R (Star p) # k) s c =
     (case s of
        [] \<Rightarrow> rmatch k [] c
      | x # xs \<Rightarrow>
          if p x then
            (case rmatch (R (Star p) # k) xs c of
               Some c' \<Rightarrow> Some c'
             | None \<Rightarrow> rmatch k (x # xs) c)
          else rmatch k (x # xs) c)"
| "rmatch (R (Grp i a) # k) s c = rmatch (R a # Close i s # k) s c"
| "rmatch (R Eol # k) s c = (if s = [] then rmatch k s c else None)"
| "rmatch (Close i s0 # k) s c = rmatch k s ((i, take (length s0 - length s) s0) # c)"
  by pat_completeness auto
termination
  by (relation "measures [\<lambda>(k, s, c). sum_list (map item_weight k), \<lambda>(k, s, c). length s]")
     auto

text \<open>\<^verbatim>\<open>s.match(r)\<close> for an expression anchored at the start; group 0 is the match.\<close>

definition re_exec :: "re \<Rightarrow> jstring \<Rightarrow> caps option" where
  "re_exec r s = rmatch [R (Grp 0 r)] s []"

text \<open>The leftmost match of an expression that is not anchored, with the text before it.\<close>

fun re_search :: "re \<Rightarrow> jstring \<Rightarrow> jstring \<Rightarrow> (jstring \<times> caps) option" where
  "re_search r pre [] = map_option (Pair pre) (re_exec r [])"
| "re_search r pre (x # xs) =
     (case re_exec r (x # xs) of
        Some c \<Rightarrow> Some (pre, c)
      | None \<Rightarrow> re_search r (pre @ [x]) xs)"

text \<open>\<^verbatim>\<open>match[i]\<close>: the text of a group, \<open>None\<close> when it took no part in the match.\<close>

definition grp :: "caps \<Rightarrow> nat \<Rightarrow> jstring option" where
  "grp c i = map_of c i"

fun seqs :: "re list \<Rightarrow> re" where
  "seqs [] = Eps"
| "seqs [r] = r"
| "seqs (r # rs) = Seq r (seqs rs)"

definition ch :: "codeunit \<Rightarrow> re" where
  "ch c = Cls (\<lambda>x. x = c)"

definition Plus :: "(codeunit \<Rightarrow> bool) \<Rightarrow> re" where
  "Plus p = Seq (Cls p) (Star p)"

definition times :: "nat \<Rightarrow> (codeunit \<Rightarrow> bool) \<Rightarrow> re" where
  "times n p = seqs (replicate n (Cls p))"

text \<open>\<^verbatim>\<open>.\<close> matches any code unit but a line terminator.\<close>

definition is_dot :: "codeunit \<Rightarrow> bool" where
  "is_dot c = (\<not> is_line_terminator c)"

definition not_ws :: "codeunit \<Rightarrow> bool" where
  "not_ws c = (\<not> is_ws c)"

definition not_ch :: "codeunit \<Rightarrow> codeunit \<Rightarrow> bool" where
  "not_ch c x = (x \<noteq> c)"

text \<open>\<^verbatim>\<open>\d{2}:\d{2}:\d{2}\<close>\<close>

definition re_hms :: re where
  "re_hms = seqs [times 2 is_digit, ch (cu CHR '':''), times 2 is_digit, ch (cu CHR '':''), times 2 is_digit]"

text \<open>\<^verbatim>\<open>(?:\.\d{3})?\<close>\<close>

definition re_millis :: re where
  "re_millis = Opt (Seq (ch (cu CHR ''.'')) (times 3 is_digit))"

text \<open>\<^verbatim>\<open>\d{4}-\d{2}-\d{2}\<close>\<close>

definition re_ymd :: re where
  "re_ymd = seqs [times 4 is_digit, ch (cu CHR ''-''), times 2 is_digit, ch (cu CHR ''-''), times 2 is_digit]"



section \<open>The pattern registry \<^verbatim>\<open>LOG_PATTERNS\<close>\<close>

record pattern =
  name :: jstring
  regex :: re
  g_timestamp :: "nat option"
  g_level :: "nat option"
  g_message :: "nat option"
  g_source :: "nat option"
  g_thread :: "nat option"

text \<open>\<^verbatim>\<open>/^(\d{4}-\d{2}-\d{2}T\d{2}:\d{2}:\d{2}(?:\.\d{3})?Z?)\s*\[?([A-Z]+)\]?\s*(.*)$/\<close>\<close>

definition re_iso :: re where
  "re_iso = seqs
     [Grp 1 (seqs [re_ymd, ch (cu CHR ''T''), re_hms, re_millis, Opt (ch (cu CHR ''Z''))]),
      Star is_ws, Opt (ch (cu CHR ''['')), Grp 2 (Plus is_upper), Opt (ch (cu CHR '']'')),
      Star is_ws, Grp 3 (Star is_dot), Eol]"

text \<open>\<^verbatim>\<open>/^(\d{4}-\d{2}-\d{2}\s+\d{2}:\d{2}:\d{2}(?:\.\d{3})?)\s+([A-Z]+)\s+(.*)$/\<close>\<close>

definition re_standard :: re where
  "re_standard = seqs
     [Grp 1 (seqs [re_ymd, Plus is_ws, re_hms, re_millis]),
      Plus is_ws, Grp 2 (Plus is_upper), Plus is_ws, Grp 3 (Star is_dot), Eol]"

text \<open>\<^verbatim>\<open>/^([A-Z][a-z]{2}\s+\d{1,2}\s+\d{2}:\d{2}:\d{2})\s+(\w+)\s+([^:]+):\s*(.*)$/\<close>\<close>

definition re_syslog :: re where
  "re_syslog = seqs
     [Grp 1 (seqs [Cls is_upper, times 2 is_lower, Plus is_ws,
                   Cls is_digit, Opt (Cls is_digit), Plus is_ws, re_hms]),
      Plus is_ws, Grp 2 (Plus is_word), Plus is_ws, Grp 3 (Plus (not_ch (cu CHR '':''))),
      ch (cu CHR '':''), Star is_ws, Grp 4 (Star is_dot), Eol]"

text \<open>
  \<^verbatim>\<open>/^(\S+)\s+\S+\s+\S+\s+\[([^\]]+)\]\s+"([^"]*)"?\s+(\d+)\s+(\S+)(?:\s+"([^"]*)")?(?:\s+"([^"]*)")?/\<close>
\<close>

definition re_apache :: re where
  "re_apache = seqs
     [Grp 1 (Plus not_ws), Plus is_ws, Plus not_ws, Plus is_ws, Plus not_ws, Plus is_ws,
      ch (cu CHR ''[''), Grp 2 (Plus (not_ch (cu CHR '']''))), ch (cu CHR '']''), Plus is_ws,
      ch 0x22, Grp 3 (Star (not_ch 0x22)), Opt (ch 0x22), Plus is_ws,
      Grp 4 (Plus is_digit), Plus is_ws, Grp 5 (Plus not_ws),
      Opt (seqs [Plus is_ws, ch 0x22, Grp 6 (Star (not_ch 0x22)), ch 0x22]),
      Opt (seqs [Plus is_ws, ch 0x22, Grp 7 (Star (not_ch 0x22)), ch 0x22])]"

text \<open>\<^verbatim>\<open>/^(\{.*\})$/\<close>\<close>

definition re_json :: re where
  "re_json = seqs [Grp 1 (seqs [ch (cu CHR ''{''), Star is_dot, ch (cu CHR ''}'')]), Eol]"

text \<open>\<^verbatim>\<open>/^\[(\d{2}:\d{2}:\d{2}(?:\.\d{3})?)\]\s*(.*)$/\<close>\<close>

definition re_simple :: re where
  "re_simple = seqs
     [ch (cu CHR ''[''), Grp 1 (seqs [re_hms, re_millis]), ch (cu CHR '']''), Star is_ws,
      Grp 2 (Star is_dot), Eol]"

definition LOG_PATTERNS :: "pattern list" where
  "LOG_PATTERNS =
     [\<lparr>name = js ''ISO with level'', regex = re_iso, g_timestamp = Some 1, g_level = Some 2,
        g_message = Some 3, g_source = None, g_thread = None\<rparr>,
      \<lparr>name = js ''Standard format'', regex = re_standard, g_timestamp = Some 1,
        g_level = Some 2, g_message = Some 3, g_source = None, g_thread = None\<rparr>,
      \<lparr>name = js ''Syslog format'', regex = re_syslog, g_timestamp = Some 1, g_level = None,
        g_message = Some 4, g_source = Some 2, g_thread = Some 3\<rparr>,
      \<lparr>name = js ''Apache access'', regex = re_apache, g_timestamp = Some 2, g_level = Some 4,
        g_message = Some 3, g_source = Some 1, g_thread = None\<rparr>,
      \<lparr>name = js ''JSON format'', regex = re_json, g_timestamp = None, g_level = None,
        g_message = Some 1, g_source = None, g_thread = None\<rparr>,
      \<lparr>name = js ''Simple timestamp'', regex = re_simple, g_timestamp = Some 1, g_level = None,
        g_message = Some 2, g_source = None, g_thread = None\<rparr>]"


section \<open>\<^verbatim>\<open>parseTimestamp\<close>\<close>

text \<open>
  \<^verbatim>\<open>new Date(v)\<close>: a string is parsed, a number is a time value, a boolean or \<^verbatim>\<open>null\<close> is
  first made a number, an array or object is first made a primitive, which for parsed
  JSON is its string or a \<^verbatim>\<open>TypeError\<close>.
\<close>

fun new_Date :: "platform \<Rightarrow> jv \<Rightarrow> exn + int option" where
  "new_Date P (JStr s) = Inr (date_of_string P s)"
| "new_Date P (JNum n) = Inr (date_of_number P n)"
| "new_Date P (JBool b) = Inr (date_of_number P (if b then js ''1'' else js ''0''))"
| "new_Date P JNull = Inr (date_of_number P (js ''0''))"
| "new_Date P v = bindE (ToString P v) (\<lambda>s. Inr (date_of_string P s))"

text \<open>\<^verbatim>\<open>/(\d{2})\/([A-Z][a-z]{2})\/(\d{4}):/\<close> and its replacement by \<^verbatim>\<open>"$3-$2-$1 "\<close>.\<close>

definition re_apache_date :: re where
  "re_apache_date = seqs
     [Grp 1 (times 2 is_digit), ch (cu CHR ''/''), Grp 2 (Seq (Cls is_upper) (times 2 is_lower)),
      ch (cu CHR ''/''), Grp 3 (times 4 is_digit), ch (cu CHR '':'')]"

definition the_grp :: "caps \<Rightarrow> nat \<Rightarrow> jstring" where
  "the_grp c i = (case grp c i of Some t \<Rightarrow> t | None \<Rightarrow> [])"

definition apache_replace :: "jstring \<Rightarrow> jstring" where
  "apache_replace s =
     (case re_search re_apache_date [] s of
        None \<Rightarrow> s
      | Some (pre, c) \<Rightarrow>
          pre @ the_grp c 3 @ js ''-'' @ the_grp c 2 @ js ''-'' @ the_grp c 1 @ js '' ''
            @ drop (length pre + length (the_grp c 0)) s)"

text \<open>The five interpreters of \<^verbatim>\<open>formats\<close>, in the source's order.\<close>

definition fmt_direct :: "platform \<Rightarrow> jv \<Rightarrow> exn + int option" where
  "fmt_direct P ts = new_Date P ts"

definition fmt_syslog :: "platform \<Rightarrow> jv \<Rightarrow> exn + int option" where
  "fmt_syslog P ts =
     bindE (ToString P ts) (\<lambda>s. Inr (date_of_string P (current_year P @ js '' '' @ s)))"

fun fmt_apache :: "platform \<Rightarrow> jv \<Rightarrow> exn + int option" where
  "fmt_apache P (JStr s) = Inr (date_of_string P (apache_replace s))"
| "fmt_apache P v = Inl TypeError"

definition fmt_time_only :: "platform \<Rightarrow> jv \<Rightarrow> exn + int option" where
  "fmt_time_only P ts =
     bindE (ToString P ts) (\<lambda>s.
       if re_exec re_hms s \<noteq> None
       then bindE (ToString P ts) (\<lambda>t. Inr (date_of_string P (today P @ js ''T'' @ t)))
       else Inr None)"

definition formats :: "(platform \<Rightarrow> jv \<Rightarrow> exn + int option) list" where
  "formats = [fmt_direct, fmt_direct, fmt_syslog, fmt_apache, fmt_time_only]"

text \<open>The loop over \<^verbatim>\<open>formats\<close>: a format that throws or gives no valid date is skipped.\<close>

fun try_formats :: "platform \<Rightarrow> (platform \<Rightarrow> jv \<Rightarrow> exn + int option) list \<Rightarrow> jv \<Rightarrow> int option"
where
  "try_formats P [] ts = None"
| "try_formats P (f # fs) ts =
     (case f P ts of
        Inr (Some d) \<Rightarrow> Some d
      | _ \<Rightarrow> try_formats P fs ts)"

fun parseTimestamp :: "platform \<Rightarrow> jv option \<Rightarrow> int option" where
  "parseTimestamp P None = None"
| "parseTimestamp P (Some ts) =
     (if \<not> truthy P (Some ts) then None else try_formats P formats ts)"



section \<open>Records and the full-line JSON interpreter \<^verbatim>\<open>parseJsonLog\<close>\<close>

text \<open>
  \<^verbatim>\<open>LogEntry\<close> and \<^verbatim>\<open>ParsedLog\<close> of \<^verbatim>\<open>types/log\<close>. The level is declared as a union of six
  literals, but the source stores strings it has only cast to that type, so the model
  keeps a string. A timestamp is the time value of a valid \<^verbatim>\<open>Date\<close>.
\<close>

record LogEntry =
  entry_id :: jstring
  timestamp :: "int option"
  level :: "jstring option"
  message :: jstring
  rawLine :: jstring
  lineNumber :: nat
  source :: "jstring option"
  thread :: "jstring option"
  metadata :: "jv option"

record ParsedLog =
  entries :: "LogEntry list"
  totalLines :: nat
  filename :: jstring
  detectedFormat :: jstring

fun show_nat :: "nat \<Rightarrow> jstring" where
  "show_nat n =
     (if n < 10 then [js ''0123456789'' ! n]
      else show_nat (n div 10) @ [js ''0123456789'' ! (n mod 10)])"

declare show_nat.simps [simp del]

definition line_id :: "nat \<Rightarrow> jstring" where
  "line_id n = js ''line-'' @ show_nat n"

definition bullet_sep :: jstring where
  "bullet_sep = [0x20, 0x2022, 0x20]"

definition dash_sep :: jstring where
  "dash_sep = [0x20, 0x2014, 0x20]"

text \<open>\<^verbatim>\<open>String(v)\<close> where \<open>v\<close> may be \<^verbatim>\<open>undefined\<close>.\<close>

fun String_js :: "platform \<Rightarrow> jv option \<Rightarrow> exn + jstring" where
  "String_js P None = Inr (js ''undefined'')"
| "String_js P (Some v) = ToString P v"

text \<open>\<^verbatim>\<open>pick\<close>: the first value among the keys that is neither \<^verbatim>\<open>undefined\<close> nor \<^verbatim>\<open>null\<close>.\<close>

fun pick :: "jv \<Rightarrow> jstring list \<Rightarrow> exn + jv option" where
  "pick obj [] = Inr None"
| "pick obj (k # ks) =
     bindE (getp obj k) (\<lambda>v. if v \<noteq> None \<and> v \<noteq> Some JNull then Inr v else pick obj ks)"

text \<open>\<^verbatim>\<open>if (v) parts.push(String(v))\<close>\<close>

definition push_if :: "platform \<Rightarrow> jv option \<Rightarrow> jstring list \<Rightarrow> exn + jstring list" where
  "push_if P v parts =
     (if truthy P v then bindE (String_js P v) (\<lambda>s. Inr (parts @ [s])) else Inr parts)"

text \<open>
  \<^verbatim>\<open>type && (!msg || String(type).toLowerCase() !== String(msg).toLowerCase())\<close>
\<close>

definition type_shown :: "platform \<Rightarrow> jv option \<Rightarrow> jv option \<Rightarrow> exn + bool" where
  "type_shown P typeV msg =
     (if \<not> truthy P typeV then Inr False
      else if \<not> truthy P msg then Inr True
      else bindE (String_js P typeV) (\<lambda>a.
           bindE (String_js P msg) (\<lambda>b. Inr (toLowerCase a \<noteq> toLowerCase b))))"

definition buildSummary :: "platform \<Rightarrow> jv \<Rightarrow> exn + jstring" where
  "buildSummary P obj =
     bindE (pick obj [js ''module'', js ''service'', js ''source'', js ''logger'']) (\<lambda>moduleName.
     bindE (pick obj [js ''feature'', js ''action'', js ''event'', js ''endpoint'']) (\<lambda>feature.
     bindE (pick obj [js ''type'', js ''category'']) (\<lambda>typeV.
     bindE (pick obj [js ''status'', js ''statusCode'', js ''code'']) (\<lambda>status.
     bindE (pick obj [js ''message'', js ''msg'', js ''text'']) (\<lambda>msg.
     bindE (push_if P moduleName []) (\<lambda>p1.
     bindE (push_if P feature p1) (\<lambda>p2.
     bindE (type_shown P typeV msg) (\<lambda>shown.
     bindE (if shown then bindE (String_js P typeV) (\<lambda>t. Inr (p2 @ [t])) else Inr p2) (\<lambda>p3.
     bindE (push_if P status p3) (\<lambda>parts.
       let head = join bullet_sep (filter (\<lambda>t. t \<noteq> []) parts) in
       if truthy P msg \<and> head \<noteq> [] then
         bindE (String_js P msg) (\<lambda>m. Inr (head @ dash_sep @ m))
       else if head \<noteq> [] then Inr head
       else if truthy P msg then String_js P msg
       else Inr (js ''Log entry'')))))))))))"

text \<open>\<^verbatim>\<open>json.a || json.b || ...\<close>\<close>

fun or_chain :: "platform \<Rightarrow> jv \<Rightarrow> jstring list \<Rightarrow> exn + jv option" where
  "or_chain P json [] = Inr None"
| "or_chain P json [k] = getp json k"
| "or_chain P json (k # ks) =
     bindE (getp json k) (\<lambda>v. if truthy P v then Inr v else or_chain P json ks)"

text \<open>
  \<^verbatim>\<open>json.level?.toUpperCase()\<close>: \<^verbatim>\<open>undefined\<close> for a missing or \<^verbatim>\<open>null\<close> level, the
  upper-cased text of a string, and a \<^verbatim>\<open>TypeError\<close> for any other value, which has no
  such method.
\<close>

fun level_upper :: "jv option \<Rightarrow> exn + jstring option" where
  "level_upper None = Inr None"
| "level_upper (Some JNull) = Inr None"
| "level_upper (Some (JStr s)) = Inr (Some (toUpperCase s))"
| "level_upper (Some v) = Inl TypeError"

text \<open>The body of the \<^verbatim>\<open>try\<close> block of \<^verbatim>\<open>parseJsonLog\<close>, after \<^verbatim>\<open>JSON.parse\<close>.\<close>

definition jsonEntry :: "platform \<Rightarrow> jv \<Rightarrow> jstring \<Rightarrow> nat \<Rightarrow> exn + LogEntry" where
  "jsonEntry P json line n =
     bindE (or_chain P json [js ''timestamp'', js ''@timestamp'', js ''time'', js ''ts'']) (\<lambda>ts.
     bindE (buildSummary P json) (\<lambda>summaryMessage.
     bindE (bindE (getp json (js ''level'')) level_upper) (\<lambda>lvl.
     bindE (or_chain P json [js ''source'', js ''logger'', js ''module'', js ''service'']) (\<lambda>src.
     bindE (or_chain P json [js ''thread'', js ''process'', js ''correlationId'']) (\<lambda>thr.
       Inr \<lparr>entry_id = line_id n,
            timestamp = (if truthy P ts then parseTimestamp P ts else None),
            level = lvl,
            message = (if summaryMessage \<noteq> [] then summaryMessage else js ''Log entry''),
            rawLine = line,
            lineNumber = n,
            source = str_of src,
            thread = str_of thr,
            metadata = Some json\<rparr>)))))"

text \<open>\<^verbatim>\<open>parseJsonLog\<close>: \<open>None\<close> is the \<^verbatim>\<open>null\<close> of its \<^verbatim>\<open>catch\<close>.\<close>

definition parseJsonLog :: "platform \<Rightarrow> jstring \<Rightarrow> nat \<Rightarrow> LogEntry option" where
  "parseJsonLog P line n =
     (case JSON_parse line of
        None \<Rightarrow> None
      | Some json \<Rightarrow>
          (case jsonEntry P json line n of Inl e \<Rightarrow> None | Inr entry \<Rightarrow> Some entry))"


section \<open>\<^verbatim>\<open>detectLogLevel\<close>, \<^verbatim>\<open>extractFirstJsonObject\<close>, \<^verbatim>\<open>coerceLevel\<close>\<close>

definition levels :: "jstring list" where
  "levels = [js ''FATAL'', js ''ERROR'', js ''WARN'', js ''INFO'', js ''DEBUG'', js ''TRACE'']"

definition detectLogLevel :: "jstring \<Rightarrow> jstring option" where
  "detectLogLevel text = find (\<lambda>l. l \<noteq> [] \<and> includes_str (toUpperCase text) l) levels"

text \<open>
  The scan of \<^verbatim>\<open>extractFirstJsonObject\<close> from position \<open>i\<close>: the position of the brace
  that brings the depth back to zero.
\<close>

fun scanBraces :: "jstring \<Rightarrow> nat \<Rightarrow> bool \<Rightarrow> bool \<Rightarrow> int \<Rightarrow> nat option" where
  "scanBraces [] i inString escape depth = None"
| "scanBraces (c # cs) i inString escape depth =
     (if inString then
        (if escape then scanBraces cs (i + 1) True False depth
         else if c = 0x5C then scanBraces cs (i + 1) True True depth
         else if c = 0x22 then scanBraces cs (i + 1) False False depth
         else scanBraces cs (i + 1) True False depth)
      else if c = 0x22 then scanBraces cs (i + 1) True escape depth
      else
        (let d = (if c = cu CHR ''{'' then depth + 1 else depth) in
         if c = cu CHR ''}'' then
           (if d - 1 = 0 then Some i else scanBraces cs (i + 1) False escape (d - 1))
         else scanBraces cs (i + 1) False escape d))"

definition extractFirstJsonObject :: "jstring \<Rightarrow> (jv \<times> nat \<times> nat) option" where
  "extractFirstJsonObject text =
     (if text = [] then None
      else
        (case indexOf text (cu CHR ''{'') of
           None \<Rightarrow> None
         | Some startIdx \<Rightarrow>
             (case scanBraces (drop startIdx text) startIdx False False 0 of
                None \<Rightarrow> None
              | Some i \<Rightarrow>
                  (case JSON_parse (slice text startIdx (i + 1)) of
                     None \<Rightarrow> None
                   | Some json \<Rightarrow> Some (json, startIdx, i)))))"

definition coerceLevel :: "platform \<Rightarrow> jv option \<Rightarrow> exn + jstring option" where
  "coerceLevel P val =
     (if \<not> truthy P val then Inr None
      else bindE (String_js P val) (\<lambda>t.
             let s = toUpperCase t in Inr (if s \<in> set levels then Some s else None)))"



section \<open>The embedded-JSON extractor\<close>

text \<open>
  The block of \<^verbatim>\<open>parseLogFile\<close> under \<^verbatim>\<open>if (entry && !entry.metadata)\<close>. It is not inside
  a \<^verbatim>\<open>try\<close>: an exception of \<^verbatim>\<open>String\<close> leaves \<^verbatim>\<open>parseLogFile\<close>.
\<close>

text \<open>\<^verbatim>\<open>!entry.level\<close> and its like: the field is \<^verbatim>\<open>undefined\<close> or the empty string.\<close>

definition absent :: "jstring option \<Rightarrow> bool" where
  "absent v = (v = None \<or> v = Some [])"

definition backfillTimestamp :: "platform \<Rightarrow> jv \<Rightarrow> LogEntry \<Rightarrow> exn + LogEntry" where
  "backfillTimestamp P json entry =
     (if timestamp entry = None then
        bindE (pick json [js ''timestamp'', js ''@timestamp'', js ''time'', js ''ts'']) (\<lambda>ts.
          if is_JStr ts \<or> is_JNum ts then
            bindE (String_js P ts) (\<lambda>t.
              Inr (entry\<lparr>timestamp := parseTimestamp P (Some (JStr t))\<rparr>))
          else Inr entry)
      else Inr entry)"

definition backfillLevel :: "platform \<Rightarrow> jv \<Rightarrow> LogEntry \<Rightarrow> exn + LogEntry" where
  "backfillLevel P json entry =
     (if absent (level entry) then
        bindE (pick json [js ''level'', js ''severity'', js ''lvl'']) (\<lambda>v.
        bindE (coerceLevel P v) (\<lambda>lvl.
          Inr (if \<not> absent lvl then entry\<lparr>level := lvl\<rparr> else entry)))
      else Inr entry)"

definition backfillSource :: "jv \<Rightarrow> LogEntry \<Rightarrow> exn + LogEntry" where
  "backfillSource json entry =
     (if absent (source entry) then
        bindE (pick json [js ''source'', js ''logger'', js ''module'', js ''service'']) (\<lambda>src.
          Inr (if is_JStr src then entry\<lparr>source := str_of src\<rparr> else entry))
      else Inr entry)"

definition backfillThread :: "jv \<Rightarrow> LogEntry \<Rightarrow> exn + LogEntry" where
  "backfillThread json entry =
     (if absent (thread entry) then
        bindE (pick json [js ''thread'', js ''process'', js ''correlationId'']) (\<lambda>thr.
          Inr (if is_JStr thr then entry\<lparr>thread := str_of thr\<rparr> else entry))
      else Inr entry)"

definition backfill :: "platform \<Rightarrow> jv \<Rightarrow> LogEntry \<Rightarrow> exn + LogEntry" where
  "backfill P json entry =
     bindE (backfillTimestamp P json entry) (\<lambda>e1.
     bindE (backfillLevel P json e1) (\<lambda>e2.
     bindE (backfillSource json e2) (\<lambda>e3.
       backfillThread json e3)))"

text \<open>
  \<^verbatim>\<open>type && (!summary || String(type).toLowerCase() !== String(summary).toLowerCase())\<close>
\<close>

definition type_shown_s :: "platform \<Rightarrow> jv option \<Rightarrow> jstring option \<Rightarrow> exn + bool" where
  "type_shown_s P typeV summary =
     (if \<not> truthy P typeV then Inr False
      else (case summary of
              None \<Rightarrow> Inr True
            | Some sm \<Rightarrow>
                if sm = [] then Inr True
                else bindE (String_js P typeV) (\<lambda>a. Inr (toLowerCase a \<noteq> toLowerCase sm))))"

text \<open>The function expression \<^verbatim>\<open>derived\<close>; \<open>None\<close> is \<^verbatim>\<open>undefined\<close>.\<close>

definition derived :: "platform \<Rightarrow> jv \<Rightarrow> exn + jstring option" where
  "derived P json =
     bindE (pick json [js ''message'', js ''msg'', js ''text'']) (\<lambda>messageVal.
     bindE (if truthy P messageVal
            then bindE (String_js P messageVal) (\<lambda>t. Inr (Some t)) else Inr None) (\<lambda>summary.
     bindE (pick json [js ''module'', js ''service'', js ''source'', js ''logger'']) (\<lambda>moduleName.
     bindE (pick json [js ''feature'', js ''action'', js ''event'', js ''endpoint'']) (\<lambda>feature.
     bindE (pick json [js ''type'', js ''category'']) (\<lambda>typeV.
     bindE (pick json [js ''status'', js ''statusCode'', js ''code'']) (\<lambda>status.
     bindE (push_if P moduleName []) (\<lambda>p1.
     bindE (push_if P feature p1) (\<lambda>p2.
     bindE (type_shown_s P typeV summary) (\<lambda>shown.
     bindE (if shown then bindE (String_js P typeV) (\<lambda>t. Inr (p2 @ [t])) else Inr p2) (\<lambda>p3.
     bindE (push_if P status p3) (\<lambda>headParts.
       let head = join bullet_sep (filter (\<lambda>t. t \<noteq> []) headParts) in
       Inr (case summary of
              None \<Rightarrow> (if head \<noteq> [] then Some head else None)
            | Some sm \<Rightarrow>
                if sm \<noteq> [] \<and> head \<noteq> [] then Some (head @ dash_sep @ sm)
                else if head \<noteq> [] then Some head
                else Some sm))))))))))))"

text \<open>The new message: \<^verbatim>\<open>derived\<close>, else the text before or after the object.\<close>

definition newMessage :: "jstring option \<Rightarrow> jstring \<Rightarrow> nat \<Rightarrow> nat \<Rightarrow> jstring" where
  "newMessage d msg startIdx endIdx =
     (case d of
        Some t \<Rightarrow>
          if t \<noteq> [] then t
          else
            (let beforeT = trim (slice msg 0 startIdx); afterT = trim (drop (endIdx + 1) msg)
             in if beforeT \<noteq> [] then beforeT else if afterT \<noteq> [] then afterT else js ''Log entry'')
      | None \<Rightarrow>
          (let beforeT = trim (slice msg 0 startIdx); afterT = trim (drop (endIdx + 1) msg)
           in if beforeT \<noteq> [] then beforeT else if afterT \<noteq> [] then afterT else js ''Log entry''))"

definition enrich :: "platform \<Rightarrow> LogEntry \<Rightarrow> exn + LogEntry" where
  "enrich P entry =
     (if truthy P (metadata entry) then Inr entry
      else
        (case extractFirstJsonObject (message entry) of
           None \<Rightarrow> Inr entry
         | Some (json, startIdx, endIdx) \<Rightarrow>
             bindE (backfill P json (entry\<lparr>metadata := Some json\<rparr>)) (\<lambda>e1.
             bindE (derived P json) (\<lambda>d.
               Inr (e1\<lparr>message := newMessage d (message e1) startIdx endIdx\<rparr>)))))"


section \<open>The parse driver \<^verbatim>\<open>parseLogFile\<close>\<close>

text \<open>The entry built from a match of a registry pattern.\<close>

definition patternEntry :: "platform \<Rightarrow> pattern \<Rightarrow> caps \<Rightarrow> jstring \<Rightarrow> nat \<Rightarrow> LogEntry" where
  "patternEntry P p c line n =
     \<lparr>entry_id = line_id n,
      timestamp = (case g_timestamp p of
                     None \<Rightarrow> None
                   | Some g \<Rightarrow> parseTimestamp P (map_option JStr (grp c g))),
      level = (case g_level p of
                 None \<Rightarrow> detectLogLevel line
               | Some g \<Rightarrow> map_option toUpperCase (grp c g)),
      message = (case g_message p of None \<Rightarrow> line | Some g \<Rightarrow> the_grp c g),
      rawLine = line,
      lineNumber = n,
      source = (case g_source p of None \<Rightarrow> None | Some g \<Rightarrow> grp c g),
      thread = (case g_thread p of None \<Rightarrow> None | Some g \<Rightarrow> grp c g),
      metadata = None\<rparr>"

text \<open>The loop over the registry: the first pattern that matches, with its name.\<close>

fun matchPatterns :: "platform \<Rightarrow> pattern list \<Rightarrow> jstring \<Rightarrow> nat \<Rightarrow> (LogEntry \<times> jstring) option"
where
  "matchPatterns P [] line n = None"
| "matchPatterns P (p # ps) line n =
     (case re_exec (regex p) line of
        Some c \<Rightarrow> Some (patternEntry P p c line n, name p)
      | None \<Rightarrow> matchPatterns P ps line n)"

definition plainEntry :: "jstring \<Rightarrow> nat \<Rightarrow> LogEntry" where
  "plainEntry line n =
     \<lparr>entry_id = line_id n, timestamp = None, level = detectLogLevel line, message = line,
      rawLine = line, lineNumber = n, source = None, thread = None, metadata = None\<rparr>"

text \<open>
  The classification of one non-blank trimmed line: the full-line JSON interpreter if
  the line starts with a brace, then the registry, then plain text; with the entry, the
  value \<^verbatim>\<open>detectedFormat\<close> is set to.
\<close>

definition classify :: "platform \<Rightarrow> jstring \<Rightarrow> nat \<Rightarrow> LogEntry \<times> jstring" where
  "classify P line n =
     (case (if startsWith line (js ''{'') then parseJsonLog P line n else None) of
        Some entry \<Rightarrow> (entry, js ''JSON format'')
      | None \<Rightarrow>
          (case matchPatterns P LOG_PATTERNS line n of
             Some r \<Rightarrow> r
           | None \<Rightarrow> (plainEntry line n, js ''Plain text'')))"

text \<open>
  The \<^verbatim>\<open>for\<close> loop over \<^verbatim>\<open>lines\<close> from index \<open>i\<close>, with the entries pushed so far and the
  running \<^verbatim>\<open>detectedFormat\<close>.
\<close>

fun processLines :: "platform \<Rightarrow> jstring list \<Rightarrow> nat \<Rightarrow> LogEntry list \<Rightarrow> jstring
                       \<Rightarrow> exn + (LogEntry list \<times> jstring)" where
  "processLines P [] i es fmt = Inr (es, fmt)"
| "processLines P (l # ls) i es fmt =
     (let line = trim l in
      if line = [] then processLines P ls (i + 1) es fmt
      else
        (case classify P line (i + 1) of
           (entry, fmt') \<Rightarrow>
             (case enrich P entry of
                Inl e \<Rightarrow> Inl e
              | Inr entry' \<Rightarrow> processLines P ls (i + 1) (es @ [entry']) fmt')))"

definition parseLogFile :: "platform \<Rightarrow> jstring \<Rightarrow> jstring \<Rightarrow> exn + ParsedLog" where
  "parseLogFile P content fname =
     (case processLines P (split_nl content) 0 [] (js ''Unknown'') of
        Inl e \<Rightarrow> Inl e
      | Inr (es, fmt) \<Rightarrow>
          Inr \<lparr>entries = es, totalLines = length (split_nl content), filename = fname,
               detectedFormat = fmt\<rparr>)"



text \<open>
  For the statements below: the lines of a file that are not blank, trimmed and with
  their 1-based position (counted from \<open>i\<close>), and the record the loop body makes of
  one of them.
\<close>

fun numbered :: "nat \<Rightarrow> jstring list \<Rightarrow> (nat \<times> jstring) list" where
  "numbered i [] = []"
| "numbered i (l # ls) =
     (if trim l = [] then numbered (i + 1) ls else (i + 1, trim l) # numbered (i + 1) ls)"

definition lineEntry :: "platform \<Rightarrow> nat \<times> jstring \<Rightarrow> exn + LogEntry" where
  "lineEntry P nl = enrich P (fst (classify P (snd nl) (fst nl)))"

text \<open>A record moved to another line number.\<close>

definition renumber :: "nat \<Rightarrow> LogEntry \<Rightarrow> LogEntry" where
  "renumber m e = e\<lparr>entry_id := line_id m, lineNumber := m\<rparr>"

section \<open>Notions about the matcher\<close>

text \<open>
  For the statements about captured groups: an expression that \<open>consumes\<close> takes at
  least one character in every match; \<open>groups_ok G r\<close> says that the groups of \<open>r\<close>
  numbered in \<open>G\<close> have such a body, and \<open>stack_ok\<close> carries that through the matcher's
  stack (the flag says that a character will have been taken before the next item);
  \<open>closes r\<close> are the groups that take part in every match of \<open>r\<close>. The
  \<open>field_groups\<close> of a pattern are the groups it maps to level, source and thread.
\<close>

fun consumes :: "re \<Rightarrow> bool" where
  "consumes Eps = False"
| "consumes (Cls p) = True"
| "consumes (Seq a b) = (consumes a \<or> consumes b)"
| "consumes (Opt a) = False"
| "consumes (Star p) = False"
| "consumes (Grp i a) = consumes a"
| "consumes Eol = False"

fun groups_ok :: "nat set \<Rightarrow> re \<Rightarrow> bool" where
  "groups_ok G Eps = True"
| "groups_ok G (Cls p) = True"
| "groups_ok G (Seq a b) = (groups_ok G a \<and> groups_ok G b)"
| "groups_ok G (Opt a) = groups_ok G a"
| "groups_ok G (Star p) = True"
| "groups_ok G (Grp i a) = (groups_ok G a \<and> (i \<in> G \<longrightarrow> consumes a))"
| "groups_ok G Eol = True"

fun stack_ok :: "nat set \<Rightarrow> item list \<Rightarrow> jstring \<Rightarrow> bool \<Rightarrow> bool" where
  "stack_ok G [] s b = True"
| "stack_ok G (R r # k) s b = (groups_ok G r \<and> stack_ok G k s (b \<or> consumes r))"
| "stack_ok G (Close i s0 # k) s b =
     (length s \<le> length s0 \<and> (i \<in> G \<longrightarrow> b \<or> length s < length s0) \<and> stack_ok G k s b)"

definition caps_ok :: "nat set \<Rightarrow> caps \<Rightarrow> bool" where
  "caps_ok G c = (\<forall>i \<in> G. grp c i \<noteq> Some [])"

fun closes :: "re \<Rightarrow> nat set" where
  "closes (Grp i a) = insert i (closes a)"
| "closes (Seq a b) = closes a \<union> closes b"
| "closes r = {}"

fun closes_item :: "item \<Rightarrow> nat set" where
  "closes_item (R r) = closes r"
| "closes_item (Close i s0) = {i}"

definition field_groups :: "pattern \<Rightarrow> nat set" where
  "field_groups p = set_option (g_level p) \<union> set_option (g_source p) \<union> set_option (g_thread p)"

text \<open>
  The lines the pattern \<^verbatim>\<open>/^(\{.*\})$/\<close> matches (\<open>re_json_exec\<close> below): an opening
  brace, any code units but line terminators, a closing brace.
\<close>

definition brace_block :: "jstring \<Rightarrow> bool" where
  "brace_block line =
     (case line of
        [] \<Rightarrow> False
      | c # r \<Rightarrow> c = cu CHR ''{'' \<and> r \<noteq> [] \<and> last r = cu CHR ''}'' \<and> list_all is_dot (butlast r))"

text \<open>Stack items and captures whose text is made of code units of a given set.\<close>

fun item_within :: "codeunit set \<Rightarrow> item \<Rightarrow> bool" where
  "item_within A (R r) = True"
| "item_within A (Close i s0) = (set s0 \<subseteq> A)"

definition caps_within :: "codeunit set \<Rightarrow> caps \<Rightarrow> bool" where
  "caps_within A c = list_all (\<lambda>p. set (snd p) \<subseteq> A) c"

section \<open>A platform to evaluate on\<close>

text \<open>
  The theorems below hold for every platform. Where a concrete run is evaluated, it is
  on this one, which follows the engine on the texts the runs give it. A number prints
  as it is written (exact for an integer in plain notation of at most 15 digits) and is
  truthy when a digit of its mantissa is not zero. \<^verbatim>\<open>new Date\<close> takes such an integer as a
  time value, and reads two forms of text, in the zone UTC: the date-time format
  \<^verbatim>\<open>YYYY-MM-DDTHH:mm:ss[.sss][Z]\<close> of the language standard, and \<^verbatim>\<open>YYYY HH:mm:ss\<close>, which
  the engine's fallback parser takes as that time on the first of January of the year
  (it is what the third format of \<^verbatim>\<open>parseTimestamp\<close> makes of a bare time); any other text
  is an invalid date here. The clock stands at 2026-11-03.
\<close>

definition dec_val :: "jstring \<Rightarrow> int" where
  "dec_val s = foldl (\<lambda>a c. 10 * a + (uint c - 48)) 0 s"

definition re_iso_date :: re where
  "re_iso_date = seqs
     [Grp 1 (times 4 is_digit), ch (cu CHR ''-''), Grp 2 (times 2 is_digit), ch (cu CHR ''-''),
      Grp 3 (times 2 is_digit), ch (cu CHR ''T''), Grp 4 (times 2 is_digit), ch (cu CHR '':''),
      Grp 5 (times 2 is_digit), ch (cu CHR '':''), Grp 6 (times 2 is_digit),
      Opt (Seq (ch (cu CHR ''.'')) (Grp 7 (times 3 is_digit))), Opt (ch (cu CHR ''Z'')), Eol]"

definition re_year_time :: re where
  "re_year_time = seqs
     [Grp 1 (times 4 is_digit), ch (cu CHR '' ''), Grp 4 (times 2 is_digit), ch (cu CHR '':''),
      Grp 5 (times 2 is_digit), ch (cu CHR '':''), Grp 6 (times 2 is_digit), Eol]"

definition leap_year :: "int \<Rightarrow> bool" where
  "leap_year y = (y mod 4 = 0 \<and> (y mod 100 \<noteq> 0 \<or> y mod 400 = 0))"

definition days_in_month :: "int \<Rightarrow> int \<Rightarrow> int" where
  "days_in_month y m =
     (if m = 2 then (if leap_year y then 29 else 28)
      else if m \<in> set [4, 6, 9, 11] then 30 else 31)"

text \<open>The days from 1970-01-01 to a date of the Gregorian calendar.\<close>

definition days_from_civil :: "int \<Rightarrow> int \<Rightarrow> int \<Rightarrow> int" where
  "days_from_civil y m d =
     (let y' = (if m \<le> 2 then y - 1 else y);
          era = y' div 400;
          yoe = y' - era * 400;
          doy = (153 * (if m > 2 then m - 3 else m + 9) + 2) div 5 + d - 1;
          doe = yoe * 365 + yoe div 4 - yoe div 100 + doy
      in era * 146097 + doe - 719468)"

text \<open>The time value of a date and time whose parts are the groups of a match.\<close>

definition instant_of :: "int \<Rightarrow> int \<Rightarrow> int \<Rightarrow> caps \<Rightarrow> int option" where
  "instant_of y m d c =
     (let h = dec_val (the_grp c 4); mi = dec_val (the_grp c 5);
          sec = dec_val (the_grp c 6); ms = dec_val (the_grp c 7)
      in if 1 \<le> m \<and> m \<le> 12 \<and> 1 \<le> d \<and> d \<le> days_in_month y m
            \<and> h \<le> 23 \<and> mi \<le> 59 \<and> sec \<le> 59
         then Some ((((days_from_civil y m d * 24 + h) * 60 + mi) * 60 + sec) * 1000 + ms)
         else None)"

definition iso_instant :: "jstring \<Rightarrow> int option" where
  "iso_instant s =
     (case re_exec re_iso_date s of
        None \<Rightarrow> None
      | Some c \<Rightarrow>
          instant_of (dec_val (the_grp c 1)) (dec_val (the_grp c 2)) (dec_val (the_grp c 3)) c)"

definition year_time_instant :: "jstring \<Rightarrow> int option" where
  "year_time_instant s =
     (case re_exec re_year_time s of
        None \<Rightarrow> None
      | Some c \<Rightarrow> instant_of (dec_val (the_grp c 1)) 1 1 c)"

definition plain_integer :: "jstring \<Rightarrow> bool" where
  "plain_integer n =
     (case n of
        [] \<Rightarrow> False
      | c # r \<Rightarrow>
          if c = cu CHR ''-'' then r \<noteq> [] \<and> list_all is_digit r \<and> length r \<le> 15
          else list_all is_digit n \<and> length n \<le> 15)"

definition int_of_plain :: "jstring \<Rightarrow> int" where
  "int_of_plain n =
     (case n of
        [] \<Rightarrow> 0
      | c # r \<Rightarrow> if c = cu CHR ''-'' then - dec_val r else dec_val n)"

definition ref_platform :: platform where
  "ref_platform =
     \<lparr>num_to_string = (\<lambda>n. if plain_integer n \<and> int_of_plain n = 0 then js ''0'' else n),
      num_truthy = (\<lambda>n. list_ex (\<lambda>c. c \<in> set (js ''123456789''))
                           (takeWhile (\<lambda>c. c \<noteq> cu CHR ''e'' \<and> c \<noteq> cu CHR ''E'') n)),
      date_of_string = (\<lambda>s. case iso_instant s of
                               Some t \<Rightarrow> Some t
                             | None \<Rightarrow> year_time_instant s),
      date_of_number = (\<lambda>n. if plain_integer n then Some (int_of_plain n) else None),
      current_year = js ''2026'',
      today = js ''2026-11-03''\<rparr>"



section \<open>The bound of the JSON parser\<close>

lemma startsWith_take: "startsWith s t = (take (length t) s = t)"
  by (induction s t rule: startsWith.induct) auto

lemma json_chars_length: "json_chars s = Some (t, q) \<Longrightarrow> length q < length s"
proof (induction s arbitrary: t q rule: length_induct)
  case (1 s)
  show ?case
  proof (cases s)
    case Nil
    with "1.prems" show ?thesis by simp
  next
    case (Cons c cs)
    have ih: "json_chars ys = Some (t', q') \<Longrightarrow> length ys \<le> length cs \<Longrightarrow> length q' < length ys"
      for ys t' q'
      using "1.IH" Cons by fastforce
    from "1.prems" Cons show ?thesis
      by (auto split: if_splits list.splits option.splits dest!: ih)
  qed
qed

lemma skip_ws_length: "length (skip_ws s) \<le> length s"
  by (simp add: skip_ws_def length_dropWhile_le)

lemma digits1_length: "digits1 s = Some (t, q) \<Longrightarrow> length q \<le> length s"
  by (auto simp: digits1_def length_dropWhile_le split: if_splits)

lemma json_int_length: "json_int s = Some (t, q) \<Longrightarrow> length q < length s"
  by (cases s) (auto simp: json_int_def length_dropWhile_le less_Suc_eq_le split: if_splits)

lemma json_frac_length: "json_frac s = Some (t, q) \<Longrightarrow> length q \<le> length s"
  by (cases s) (auto simp: json_frac_def split: if_splits dest!: digits1_length)

lemma json_exp_length: "json_exp s = Some (t, q) \<Longrightarrow> length q \<le> length s"
  by (cases s; cases "tl s")
     (auto simp: json_exp_def split: if_splits list.splits dest!: digits1_length)

lemma json_number_length:
  assumes "json_number s = Some (t, q)"
  shows "length q < length s"
proof -
  obtain sg s0 where p: "(case s of [] \<Rightarrow> ([], s)
                      | c # r \<Rightarrow> if c = cu CHR ''-'' then ([c], r) else ([], s)) = (sg, s0)"
    by (cases "(case s of [] \<Rightarrow> ([]::jstring, s)
                      | c # r \<Rightarrow> if c = cu CHR ''-'' then ([c], r) else ([], s))")
  then have l0: "length s0 \<le> length s" by (auto split: list.splits if_splits)
  from assms p obtain ip s1 fp s2 ep where
    "json_int s0 = Some (ip, s1)" "json_frac s1 = Some (fp, s2)" "json_exp s2 = Some (ep, q)"
    unfolding json_number_def by (auto split: option.splits)
  from json_int_length[OF this(1)] json_frac_length[OF this(2)] json_exp_length[OF this(3)] l0
  show ?thesis by simp
qed


lemma skip_ws_cons: "skip_ws s = c # r \<Longrightarrow> length r < length s"
  using skip_ws_length[of s] by simp

lemma json_lengths:
  "(\<forall>s v q. json_value n s = Some (v, q) \<longrightarrow> length q < length s)
   \<and> (\<forall>s acc vs q. json_elems n s acc = Some (vs, q) \<longrightarrow> length q < length s)
   \<and> (\<forall>s acc kvs q. json_members n s acc = Some (kvs, q) \<longrightarrow> length q < length s)"
proof (induction n)
  case 0
  show ?case by simp
next
  case (Suc n)
  have v: "json_value n s = Some (v, q) \<Longrightarrow> length q < length s" for s v q
    using Suc by blast
  have e: "json_elems n s acc = Some (vs, q) \<Longrightarrow> length q < length s" for s acc vs q
    using Suc by blast
  have m: "json_members n s acc = Some (kvs, q) \<Longrightarrow> length q < length s" for s acc kvs q
    using Suc by blast
  have V: "length q < length s" if a: "json_value (Suc n) s = Some (v, q)" for s v q
  proof (cases "skip_ws s")
    case Nil
    with a show ?thesis by simp
  next
    case (Cons c r)
    note l = skip_ws_cons[OF Cons]
    from a Cons l show ?thesis
      by (auto split: if_splits list.splits
            dest!: m e json_chars_length json_number_length skip_ws_cons)
  qed
  have E: "length q < length s" if a: "json_elems (Suc n) s acc = Some (vs, q)" for s acc vs q
    using a
    by (auto split: option.splits list.splits if_splits dest!: v e skip_ws_cons)
  have M: "length q < length s" if a: "json_members (Suc n) s acc = Some (kvs, q)"
    for s acc kvs q
    using a
    by (auto split: option.splits list.splits if_splits
          dest!: v m json_chars_length skip_ws_cons)
  from V E M show ?case by blast
qed


lemma json_fuel_step:
  "(\<forall>s. 2 * length s < n \<longrightarrow> json_value (Suc n) s = json_value n s)
   \<and> (\<forall>s acc. 2 * length s + 1 < n \<longrightarrow> json_elems (Suc n) s acc = json_elems n s acc)
   \<and> (\<forall>s acc. 2 * length s + 1 < n \<longrightarrow> json_members (Suc n) s acc = json_members n s acc)"
proof (induction n)
  case 0
  show ?case by simp
next
  case (Suc n)
  have v: "2 * length s < n \<Longrightarrow> json_value (Suc n) s = json_value n s" for s
    using Suc by blast
  have e: "2 * length s + 1 < n \<Longrightarrow> json_elems (Suc n) s acc = json_elems n s acc" for s acc
    using Suc by blast
  have m: "2 * length s + 1 < n \<Longrightarrow> json_members (Suc n) s acc = json_members n s acc"
    for s acc
    using Suc by blast
  note len = json_lengths[of n]
  have V: "json_value (Suc (Suc n)) s = json_value (Suc n) s" if a: "2 * length s < Suc n" for s
  proof (cases "skip_ws s")
    case Nil
    then show ?thesis by simp
  next
    case (Cons c r)
    from skip_ws_cons[OF Cons] a have h: "2 * length r + 1 < n" by simp
    show ?thesis
      unfolding json_value.simps(2)[of "Suc n" s] json_value.simps(2)[of n s] Cons list.case
        e[OF h] m[OF h] ..
  qed
  have E: "json_elems (Suc (Suc n)) s acc = json_elems (Suc n) s acc"
    if a: "2 * length s + 1 < Suc n" for s acc
  proof -
    from a have "2 * length s < n" by simp
    note v1 = v[OF this]
    show ?thesis
    proof (cases "json_value n s")
      case None
      show ?thesis
        unfolding json_elems.simps(2)[of "Suc n" s acc] json_elems.simps(2)[of n s acc] v1 None
        by simp
    next
      case (Some p)
      obtain x r where p: "p = (x, r)" by (cases p)
      from len Some p have lr: "length r < length s" by blast
      show ?thesis
      proof (cases "skip_ws r")
        case Nil
        show ?thesis
          unfolding json_elems.simps(2)[of "Suc n" s acc] json_elems.simps(2)[of n s acc] v1
            Some p option.case prod.case Nil
          by simp
      next
        case (Cons d r')
        from skip_ws_cons[OF Cons] lr a have h: "2 * length r' + 1 < n" by simp
        show ?thesis
          unfolding json_elems.simps(2)[of "Suc n" s acc] json_elems.simps(2)[of n s acc] v1
            Some p option.case prod.case Cons list.case e[OF h] ..
      qed
    qed
  qed
  have M: "json_members (Suc (Suc n)) s acc = json_members (Suc n) s acc"
    if a: "2 * length s + 1 < Suc n" for s acc
  proof (cases "skip_ws s")
    case Nil
    show ?thesis
      unfolding json_members.simps(2)[of "Suc n" s acc] json_members.simps(2)[of n s acc] Nil
      by simp
  next
    case (Cons q r)
    note l0 = skip_ws_cons[OF Cons]
    note u = json_members.simps(2)[of "Suc n" s acc] json_members.simps(2)[of n s acc]
    show ?thesis
    proof (cases "json_chars r")
      case None
      show ?thesis unfolding u Cons list.case None by simp
    next
      case (Some p)
      obtain k r1 where p: "p = (k, r1)" by (cases p)
      from json_chars_length Some p have l1: "length r1 < length r" by blast
      show ?thesis
      proof (cases "skip_ws r1")
        case Nil
        show ?thesis unfolding u Cons list.case Some p option.case prod.case Nil by simp
      next
        case C2: (Cons col r2)
        note l2 = skip_ws_cons[OF C2]
        from l0 l1 l2 a have "2 * length r2 < n" by simp
        note v2 = v[OF this]
        show ?thesis
        proof (cases "json_value n r2")
          case None
          show ?thesis
            unfolding u Cons list.case Some p option.case prod.case C2 v2 None by simp
        next
          case S3: (Some p3)
          obtain x r3 where p3: "p3 = (x, r3)" by (cases p3)
          from len S3 p3 have l3: "length r3 < length r2" by blast
          show ?thesis
          proof (cases "skip_ws r3")
            case Nil
            show ?thesis
              unfolding u Cons list.case Some p option.case prod.case C2 v2 S3 p3 Nil by simp
          next
            case C4: (Cons d r4)
            from skip_ws_cons[OF C4] l0 l1 l2 l3 a have h: "2 * length r4 + 1 < n" by simp
            show ?thesis
              unfolding u Cons list.case Some p option.case prod.case C2 v2 S3 p3 C4 m[OF h] ..
          qed
        qed
      qed
    qed
  qed
  from V E M show ?case by blast
qed

lemma json_value_fuel:
  "2 * length s < n \<Longrightarrow> json_value (n + k) s = json_value n s"
proof (induction k)
  case 0
  show ?case by simp
next
  case (Suc k)
  from Suc.prems have "2 * length s < n + k" by simp
  with json_fuel_step[of "n + k"] have "json_value (Suc (n + k)) s = json_value (n + k) s"
    by blast
  with Suc show ?case by simp
qed

text \<open>
  The bound of \<open>JSON_parse\<close> is enough: a larger one gives the same result, so \<open>None\<close>
  is a syntax error of the text and never a lack of fuel.
\<close>

lemma JSON_parse_fuel:
  assumes "2 * length s + 2 \<le> m"
  shows "(case json_value m s of
            None \<Rightarrow> None
          | Some (v, r) \<Rightarrow> if skip_ws r = [] then Some v else None) = JSON_parse s"
proof -
  from assms obtain k where "m = (2 * length s + 2) + k" by (metis le_Suc_ex)
  with json_value_fuel[of s "2 * length s + 2" k] show ?thesis
    by (simp add: JSON_parse_def)
qed


section \<open>Properties of the extractor\<close>

lemma bindE_Inl [simp]: "bindE (Inl e) f = Inl e" by (simp add: bindE_def)
lemma bindE_Inr [simp]: "bindE (Inr x) f = f x" by (simp add: bindE_def)
lemma bindE_eq_Inr: "(bindE m f = Inr y) = (\<exists>x. m = Inr x \<and> f x = Inr y)"
  by (cases m) simp_all

lemma backfillTimestamp_shape:
  assumes "backfillTimestamp P j e = Inr e'"
  shows "e' = e\<lparr>timestamp := timestamp e'\<rparr> \<and> (timestamp e \<noteq> None \<longrightarrow> timestamp e' = timestamp e)"
proof (cases "timestamp e = None")
  case False
  with assms show ?thesis by (simp add: backfillTimestamp_def)
next
  case True
  with assms obtain ts where
    "(if is_JStr ts \<or> is_JNum ts then
            bindE (String_js P ts) (\<lambda>t.
              Inr (e\<lparr>timestamp := parseTimestamp P (Some (JStr t))\<rparr>))
          else Inr e) = Inr e'"
    unfolding backfillTimestamp_def by (simp add: bindE_eq_Inr del: pick.simps) blast
  then show ?thesis using True
    by (cases "is_JStr ts \<or> is_JNum ts") (auto simp: bindE_eq_Inr)
qed

lemma backfillLevel_shape:
  assumes "backfillLevel P j e = Inr e'"
  shows "e' = e\<lparr>level := level e'\<rparr> \<and> (\<not> absent (level e) \<longrightarrow> level e' = level e)"
proof (cases "absent (level e)")
  case False
  with assms show ?thesis by (simp add: backfillLevel_def)
next
  case True
  with assms obtain lvl where
    "(if \<not> absent lvl then e\<lparr>level := lvl\<rparr> else e) = e'"
    unfolding backfillLevel_def by (simp add: bindE_eq_Inr del: pick.simps) blast
  then show ?thesis using True by (cases "absent lvl") auto
qed

lemma backfillSource_shape:
  assumes "backfillSource j e = Inr e'"
  shows "e' = e\<lparr>source := source e'\<rparr> \<and> (\<not> absent (source e) \<longrightarrow> source e' = source e)"
proof (cases "absent (source e)")
  case False
  with assms show ?thesis by (simp add: backfillSource_def)
next
  case True
  with assms obtain src where
    "(if is_JStr src then e\<lparr>source := str_of src\<rparr> else e) = e'"
    unfolding backfillSource_def by (simp add: bindE_eq_Inr del: pick.simps) blast
  then show ?thesis using True by (cases "is_JStr src") auto
qed

lemma backfillThread_shape:
  assumes "backfillThread j e = Inr e'"
  shows "e' = e\<lparr>thread := thread e'\<rparr> \<and> (\<not> absent (thread e) \<longrightarrow> thread e' = thread e)"
proof (cases "absent (thread e)")
  case False
  with assms show ?thesis by (simp add: backfillThread_def)
next
  case True
  with assms obtain thr where
    "(if is_JStr thr then e\<lparr>thread := str_of thr\<rparr> else e) = e'"
    unfolding backfillThread_def by (simp add: bindE_eq_Inr del: pick.simps) blast
  then show ?thesis using True by (cases "is_JStr thr") auto
qed

lemma backfill_frame:
  assumes "backfill P j e = Inr e'"
  shows "e' = e\<lparr>timestamp := timestamp e', level := level e', source := source e', thread := thread e'\<rparr>"
    and "timestamp e \<noteq> None \<Longrightarrow> timestamp e' = timestamp e"
    and "\<not> absent (level e) \<Longrightarrow> level e' = level e"
    and "\<not> absent (source e) \<Longrightarrow> source e' = source e"
    and "\<not> absent (thread e) \<Longrightarrow> thread e' = thread e"
proof -
  from assms obtain e1 e2 e3 where
    1: "backfillTimestamp P j e = Inr e1" and 2: "backfillLevel P j e1 = Inr e2"
    and 3: "backfillSource j e2 = Inr e3" and 4: "backfillThread j e3 = Inr e'"
    unfolding backfill_def by (auto simp: bindE_eq_Inr)
  note s1 = backfillTimestamp_shape[OF 1] and s2 = backfillLevel_shape[OF 2]
    and s3 = backfillSource_shape[OF 3] and s4 = backfillThread_shape[OF 4]
  have e1: "e1 = e\<lparr>timestamp := timestamp e1\<rparr>" using s1 by simp
  have e2: "e2 = e1\<lparr>level := level e2\<rparr>" using s2 by simp
  have e3: "e3 = e2\<lparr>source := source e3\<rparr>" using s3 by simp
  have e4: "e' = e3\<lparr>thread := thread e'\<rparr>" using s4 by simp
  have t: "timestamp e' = timestamp e1"
    by (subst e4, subst e3, subst e2) simp
  have l: "level e' = level e2" "level e1 = level e"
    by (subst e4, subst e3, simp) (subst e1, simp)
  have s: "source e' = source e3" "source e2 = source e"
    by (subst e4, simp) (subst e2, subst e1, simp)
  have h: "thread e3 = thread e"
    by (subst e3, subst e2, subst e1) simp
  show "e' = e\<lparr>timestamp := timestamp e', level := level e', source := source e', thread := thread e'\<rparr>"
    unfolding t l(1) s(1)
    by (subst e4, subst e3, subst e2, subst e1) simp
  show "timestamp e \<noteq> None \<Longrightarrow> timestamp e' = timestamp e" using s1 t by simp
  show "\<not> absent (level e) \<Longrightarrow> level e' = level e" using s2 l by simp
  show "\<not> absent (source e) \<Longrightarrow> source e' = source e" using s3 s by simp
  show "\<not> absent (thread e) \<Longrightarrow> thread e' = thread e" using s4 h by simp
qed

lemma enrich_cases:
  assumes "enrich P e = Inr e'"
  obtains (same) "e' = e"
  | (applied) json si ei e1 d where
      "\<not> truthy P (metadata e)"
      "extractFirstJsonObject (message e) = Some (json, si, ei)"
      "backfill P json (e\<lparr>metadata := Some json\<rparr>) = Inr e1"
      "derived P json = Inr d"
      "e' = e1\<lparr>message := newMessage d (message e1) si ei\<rparr>"
proof (cases "truthy P (metadata e)")
  case True
  with assms have "e' = e" by (simp add: enrich_def)
  then show ?thesis by (rule same)
next
  case False
  show ?thesis
  proof (cases "extractFirstJsonObject (message e)")
    case None
    with False assms have "e' = e" by (simp add: enrich_def)
    then show ?thesis by (rule same)
  next
    case (Some x)
    obtain json si ei where x: "x = (json, si, ei)" by (cases x)
    from assms False Some x obtain e1 d where
      "backfill P json (e\<lparr>metadata := Some json\<rparr>) = Inr e1"
      "derived P json = Inr d"
      "e' = e1\<lparr>message := newMessage d (message e1) si ei\<rparr>"
      by (auto simp: enrich_def bindE_eq_Inr)
    with False Some x show ?thesis by (auto intro: applied)
  qed
qed

lemma enrich_frame:
  assumes "enrich P e = Inr e'"
  shows "entry_id e' = entry_id e" and "rawLine e' = rawLine e" and "lineNumber e' = lineNumber e"
    and "timestamp e \<noteq> None \<Longrightarrow> timestamp e' = timestamp e"
    and "\<not> absent (level e) \<Longrightarrow> level e' = level e"
    and "\<not> absent (source e) \<Longrightarrow> source e' = source e"
    and "\<not> absent (thread e) \<Longrightarrow> thread e' = thread e"
proof -
  have "entry_id e' = entry_id e \<and> rawLine e' = rawLine e \<and> lineNumber e' = lineNumber e
      \<and> (timestamp e \<noteq> None \<longrightarrow> timestamp e' = timestamp e)
      \<and> (\<not> absent (level e) \<longrightarrow> level e' = level e)
      \<and> (\<not> absent (source e) \<longrightarrow> source e' = source e)
      \<and> (\<not> absent (thread e) \<longrightarrow> thread e' = thread e)"
    using assms
  proof (cases rule: enrich_cases)
    case same
    then show ?thesis by simp
  next
    case (applied json si ei e1 d)
    note f = backfill_frame[OF applied(3)]
    have "entry_id e1 = entry_id e" "rawLine e1 = rawLine e" "lineNumber e1 = lineNumber e"
      by (subst f(1), simp)+
    with f(2-5) applied(5) show ?thesis by simp
  qed
  then show "entry_id e' = entry_id e" and "rawLine e' = rawLine e" and "lineNumber e' = lineNumber e"
    and "timestamp e \<noteq> None \<Longrightarrow> timestamp e' = timestamp e"
    and "\<not> absent (level e) \<Longrightarrow> level e' = level e"
    and "\<not> absent (source e) \<Longrightarrow> source e' = source e"
    and "\<not> absent (thread e) \<Longrightarrow> thread e' = thread e"
    by simp_all
qed




section \<open>Properties of the parse driver\<close>

lemma jsonEntry_fields:
  assumes "jsonEntry P json line n = Inr e"
  shows "entry_id e = line_id n" "rawLine e = line" "lineNumber e = n" "metadata e = Some json"
  using assms unfolding jsonEntry_def
  by (auto simp: bindE_eq_Inr simp del: or_chain.simps)

lemma parseJsonLog_fields:
  assumes "parseJsonLog P line n = Some e"
  shows "entry_id e = line_id n" "rawLine e = line" "lineNumber e = n" "metadata e \<noteq> None"
  using assms jsonEntry_fields[of P _ line n e] unfolding parseJsonLog_def
  by (auto split: option.splits sum.splits)

lemma matchPatterns_fields:
  assumes "matchPatterns P ps line n = Some (e, nm)"
  shows "entry_id e = line_id n \<and> rawLine e = line \<and> lineNumber e = n \<and> nm \<in> name ` set ps"
  using assms
  by (induction ps) (auto simp: patternEntry_def split: option.splits)

lemma classify_fields:
  assumes "classify P line n = (e, nm)"
  shows "entry_id e = line_id n" "rawLine e = line" "lineNumber e = n"
    and "nm \<in> set (js ''JSON format'' # js ''Plain text'' # map name LOG_PATTERNS)"
proof -
  have "entry_id e = line_id n \<and> rawLine e = line \<and> lineNumber e = n
      \<and> nm \<in> set (js ''JSON format'' # js ''Plain text'' # map name LOG_PATTERNS)"
  proof (cases "if startsWith line (js ''{'') then parseJsonLog P line n else None")
    case (Some a)
    then have "parseJsonLog P line n = Some a" by (simp split: if_splits)
    from parseJsonLog_fields[OF this] Some assms show ?thesis
      by (simp add: classify_def)
  next
    case None
    show ?thesis
    proof (cases "matchPatterns P LOG_PATTERNS line n")
      case (Some r)
      with None assms have "matchPatterns P LOG_PATTERNS line n = Some (e, nm)"
        by (simp add: classify_def)
      from matchPatterns_fields[OF this] show ?thesis by simp
    next
      case N: None
      with None assms show ?thesis by (auto simp: classify_def plainEntry_def)
    qed
  qed
  then show "entry_id e = line_id n" "rawLine e = line" "lineNumber e = n"
    and "nm \<in> set (js ''JSON format'' # js ''Plain text'' # map name LOG_PATTERNS)" by simp_all
qed

lemma processLines_spec:
  "processLines P ls i es fmt = Inr (es', fmt') \<Longrightarrow>
     \<exists>new. es' = es @ new
       \<and> list_all2 (\<lambda>e nl. lineEntry P nl = Inr e) new (numbered i ls)
       \<and> fmt' = last (fmt # map (\<lambda>nl. snd (classify P (snd nl) (fst nl))) (numbered i ls))"
proof (induction ls arbitrary: i es fmt)
  case Nil
  then show ?case by simp
next
  case (Cons l ls)
  show ?case
  proof (cases "trim l = []")
    case True
    with Cons.prems have "processLines P ls (i + 1) es fmt = Inr (es', fmt')" by simp
    from Cons.IH[OF this] True show ?thesis by simp
  next
    case False
    obtain e0 f0 where c: "classify P (trim l) (i + 1) = (e0, f0)" by (cases "classify P (trim l) (i + 1)")
    with False Cons.prems obtain e1 where e1: "enrich P e0 = Inr e1"
      and r: "processLines P ls (i + 1) (es @ [e1]) f0 = Inr (es', fmt')"
      by (auto simp: Let_def split: sum.splits)
    from Cons.IH[OF r] obtain new where
      n: "es' = (es @ [e1]) @ new"
         "list_all2 (\<lambda>e nl. lineEntry P nl = Inr e) new (numbered (i + 1) ls)"
         "fmt' = last (f0 # map (\<lambda>nl. snd (classify P (snd nl) (fst nl))) (numbered (i + 1) ls))"
      by blast
    have "lineEntry P (i + 1, trim l) = Inr e1" using c e1 by (simp add: lineEntry_def)
    with n False c show ?thesis
      by (intro exI[of _ "e1 # new"]) simp
  qed
qed

lemma numbered_length:
  "length (numbered i ls) + length (filter (\<lambda>l. trim l = []) ls) = length ls"
  by (induction ls arbitrary: i) auto

lemma numbered_fst:
  "map fst (numbered i ls) = map (\<lambda>j. i + j + 1) (filter (\<lambda>j. trim (ls ! j) \<noteq> []) [0..<length ls])"
proof (induction ls arbitrary: i)
  case Nil
  then show ?case by simp
next
  case (Cons l ls)
  have up: "[0..<length (l # ls)] = 0 # map Suc [0..<length ls]"
    by (simp add: upt_conv_Cons map_Suc_upt del: upt_Suc)
  show ?case
    unfolding up using Cons.IH[of "i + 1"]
    by (simp add: filter_map comp_def)
qed

lemma numbered_mem:
  "(n, line) \<in> set (numbered i ls) \<Longrightarrow>
     i < n \<and> n \<le> i + length ls \<and> line = trim (ls ! (n - i - 1)) \<and> line \<noteq> []"
proof (induction ls arbitrary: i)
  case Nil
  then show ?case by simp
next
  case (Cons l ls)
  show ?case
  proof (cases "(n, line) \<in> set (numbered (i + 1) ls)")
    case True
    from Cons.IH[OF True] have "i + 1 < n" "n \<le> i + 1 + length ls"
      "line = trim (ls ! (n - (i + 1) - 1))" "line \<noteq> []" by auto
    moreover from \<open>i + 1 < n\<close> have "(l # ls) ! (n - i - 1) = ls ! (n - (i + 1) - 1)"
      by (cases "n - i - 1") auto
    ultimately show ?thesis by simp
  next
    case False
    with Cons.prems have "trim l \<noteq> []" "n = i + 1" "line = trim l"
      by (auto split: if_splits)
    then show ?thesis by simp
  qed
qed

lemma lineEntry_fields:
  assumes "lineEntry P (n, line) = Inr e"
  shows "lineNumber e = n" "rawLine e = line" "entry_id e = line_id n"
proof -
  obtain e0 f0 where c: "classify P line n = (e0, f0)" by (cases "classify P line n")
  with assms have "enrich P e0 = Inr e" by (simp add: lineEntry_def)
  from enrich_frame(1-3)[OF this] classify_fields(1-3)[OF c]
  show "lineNumber e = n" "rawLine e = line" "entry_id e = line_id n" by simp_all
qed

lemma parseLogFile_spec:
  assumes "parseLogFile P content fname = Inr r"
  shows "list_all2 (\<lambda>e nl. lineEntry P nl = Inr e) (entries r) (numbered 0 (split_nl content))"
    and "totalLines r = length (split_nl content)"
    and "filename r = fname"
    and "detectedFormat r = last (js ''Unknown'' # map (\<lambda>nl. snd (classify P (snd nl) (fst nl)))
                                              (numbered 0 (split_nl content)))"
proof -
  from assms obtain es fmt where
    p: "processLines P (split_nl content) 0 [] (js ''Unknown'') = Inr (es, fmt)"
    and r: "r = \<lparr>entries = es, totalLines = length (split_nl content), filename = fname,
                 detectedFormat = fmt\<rparr>"
    by (auto simp: parseLogFile_def split: sum.splits)
  from processLines_spec[OF p] r
  show "list_all2 (\<lambda>e nl. lineEntry P nl = Inr e) (entries r) (numbered 0 (split_nl content))"
    and "totalLines r = length (split_nl content)"
    and "filename r = fname"
    and "detectedFormat r = last (js ''Unknown'' # map (\<lambda>nl. snd (classify P (snd nl) (fst nl)))
                                              (numbered 0 (split_nl content)))"
    by auto
qed

lemma entries_lineNumbers:
  assumes "list_all2 (\<lambda>e nl. lineEntry P nl = Inr e) es nls"
  shows "map lineNumber es = map fst nls"
  using assms
  by (induction rule: list_all2_induct) (auto simp: lineEntry_fields(1))


lemma numbered_blank: "list_all (\<lambda>l. trim l = []) ls \<Longrightarrow> numbered i ls = []"
  by (induction ls arbitrary: i) auto

lemma numbered_nonblank: "\<not> list_all (\<lambda>l. trim l = []) ls \<Longrightarrow> numbered i ls \<noteq> []"
  by (induction ls arbitrary: i) auto

lemma processLines_blank:
  "list_all (\<lambda>l. trim l = []) ls \<Longrightarrow> processLines P ls i es fmt = Inr (es, fmt)"
  by (induction ls arbitrary: i) auto

lemma Unknown_not_a_format:
  "js ''Unknown'' \<notin> set (js ''JSON format'' # js ''Plain text'' # map name LOG_PATTERNS)"
  by (simp add: LOG_PATTERNS_def)

text \<open>
  C10. For an input whose lines are all blank (the empty string among them),
  \<^verbatim>\<open>parseLogFile\<close> returns no record and the \<^verbatim>\<open>detectedFormat\<close> \<^verbatim>\<open>"Unknown"\<close>; once a line
  has been classified, the label of a result is \<^verbatim>\<open>"JSON format"\<close>, \<^verbatim>\<open>"Plain text"\<close> or the
  name of a registry pattern, never \<^verbatim>\<open>"Unknown"\<close>.
\<close>

theorem blank_input_unknown_format:
  "(list_all (\<lambda>l. trim l = []) (split_nl content) \<longrightarrow>
      parseLogFile P content fname
        = Inr \<lparr>entries = [], totalLines = length (split_nl content), filename = fname,
               detectedFormat = js ''Unknown''\<rparr>)
   \<and> (\<not> list_all (\<lambda>l. trim l = []) (split_nl content) \<longrightarrow>
        (\<forall>r. parseLogFile P content fname = Inr r \<longrightarrow>
           detectedFormat r \<in> set (js ''JSON format'' # js ''Plain text'' # map name LOG_PATTERNS)
           \<and> detectedFormat r \<noteq> js ''Unknown''))"
proof (intro conjI impI allI)
  assume "list_all (\<lambda>l. trim l = []) (split_nl content)"
  then show "parseLogFile P content fname
        = Inr \<lparr>entries = [], totalLines = length (split_nl content), filename = fname,
               detectedFormat = js ''Unknown''\<rparr>"
    by (simp add: parseLogFile_def processLines_blank)
next
  fix r
  assume nb: "\<not> list_all (\<lambda>l. trim l = []) (split_nl content)"
    and a: "parseLogFile P content fname = Inr r"
  let ?nls = "numbered 0 (split_nl content)"
  have ne: "?nls \<noteq> []" using nb by (rule numbered_nonblank)
  have "detectedFormat r = snd (classify P (snd (last ?nls)) (fst (last ?nls)))"
    using parseLogFile_spec(4)[OF a] ne by (simp add: last_map)
  moreover have "snd (classify P line n) \<in> set (js ''JSON format'' # js ''Plain text'' # map name LOG_PATTERNS)"
    for line n
    using classify_fields(4)[of P line n "fst (classify P line n)" "snd (classify P line n)"] by simp
  ultimately show m: "detectedFormat r \<in> set (js ''JSON format'' # js ''Plain text'' # map name LOG_PATTERNS)"
    by simp
  with Unknown_not_a_format show "detectedFormat r \<noteq> js ''Unknown''" by metis
qed

theorem blank_input_unknown_format_witness:
  \<open>list_all (\<lambda>l. trim l = []) (split_nl (js '' '' @ [0x0A, 0x09, 0xA0, 0x0A, 0x2028, 0xFEFF]))
   \<and> parseLogFile ref_platform (js '' '' @ [0x0A, 0x09, 0xA0, 0x0A, 0x2028, 0xFEFF]) (js ''app.log'')
       = Inr \<lparr>entries = [], totalLines = 3, filename = js ''app.log'', detectedFormat = js ''Unknown''\<rparr>
   \<and> \<not> list_all (\<lambda>l. trim l = []) (split_nl (js ''x'' @ [0x0A, 0xA0, 0x0A] @ js ''[10:30:45] b''))
   \<and> parseLogFile ref_platform (js ''x'' @ [0x0A, 0xA0, 0x0A] @ js ''[10:30:45] b'') (js ''app.log'')
       = Inr \<lparr>entries =
                [\<lparr>entry_id = js ''line-1'', timestamp = None, level = None, message = js ''x'',
                  rawLine = js ''x'', lineNumber = 1, source = None, thread = None, metadata = None\<rparr>,
                 \<lparr>entry_id = js ''line-3'', timestamp = Some 1767263445000, level = None,
                  message = js ''b'', rawLine = js ''[10:30:45] b'', lineNumber = 3, source = None,
                  thread = None, metadata = None\<rparr>],
              totalLines = 3, filename = js ''app.log'', detectedFormat = js ''Simple timestamp''\<rparr>
   \<and> js ''Simple timestamp'' \<noteq> js ''Unknown''\<close>
proof -
  let ?blank = \<open>js '' '' @ [0x0A, 0x09, 0xA0, 0x0A, 0x2028, 0xFEFF]\<close>
  let ?text = \<open>js ''x'' @ [0x0A, 0xA0, 0x0A] @ js ''[10:30:45] b''\<close>
  let ?r = \<open>\<lparr>entries =
                [\<lparr>entry_id = js ''line-1'', timestamp = None, level = None, message = js ''x'',
                  rawLine = js ''x'', lineNumber = 1, source = None, thread = None, metadata = None\<rparr>,
                 \<lparr>entry_id = js ''line-3'', timestamp = Some 1767263445000, level = None,
                  message = js ''b'', rawLine = js ''[10:30:45] b'', lineNumber = 3, source = None,
                  thread = None, metadata = None\<rparr>],
              totalLines = 3, filename = js ''app.log'', detectedFormat = js ''Simple timestamp''\<rparr>\<close>
  have b: \<open>list_all (\<lambda>l. trim l = []) (split_nl ?blank)\<close>
    by code_simp
  have l: \<open>length (split_nl ?blank) = 3\<close>
    by code_simp
  have n: \<open>\<not> list_all (\<lambda>l. trim l = []) (split_nl ?text)\<close>
    by code_simp
  have h: \<open>parseLogFile ref_platform ?text (js ''app.log'') = Inr ?r\<close>
    by code_simp
  from blank_input_unknown_format[of ?blank ref_platform \<open>js ''app.log''\<close>] b
  have \<open>parseLogFile ref_platform ?blank (js ''app.log'')
       = Inr \<lparr>entries = [], totalLines = length (split_nl ?blank), filename = js ''app.log'',
              detectedFormat = js ''Unknown''\<rparr>\<close>
    by blast
  then have 1: \<open>parseLogFile ref_platform ?blank (js ''app.log'')
       = Inr \<lparr>entries = [], totalLines = 3, filename = js ''app.log'', detectedFormat = js ''Unknown''\<rparr>\<close>
    unfolding l .
  from blank_input_unknown_format[of ?text ref_platform \<open>js ''app.log''\<close>] n h
  have \<open>detectedFormat ?r \<noteq> js ''Unknown''\<close> by blast
  then have 2: \<open>js ''Simple timestamp'' \<noteq> js ''Unknown''\<close> by simp
  show ?thesis by (intro conjI b 1 n h 2)
qed

lemma list_all2_left_mem:
  "list_all2 Q xs ys \<Longrightarrow> x \<in> set xs \<Longrightarrow> \<exists>y \<in> set ys. Q x y"
  by (induction rule: list_all2_induct) auto

text \<open>
  The \<^verbatim>\<open>rawLine\<close> of a record is the line of its line number with the white space at
  both ends trimmed, and the embedded-JSON extractor never changes it.
\<close>

lemma rawLine_is_trimmed_line:
  "(parseLogFile P content fname = Inr r \<and> e \<in> set (entries r) \<longrightarrow>
      1 \<le> lineNumber e \<and> lineNumber e \<le> length (split_nl content)
      \<and> rawLine e = trim (split_nl content ! (lineNumber e - 1)))
   \<and> (enrich P e0 = Inr e1 \<longrightarrow> rawLine e1 = rawLine e0)"
proof (rule conjI; rule impI)
  assume a: "parseLogFile P content fname = Inr r \<and> e \<in> set (entries r)"
  from a list_all2_left_mem[OF parseLogFile_spec(1)[of P content fname r], of e]
  obtain nl where nl: "nl \<in> set (numbered 0 (split_nl content))" "lineEntry P nl = Inr e"
    by blast
  obtain n line where p: "nl = (n, line)" by (cases nl)
  from numbered_mem[of n line 0 "split_nl content"] nl p
  have m: "0 < n" "n \<le> length (split_nl content)" "line = trim (split_nl content ! (n - 1))"
    by auto
  from lineEntry_fields[of P n line e] nl p have "lineNumber e = n" "rawLine e = line" by auto
  with m show "1 \<le> lineNumber e \<and> lineNumber e \<le> length (split_nl content)
      \<and> rawLine e = trim (split_nl content ! (lineNumber e - 1))" by simp
next
  assume "enrich P e0 = Inr e1"
  then show "rawLine e1 = rawLine e0" by (rule enrich_frame(2))
qed

section \<open>Parsing a raw line again\<close>

lemma split_nl_nonempty: "split_nl c \<noteq> []"
  by (induction c) (auto split: list.splits)

lemma split_nl_no_LF: "l \<in> set (split_nl c) \<Longrightarrow> 0x0A \<notin> set l"
proof (induction c arbitrary: l)
  case Nil
  then show ?case by simp
next
  case (Cons a c)
  show ?case
  proof (cases "a = 0x0A")
    case True
    with Cons show ?thesis by auto
  next
    case False
    obtain x xs where s: "split_nl c = x # xs" using split_nl_nonempty[of c] by (cases "split_nl c") auto
    with False Cons.prems have "l = a # x \<or> l \<in> set xs" by auto
    with Cons.IH s False show ?thesis by auto
  qed
qed

lemma split_nl_single: "0x0A \<notin> set s \<Longrightarrow> split_nl s = [s]"
  by (induction s) auto

lemma trim_subset: "set (trim s) \<subseteq> set s"
proof -
  have "set (trim s) = set (dropWhile is_ws (rev (dropWhile is_ws s)))" by (simp add: trim_def)
  also have "\<dots> \<subseteq> set (rev (dropWhile is_ws s))" by (auto dest: set_dropWhileD)
  also have "\<dots> \<subseteq> set s" by (auto dest: set_dropWhileD)
  finally show ?thesis .
qed

lemma dropWhile_rev_ends:
  assumes "xs \<noteq> []" "\<not> Q (hd xs)"
  shows "dropWhile Q (rev (dropWhile Q (rev xs))) = rev (dropWhile Q (rev xs))"
proof -
  from assms obtain x ys where xs: "xs = x # ys" "\<not> Q x" by (cases xs) auto
  have "dropWhile Q (rev xs) = dropWhile Q (rev ys) @ [x] \<or> (dropWhile Q (rev xs) = [x] \<and> (\<forall>y \<in> set ys. Q y))"
    using xs by (auto simp: dropWhile_append)
  then have "\<exists>zs. dropWhile Q (rev xs) = zs @ [x]" by auto
  then obtain zs where "dropWhile Q (rev xs) = zs @ [x]" by blast
  then show ?thesis using xs by simp
qed

lemma trim_idem: "trim (trim s) = trim s"
proof (cases "dropWhile is_ws s = []")
  case True
  have "trim s = []" unfolding trim_def True by simp
  moreover have "trim [] = []" by (simp add: trim_def)
  ultimately show ?thesis by simp
next
  case False
  let ?t = "dropWhile is_ws s"
  let ?u = "rev (dropWhile is_ws (rev ?t))"
  have h: "\<not> is_ws (hd ?t)" using False by (rule hd_dropWhile)
  have 1: "dropWhile is_ws ?u = ?u" using False h by (rule dropWhile_rev_ends)
  have 2: "dropWhile is_ws (rev ?u) = rev ?u"
    by simp
  have "trim ?u = ?u"
    unfolding trim_def[of ?u] 1 2 by simp
  then show ?thesis by (simp add: trim_def[of s])
qed


lemma map_sum_bindE:
  "map_sum id f (bindE x g) = bindE x (\<lambda>v. map_sum id f (g v))"
  by (cases x) simp_all

lemma map_sum_if:
  "map_sum id f (if c then a else b) = (if c then map_sum id f a else map_sum id f b)"
  by simp

lemma jsonEntry_renumber:
  "jsonEntry P json line m = map_sum id (renumber m) (jsonEntry P json line n)"
  unfolding jsonEntry_def
  by (simp add: map_sum_bindE renumber_def del: or_chain.simps)

lemma parseJsonLog_renumber:
  "parseJsonLog P line m = map_option (renumber m) (parseJsonLog P line n)"
  unfolding parseJsonLog_def
  by (cases "JSON_parse line")
     (auto simp: jsonEntry_renumber[of P _ line m n] split: sum.splits)

lemma patternEntry_renumber:
  "patternEntry P p c line m = renumber m (patternEntry P p c line n)"
  by (simp add: patternEntry_def renumber_def)

lemma matchPatterns_renumber:
  "matchPatterns P ps line m
     = map_option (\<lambda>r. (renumber m (fst r), snd r)) (matchPatterns P ps line n)"
  by (induction ps) (auto simp: patternEntry_renumber[of P _ _ line m n] split: option.splits)

lemma plainEntry_renumber: "plainEntry line m = renumber m (plainEntry line n)"
  by (simp add: plainEntry_def renumber_def)

lemma classify_renumber:
  "classify P line m = (renumber m (fst (classify P line n)), snd (classify P line n))"
proof (cases "startsWith line (js ''{'')")
  case True
  show ?thesis
  proof (cases "parseJsonLog P line n")
    case None
    then have "parseJsonLog P line m = None" by (simp add: parseJsonLog_renumber[of P line m n])
    with None True show ?thesis
      unfolding classify_def
      by (cases "matchPatterns P LOG_PATTERNS line n")
         (simp_all add: matchPatterns_renumber[of P _ line m n] plainEntry_renumber[of line m n])
  next
    case (Some e)
    then have "parseJsonLog P line m = Some (renumber m e)"
      by (simp add: parseJsonLog_renumber[of P line m n])
    with Some True show ?thesis by (simp add: classify_def)
  qed
next
  case False
  then show ?thesis
    unfolding classify_def
    by (cases "matchPatterns P LOG_PATTERNS line n")
       (simp_all add: matchPatterns_renumber[of P _ line m n] plainEntry_renumber[of line m n])
qed

lemma renumber_updates:
  "renumber m (e\<lparr>timestamp := t\<rparr>) = (renumber m e)\<lparr>timestamp := t\<rparr>"
  "renumber m (e\<lparr>level := l\<rparr>) = (renumber m e)\<lparr>level := l\<rparr>"
  "renumber m (e\<lparr>source := s\<rparr>) = (renumber m e)\<lparr>source := s\<rparr>"
  "renumber m (e\<lparr>thread := h\<rparr>) = (renumber m e)\<lparr>thread := h\<rparr>"
  "renumber m (e\<lparr>metadata := d\<rparr>) = (renumber m e)\<lparr>metadata := d\<rparr>"
  "renumber m (e\<lparr>message := g\<rparr>) = (renumber m e)\<lparr>message := g\<rparr>"
  by (simp_all add: renumber_def)

lemma renumber_fields:
  "timestamp (renumber m e) = timestamp e" "level (renumber m e) = level e"
  "source (renumber m e) = source e" "thread (renumber m e) = thread e"
  "metadata (renumber m e) = metadata e" "message (renumber m e) = message e"
  "rawLine (renumber m e) = rawLine e"
  by (simp_all add: renumber_def)

lemma renumber_if:
  "renumber m (if c then a else b) = (if c then renumber m a else renumber m b)"
  by simp

lemma backfillTimestamp_renumber:
  "backfillTimestamp P j (renumber m e) = map_sum id (renumber m) (backfillTimestamp P j e)"
  unfolding backfillTimestamp_def
  by (simp add: map_sum_bindE map_sum_if renumber_updates renumber_fields renumber_if
        del: pick.simps cong del: if_weak_cong)

lemma backfillLevel_renumber:
  "backfillLevel P j (renumber m e) = map_sum id (renumber m) (backfillLevel P j e)"
  unfolding backfillLevel_def
  by (simp add: map_sum_bindE map_sum_if renumber_updates renumber_fields renumber_if
        del: pick.simps cong del: if_weak_cong)

lemma backfillSource_renumber:
  "backfillSource j (renumber m e) = map_sum id (renumber m) (backfillSource j e)"
  unfolding backfillSource_def
  by (simp add: map_sum_bindE map_sum_if renumber_updates renumber_fields renumber_if
        del: pick.simps cong del: if_weak_cong)

lemma backfillThread_renumber:
  "backfillThread j (renumber m e) = map_sum id (renumber m) (backfillThread j e)"
  unfolding backfillThread_def
  by (simp add: map_sum_bindE map_sum_if renumber_updates renumber_fields renumber_if
        del: pick.simps cong del: if_weak_cong)

lemma bindE_map_sum:
  "bindE (map_sum id f x) g = bindE x (\<lambda>v. g (f v))"
  by (cases x) simp_all

lemma backfill_renumber:
  "backfill P j (renumber m e) = map_sum id (renumber m) (backfill P j e)"
  unfolding backfill_def
  by (simp add: backfillTimestamp_renumber backfillLevel_renumber backfillSource_renumber
        backfillThread_renumber bindE_map_sum map_sum_bindE)

lemma enrich_renumber:
  "enrich P (renumber m e) = map_sum id (renumber m) (enrich P e)"
  unfolding enrich_def
  by (auto simp: renumber_fields renumber_updates[symmetric] backfill_renumber bindE_map_sum
        map_sum_bindE split: option.splits)

lemma lineEntry_renumber:
  "lineEntry P (m, line) = map_sum id (renumber m) (lineEntry P (n, line))"
  unfolding lineEntry_def
  by (simp add: classify_renumber[of P line m n] enrich_renumber)

lemma processLines_single:
  assumes "trim line = line" "line \<noteq> []" "lineEntry P (1, line) = Inr e"
  shows "processLines P [line] 0 [] fmt = Inr ([e], snd (classify P line 1))"
proof -
  obtain e0 f0 where c: "classify P line 1 = (e0, f0)" by (cases "classify P line 1")
  with assms(3) have "enrich P e0 = Inr e" by (simp add: lineEntry_def)
  with assms(1,2) c show ?thesis by simp
qed

text \<open>
  C9. Parsing again, on the same platform and clock and with the same file name, the
  single line that is the \<^verbatim>\<open>rawLine\<close> of a record of some result yields exactly one
  record, with the same level, timestamp, message and metadata (it is the record itself,
  renumbered to line 1).
\<close>

theorem reparse_rawLine:
  "parseLogFile P content fname = Inr r \<Longrightarrow> e \<in> set (entries r) \<Longrightarrow>
     \<exists>e'. parseLogFile P (rawLine e) fname
            = Inr \<lparr>entries = [e'], totalLines = 1, filename = fname,
                   detectedFormat = snd (classify P (rawLine e) 1)\<rparr>
        \<and> level e' = level e \<and> timestamp e' = timestamp e
        \<and> message e' = message e \<and> metadata e' = metadata e
        \<and> e' = e\<lparr>entry_id := line_id 1, lineNumber := 1\<rparr>"
proof -
  assume a: "parseLogFile P content fname = Inr r" and m: "e \<in> set (entries r)"
  from list_all2_left_mem[OF parseLogFile_spec(1)[OF a] m]
  obtain nl where nl: "nl \<in> set (numbered 0 (split_nl content))" "lineEntry P nl = Inr e"
    by blast
  obtain n line where p: "nl = (n, line)" by (cases nl)
  from numbered_mem[of n line 0 "split_nl content"] nl p
  have b: "0 < n" "n \<le> length (split_nl content)" "line = trim (split_nl content ! (n - 1))"
    "line \<noteq> []"
    by auto
  from b(1,2) have "split_nl content ! (n - 1) \<in> set (split_nl content)" by simp
  then have "0x0A \<notin> set (split_nl content ! (n - 1))" by (rule split_nl_no_LF)
  with trim_subset[of "split_nl content ! (n - 1)"] b(3) have nolf: "0x0A \<notin> set line"
    by auto
  have tr: "trim line = line" unfolding b(3) by (rule trim_idem)
  have raw: "rawLine e = line" using lineEntry_fields(2)[of P n line e] nl p by simp
  have "lineEntry P (1, line) = map_sum id (renumber 1) (lineEntry P (n, line))"
    by (rule lineEntry_renumber)
  with nl p have le: "lineEntry P (1, line) = Inr (renumber 1 e)" by simp
  from processLines_single[OF tr b(4) le]
  have "parseLogFile P line fname
          = Inr \<lparr>entries = [renumber 1 e], totalLines = 1, filename = fname,
                 detectedFormat = snd (classify P line 1)\<rparr>"
    by (simp add: parseLogFile_def split_nl_single[OF nolf])
  then show ?thesis
    unfolding raw by (intro exI[of _ "renumber 1 e"]) (simp add: renumber_def)
qed

theorem reparse_rawLine_witness:
  \<open>parseLogFile ref_platform
      (js ''first'' @ [0x0A] @ js ''  2024-01-15T10:30:45.123Z [WARN] disk {"msg":"low","code":7}  '')
      (js ''app.log'')
     = Inr \<lparr>entries =
              [\<lparr>entry_id = js ''line-1'', timestamp = None, level = None, message = js ''first'',
                rawLine = js ''first'', lineNumber = 1, source = None, thread = None,
                metadata = None\<rparr>,
               \<lparr>entry_id = js ''line-2'', timestamp = Some 1705314645123, level = Some (js ''WARN''),
                message = js ''7 '' @ [0x2014] @ js '' low'',
                rawLine = js ''2024-01-15T10:30:45.123Z [WARN] disk {"msg":"low","code":7}'',
                lineNumber = 2, source = None, thread = None,
                metadata = Some (JObj [(js ''msg'', JStr (js ''low'')), (js ''code'', JNum (js ''7''))])\<rparr>],
            totalLines = 2, filename = js ''app.log'', detectedFormat = js ''ISO with level''\<rparr>
   \<and> parseLogFile ref_platform (js ''2024-01-15T10:30:45.123Z [WARN] disk {"msg":"low","code":7}'')
        (js ''app.log'')
     = Inr \<lparr>entries =
              [\<lparr>entry_id = js ''line-1'', timestamp = Some 1705314645123, level = Some (js ''WARN''),
                message = js ''7 '' @ [0x2014] @ js '' low'',
                rawLine = js ''2024-01-15T10:30:45.123Z [WARN] disk {"msg":"low","code":7}'',
                lineNumber = 1, source = None, thread = None,
                metadata = Some (JObj [(js ''msg'', JStr (js ''low'')), (js ''code'', JNum (js ''7''))])\<rparr>],
            totalLines = 1, filename = js ''app.log'', detectedFormat = js ''ISO with level''\<rparr>\<close>
proof -
  let ?e1 = \<open>\<lparr>entry_id = js ''line-1'', timestamp = None, level = None, message = js ''first'',
                rawLine = js ''first'', lineNumber = 1, source = None, thread = None,
                metadata = None\<rparr>\<close>
  let ?e2 = \<open>\<lparr>entry_id = js ''line-2'', timestamp = Some 1705314645123, level = Some (js ''WARN''),
                message = js ''7 '' @ [0x2014] @ js '' low'',
                rawLine = js ''2024-01-15T10:30:45.123Z [WARN] disk {"msg":"low","code":7}'',
                lineNumber = 2, source = None, thread = None,
                metadata = Some (JObj [(js ''msg'', JStr (js ''low'')), (js ''code'', JNum (js ''7''))])\<rparr>\<close>
  let ?r = \<open>\<lparr>entries = [?e1, ?e2], totalLines = 2, filename = js ''app.log'',
              detectedFormat = js ''ISO with level''\<rparr>\<close>
  have h: \<open>parseLogFile ref_platform
      (js ''first'' @ [0x0A] @ js ''  2024-01-15T10:30:45.123Z [WARN] disk {"msg":"low","code":7}  '')
      (js ''app.log'') = Inr ?r\<close>
    by code_simp
  have m: \<open>?e2 \<in> set (entries ?r)\<close> by simp
  have c: \<open>snd (classify ref_platform (rawLine ?e2) 1) = js ''ISO with level''\<close>
    by code_simp
  have i: \<open>line_id 1 = js ''line-1''\<close> by code_simp
  from reparse_rawLine[OF h m] obtain e' where
    p: \<open>parseLogFile ref_platform (rawLine ?e2) (js ''app.log'')
            = Inr \<lparr>entries = [e'], totalLines = 1, filename = js ''app.log'',
                   detectedFormat = snd (classify ref_platform (rawLine ?e2) 1)\<rparr>\<close>
    and e': \<open>e' = ?e2\<lparr>entry_id := line_id 1, lineNumber := 1\<rparr>\<close>
    by blast
  from p have q: \<open>parseLogFile ref_platform
        (js ''2024-01-15T10:30:45.123Z [WARN] disk {"msg":"low","code":7}'') (js ''app.log'')
     = Inr \<lparr>entries =
              [\<lparr>entry_id = js ''line-1'', timestamp = Some 1705314645123, level = Some (js ''WARN''),
                message = js ''7 '' @ [0x2014] @ js '' low'',
                rawLine = js ''2024-01-15T10:30:45.123Z [WARN] disk {"msg":"low","code":7}'',
                lineNumber = 1, source = None, thread = None,
                metadata = Some (JObj [(js ''msg'', JStr (js ''low'')), (js ''code'', JNum (js ''7''))])\<rparr>],
            totalLines = 1, filename = js ''app.log'', detectedFormat = js ''ISO with level''\<rparr>\<close>
    unfolding c e' i by simp
  show ?thesis by (intro conjI h q)
qed



section \<open>What the extractor keeps\<close>

lemma stack_ok_mono: "stack_ok G k s b \<Longrightarrow> (b \<longrightarrow> b') \<Longrightarrow> stack_ok G k s b'"
  by (induction G k s b arbitrary: b' rule: stack_ok.induct) auto

lemma stack_ok_step: "stack_ok G k (x # xs) b \<Longrightarrow> stack_ok G k xs b'"
  by (induction G k "x # xs" b arbitrary: b' rule: stack_ok.induct) auto

lemma rmatch_caps_ok:
  "rmatch k s c = Some c' \<Longrightarrow> stack_ok G k s False \<Longrightarrow> caps_ok G c \<Longrightarrow> caps_ok G c'"
proof (induction k s c rule: rmatch.induct)
  case (1 s c)
  then show ?case by simp
next
  case (2 k s c)
  then show ?case by simp
next
  case (3 p k s c)
  then show ?case
    by (cases s) (auto split: if_splits intro: stack_ok_step)
next
  case (4 a b k s c)
  then show ?case by simp
next
  case (5 a k s c)
  show ?case
  proof (cases "rmatch (R a # k) s c")
    case None
    with 5 show ?thesis by simp
  next
    case (Some d)
    with "5.prems" have "d = c'" by simp
    with Some "5.IH"(1) "5.prems" show ?thesis
      by (auto intro: stack_ok_mono)
  qed
next
  case (6 p k s c)
  show ?case
  proof (cases s)
    case Nil
    with 6 show ?thesis by simp
  next
    case (Cons x xs)
    show ?thesis
    proof (cases "p x")
      case False
      with Cons 6 show ?thesis by simp
    next
      case True
      show ?thesis
      proof (cases "rmatch (R (Star p) # k) xs c")
        case None
        with True Cons 6 show ?thesis by simp
      next
        case (Some d)
        with True Cons "6.prems" have "d = c'" by simp
        moreover from "6.prems"(2) Cons have "stack_ok G (R (Star p) # k) xs False"
          by (auto intro: stack_ok_step)
        ultimately show ?thesis using "6.IH"(2)[OF Cons True] Some "6.prems"(3) by simp
      qed
    qed
  qed
next
  case (7 i a k s c)
  then show ?case by simp
next
  case (8 k s c)
  then show ?case by (simp split: if_splits)
next
  case (9 i s0 k s c)
  from "9.prems"(2) have l: "length s \<le> length s0" "i \<in> G \<longrightarrow> length s < length s0"
    and k: "stack_ok G k s False" by simp_all
  have "caps_ok G ((i, take (length s0 - length s) s0) # c)"
    using "9.prems"(3) l by (auto simp: caps_ok_def grp_def)
  with "9.IH" "9.prems"(1) k show ?case by simp
qed

lemma re_exec_caps_ok:
  assumes "re_exec r s = Some c" "groups_ok G r" "0 \<notin> G" "i \<in> G"
  shows "grp c i \<noteq> Some []"
proof -
  have "caps_ok G c"
    using assms(1) unfolding re_exec_def
    by (rule rmatch_caps_ok) (use assms(2,3) in \<open>simp_all add: caps_ok_def grp_def\<close>)
  with assms(4) show ?thesis by (simp add: caps_ok_def)
qed

lemma rmatch_closes:
  "rmatch k s c = Some c' \<Longrightarrow> i \<in> fst ` set c \<union> \<Union> (closes_item ` set k) \<Longrightarrow> i \<in> fst ` set c'"
proof (induction k s c rule: rmatch.induct)
  case (3 p k s c)
  then show ?case by (cases s) (auto split: if_splits)
next
  case (5 a k s c)
  then show ?case by (cases "rmatch (R a # k) s c") auto
next
  case (6 p k s c)
  show ?case
  proof (cases s)
    case Nil
    with 6 show ?thesis by simp
  next
    case (Cons x xs)
    show ?thesis
    proof (cases "p x")
      case False
      with Cons 6 show ?thesis by simp
    next
      case True
      show ?thesis
      proof (cases "rmatch (R (Star p) # k) xs c")
        case None
        with True Cons 6 show ?thesis by simp
      next
        case (Some d)
        with True Cons "6.prems" have "d = c'" by simp
        with "6.IH"(2)[OF Cons True] Some "6.prems"(2) show ?thesis by simp
      qed
    qed
  qed
qed (auto split: if_splits)

lemma re_exec_closes:
  assumes "re_exec r s = Some c" "i \<in> closes r"
  shows "grp c i \<noteq> None"
proof -
  have "i \<in> fst ` set c"
    using assms(1)[unfolded re_exec_def]
    by (rule rmatch_closes) (use assms(2) in simp)
  then show ?thesis by (auto simp: grp_def map_of_eq_None_iff)
qed


lemmas re_defs = re_iso_def re_standard_def re_syslog_def re_apache_def re_json_def re_simple_def
  re_ymd_def re_hms_def re_millis_def Plus_def times_def ch_def

lemma numeral_replicate:
  "replicate 2 x = [x, x]" "replicate 3 x = [x, x, x]" "replicate 4 x = [x, x, x, x]"
  by (simp_all add: numeral_2_eq_2 numeral_3_eq_3 eval_nat_numeral)

lemma patterns_groups_ok:
  "p \<in> set LOG_PATTERNS \<Longrightarrow> groups_ok (field_groups p) (regex p) \<and> 0 \<notin> field_groups p"
  by (auto simp: LOG_PATTERNS_def field_groups_def re_defs numeral_replicate)

lemma patterns_message_closed:
  "p \<in> set LOG_PATTERNS \<Longrightarrow> g_message p = Some g \<Longrightarrow> g \<in> closes (regex p)"
  by (auto simp: LOG_PATTERNS_def re_defs numeral_replicate)

lemma JSON_parse_brace:
  assumes "startsWith line (js ''{'')" "JSON_parse line = Some v"
  shows "\<exists>kvs. v = JObj kvs"
proof -
  from assms(1) obtain r where l: "line = cu CHR ''{'' # r"
    by (cases line) (auto simp: startsWith_take)
  have sk: "skip_ws line = line" by (simp add: l skip_ws_def json_ws_def)
  obtain n where n: "2 * length line + 2 = Suc n" by simp
  from assms(2) obtain q where "json_value (Suc n) line = Some (v, q)"
    unfolding JSON_parse_def n by (auto split: option.splits if_splits)
  then show ?thesis
    unfolding json_value.simps sk
    by (auto simp: l split: list.splits if_splits)
qed

lemma parseJsonLog_metadata:
  assumes "startsWith line (js ''{'')" "parseJsonLog P line n = Some e"
  shows "truthy P (metadata e)"
proof -
  from assms(2) obtain json where j: "JSON_parse line = Some json" "jsonEntry P json line n = Inr e"
    unfolding parseJsonLog_def by (auto split: option.splits sum.splits)
  from JSON_parse_brace[OF assms(1) j(1)] jsonEntry_fields(4)[OF j(2)] show ?thesis by auto
qed

lemma code_points_empty: "code_points s = [] \<longleftrightarrow> s = []"
  by (induction s rule: code_points.induct) auto

lemma special_case_mem: "special_case tab c = Some v \<Longrightarrow> (c, v) \<in> set tab"
  by (induction tab c rule: special_case.induct) (auto split: if_splits)

lemma upper_special_nonempty: "list_all (\<lambda>p. snd p \<noteq> []) upper_special"
  by (simp add: upper_special_def)

lemma upper_cp_nonempty: "upper_cp c \<noteq> []"
proof (cases "special_case upper_special c")
  case None
  then show ?thesis by (simp add: upper_cp_def)
next
  case (Some v)
  from special_case_mem[OF Some] upper_special_nonempty have "v \<noteq> []"
    unfolding list_all_iff by fastforce
  with Some show ?thesis by (simp add: upper_cp_def)
qed

lemma code_units_nonempty: "code_units n \<noteq> []"
  by (simp add: code_units_def)

lemma toUpperCase_empty: "toUpperCase s = [] \<longleftrightarrow> s = []"
proof -
  have 1: "concat (map code_units xs) = [] \<longleftrightarrow> xs = []" for xs
    by (cases xs) (simp_all add: code_units_nonempty)
  have 2: "concat (map upper_cp ys) = [] \<longleftrightarrow> ys = []" for ys
    by (cases ys) (simp_all add: upper_cp_nonempty)
  show ?thesis by (simp only: toUpperCase_def 1 2 code_points_empty)
qed

lemma detectLogLevel_nonempty: "detectLogLevel t \<noteq> Some []"
  by (auto simp: detectLogLevel_def find_Some_iff)

lemma matchPatterns_fields_present:
  assumes "matchPatterns P ps line n = Some (e, nm)" "set ps \<subseteq> set LOG_PATTERNS"
  shows "level e \<noteq> Some [] \<and> source e \<noteq> Some [] \<and> thread e \<noteq> Some [] \<and> metadata e = None"
  using assms
proof (induction ps)
  case Nil
  then show ?case by simp
next
  case (Cons p ps)
  show ?case
  proof (cases "re_exec (regex p) line")
    case None
    with Cons show ?thesis by simp
  next
    case (Some c)
    with Cons.prems have e: "e = patternEntry P p c line n" by simp
    from Cons.prems(2) have "p \<in> set LOG_PATTERNS" by simp
    from patterns_groups_ok[OF this]
    have g: "i \<in> field_groups p \<Longrightarrow> grp c i \<noteq> Some []" for i
      using re_exec_caps_ok[OF Some] by blast
    have "level e \<noteq> Some []"
      unfolding e patternEntry_def
      using g detectLogLevel_nonempty
      by (cases "g_level p") (auto simp: field_groups_def toUpperCase_empty)
    moreover have "source e \<noteq> Some []"
      unfolding e patternEntry_def
      using g by (cases "g_source p") (auto simp: field_groups_def)
    moreover have "thread e \<noteq> Some []"
      unfolding e patternEntry_def
      using g by (cases "g_thread p") (auto simp: field_groups_def)
    ultimately show ?thesis by (simp add: e patternEntry_def)
  qed
qed

lemma classify_fields_present:
  assumes "classify P line n = (e, nm)" "\<not> truthy P (metadata e)"
  shows "level e \<noteq> Some []" "source e \<noteq> Some []" "thread e \<noteq> Some []"
proof -
  have "level e \<noteq> Some [] \<and> source e \<noteq> Some [] \<and> thread e \<noteq> Some []"
  proof (cases "if startsWith line (js ''{'') then parseJsonLog P line n else None")
    case (Some a)
    then have s: "startsWith line (js ''{'')" "parseJsonLog P line n = Some a"
      by (simp_all split: if_splits)
    from Some assms(1) have "e = a" by (simp add: classify_def)
    with parseJsonLog_metadata[OF s] assms(2) show ?thesis by simp
  next
    case None
    show ?thesis
    proof (cases "matchPatterns P LOG_PATTERNS line n")
      case (Some r)
      with None assms(1) have "matchPatterns P LOG_PATTERNS line n = Some (e, nm)"
        by (simp add: classify_def)
      from matchPatterns_fields_present[OF this] show ?thesis by simp
    next
      case N: None
      with None assms(1) have "e = plainEntry line n" by (simp add: classify_def)
      then show ?thesis using detectLogLevel_nonempty by (simp add: plainEntry_def)
    qed
  qed
  then show "level e \<noteq> Some []" "source e \<noteq> Some []" "thread e \<noteq> Some []" by simp_all
qed

text \<open>
  The group a registry pattern maps to the message takes part in every match of the
  pattern, so the message of \<open>patternEntry\<close> is always the text of that group.
\<close>

lemma registry_message_defined:
  assumes "p \<in> set LOG_PATTERNS" "re_exec (regex p) line = Some c" "g_message p = Some g"
  shows "grp c g \<noteq> None"
  using re_exec_closes[OF assms(2) patterns_message_closed[OF assms(1,3)]] .

text \<open>
  C7. The embedded-JSON extractor only fills fields that are absent: a level,
  timestamp, source or thread that the record has before the extraction (in the sense
  of the source's tests \<^verbatim>\<open>!entry.level\<close> etc.) has the same value after it, and so have the
  identifier, the raw line and the line number; only the metadata and the message may
  be rewritten. For a record as the driver hands it to the extractor, the source's test
  is the plain one: a level, source or thread that is not \<^verbatim>\<open>undefined\<close> is kept.
\<close>

theorem extractor_fills_only_absent:
  "enrich P e = Inr e' \<Longrightarrow>
     (\<not> absent (level e) \<longrightarrow> level e' = level e)
   \<and> (timestamp e \<noteq> None \<longrightarrow> timestamp e' = timestamp e)
   \<and> (\<not> absent (source e) \<longrightarrow> source e' = source e)
   \<and> (\<not> absent (thread e) \<longrightarrow> thread e' = thread e)
   \<and> entry_id e' = entry_id e \<and> rawLine e' = rawLine e \<and> lineNumber e' = lineNumber e
   \<and> (\<forall>line n fmt. classify P line n = (e, fmt) \<longrightarrow>
         (level e \<noteq> None \<longrightarrow> level e' = level e)
       \<and> (source e \<noteq> None \<longrightarrow> source e' = source e)
       \<and> (thread e \<noteq> None \<longrightarrow> thread e' = thread e))"
proof -
  assume a: "enrich P e = Inr e'"
  have gen: "(\<not> absent (level e) \<longrightarrow> level e' = level e)
   \<and> (timestamp e \<noteq> None \<longrightarrow> timestamp e' = timestamp e)
   \<and> (\<not> absent (source e) \<longrightarrow> source e' = source e)
   \<and> (\<not> absent (thread e) \<longrightarrow> thread e' = thread e)
   \<and> entry_id e' = entry_id e \<and> rawLine e' = rawLine e \<and> lineNumber e' = lineNumber e"
    using enrich_frame[OF a] by blast
  have drv: "(level e \<noteq> None \<longrightarrow> level e' = level e)
       \<and> (source e \<noteq> None \<longrightarrow> source e' = source e)
       \<and> (thread e \<noteq> None \<longrightarrow> thread e' = thread e)"
    if c: "classify P line n = (e, fmt)" for line n fmt
  proof (cases "truthy P (metadata e)")
    case True
    with a have "e' = e" by (simp add: enrich_def)
    then show ?thesis by simp
  next
    case False
    from classify_fields_present[OF c False] gen show ?thesis
      by (simp add: absent_def)
  qed
  from gen drv show ?thesis by blast
qed

theorem extractor_fills_only_absent_witness:
  \<open>classify ref_platform
      (js ''2023-12-01T10:30:45Z [WARN] disk {"level":"error","ts":"2024-01-01T00:00:00Z","msg":"low"}'') 4
     = (\<lparr>entry_id = js ''line-4'', timestamp = Some 1701426645000, level = Some (js ''WARN''),
         message = js ''disk {"level":"error","ts":"2024-01-01T00:00:00Z","msg":"low"}'',
         rawLine = js ''2023-12-01T10:30:45Z [WARN] disk {"level":"error","ts":"2024-01-01T00:00:00Z","msg":"low"}'',
         lineNumber = 4, source = None, thread = None, metadata = None\<rparr>, js ''ISO with level'')
   \<and> enrich ref_platform
       \<lparr>entry_id = js ''line-4'', timestamp = Some 1701426645000, level = Some (js ''WARN''),
        message = js ''disk {"level":"error","ts":"2024-01-01T00:00:00Z","msg":"low"}'',
        rawLine = js ''2023-12-01T10:30:45Z [WARN] disk {"level":"error","ts":"2024-01-01T00:00:00Z","msg":"low"}'',
        lineNumber = 4, source = None, thread = None, metadata = None\<rparr>
     = Inr \<lparr>entry_id = js ''line-4'', timestamp = Some 1701426645000, level = Some (js ''WARN''),
            message = js ''low'',
            rawLine = js ''2023-12-01T10:30:45Z [WARN] disk {"level":"error","ts":"2024-01-01T00:00:00Z","msg":"low"}'',
            lineNumber = 4, source = None, thread = None,
            metadata = Some (JObj [(js ''level'', JStr (js ''error'')),
                                   (js ''ts'', JStr (js ''2024-01-01T00:00:00Z'')),
                                   (js ''msg'', JStr (js ''low''))])\<rparr>
   \<and> enrich ref_platform
       \<lparr>entry_id = js ''line-2'', timestamp = None, level = None,
        message = js ''boom {"source":"db","thread":"t1","msg":"low"}'',
        rawLine = js ''x'', lineNumber = 2, source = Some (js ''server''),
        thread = Some (js ''myapp[1234]''), metadata = None\<rparr>
     = Inr \<lparr>entry_id = js ''line-2'', timestamp = None, level = None,
            message = js ''db'' @ dash_sep @ js ''low'',
            rawLine = js ''x'', lineNumber = 2, source = Some (js ''server''),
            thread = Some (js ''myapp[1234]''),
            metadata = Some (JObj [(js ''source'', JStr (js ''db'')), (js ''thread'', JStr (js ''t1'')),
                                   (js ''msg'', JStr (js ''low''))])\<rparr>
   \<and> \<not> absent (Some (js ''WARN'')) \<and> \<not> absent (Some (js ''server'')) \<and> \<not> absent (Some (js ''myapp[1234]''))\<close>
proof -
  let ?e1 = \<open>\<lparr>entry_id = js ''line-4'', timestamp = Some 1701426645000, level = Some (js ''WARN''),
        message = js ''disk {"level":"error","ts":"2024-01-01T00:00:00Z","msg":"low"}'',
        rawLine = js ''2023-12-01T10:30:45Z [WARN] disk {"level":"error","ts":"2024-01-01T00:00:00Z","msg":"low"}'',
        lineNumber = 4, source = None, thread = None, metadata = None\<rparr>\<close>
  let ?e2 = \<open>\<lparr>entry_id = js ''line-2'', timestamp = None, level = None,
        message = js ''boom {"source":"db","thread":"t1","msg":"low"}'',
        rawLine = js ''x'', lineNumber = 2, source = Some (js ''server''),
        thread = Some (js ''myapp[1234]''), metadata = None\<rparr>\<close>
  have c1: \<open>classify ref_platform
      (js ''2023-12-01T10:30:45Z [WARN] disk {"level":"error","ts":"2024-01-01T00:00:00Z","msg":"low"}'') 4
     = (?e1, js ''ISO with level'')\<close>
    by code_simp
  have k1: \<open>enrich ref_platform ?e1
     = Inr \<lparr>entry_id = js ''line-4'', timestamp = Some 1701426645000, level = Some (js ''WARN''),
            message = js ''low'',
            rawLine = js ''2023-12-01T10:30:45Z [WARN] disk {"level":"error","ts":"2024-01-01T00:00:00Z","msg":"low"}'',
            lineNumber = 4, source = None, thread = None,
            metadata = Some (JObj [(js ''level'', JStr (js ''error'')),
                                   (js ''ts'', JStr (js ''2024-01-01T00:00:00Z'')),
                                   (js ''msg'', JStr (js ''low''))])\<rparr>\<close>
    by code_simp
  have k2: \<open>enrich ref_platform ?e2
     = Inr \<lparr>entry_id = js ''line-2'', timestamp = None, level = None,
            message = js ''db'' @ dash_sep @ js ''low'',
            rawLine = js ''x'', lineNumber = 2, source = Some (js ''server''),
            thread = Some (js ''myapp[1234]''),
            metadata = Some (JObj [(js ''source'', JStr (js ''db'')), (js ''thread'', JStr (js ''t1'')),
                                   (js ''msg'', JStr (js ''low''))])\<rparr>\<close>
    by code_simp
  have a: "\<not> absent (Some (js ''WARN''))" "\<not> absent (Some (js ''server''))"
    "\<not> absent (Some (js ''myapp[1234]''))"
    by (simp_all add: absent_def)
  note t1 = extractor_fills_only_absent[OF k1] and t2 = extractor_fills_only_absent[OF k2]
  from t1 c1 have "level ?e1 \<noteq> None \<longrightarrow> Some (js ''WARN'') = level ?e1" by simp
  with t2 show ?thesis by (intro conjI c1 k1 k2 a)
qed


section \<open>The registry and the full-line interpreter\<close>

text \<open>
  C2 as stated fails: \<^verbatim>\<open>{bad}\<close> starts with a brace, is not JSON, matches none of the five
  structural patterns, and yet is labelled \<^verbatim>\<open>"JSON format"\<close>, by the registry's own entry
  of that name.
\<close>

theorem json_format_is_registry_entry_counterexample:
  \<open>startsWith (js ''{bad}'') (js ''{'')
   \<and> JSON_parse (js ''{bad}'') = None
   \<and> map (\<lambda>p. (name p, re_exec (regex p) (js ''{bad}'') = None)) LOG_PATTERNS
       = [(js ''ISO with level'', True), (js ''Standard format'', True), (js ''Syslog format'', True),
          (js ''Apache access'', True), (js ''JSON format'', False), (js ''Simple timestamp'', True)]
   \<and> parseLogFile ref_platform (js ''{bad}'') (js ''app.log'')
       = Inr \<lparr>entries =
                [\<lparr>entry_id = js ''line-1'', timestamp = None, level = None, message = js ''{bad}'',
                  rawLine = js ''{bad}'', lineNumber = 1, source = None, thread = None,
                  metadata = None\<rparr>],
              totalLines = 1, filename = js ''app.log'', detectedFormat = js ''JSON format''\<rparr>\<close>
  by code_simp

lemma rmatch_tail:
  "rmatch [R (Cls (\<lambda>x. x = b)), Close i l, R Eol, Close j l'] s c
     = (if s = [b] then Some ((j, l') # (i, l) # c) else None)"
  by (cases s) auto

lemma rmatch_star_then_last:
  "rmatch [R (Star p), R (Cls (\<lambda>x. x = b)), Close i l, R Eol, Close j l'] s c
     = (if s \<noteq> [] \<and> last s = b \<and> list_all p (butlast s)
        then Some ((j, l') # (i, l) # c) else None)"
proof (induction s)
  case Nil
  show ?case by simp
next
  case (Cons x xs)
  show ?case
  proof (cases "p x")
    case False
    then show ?thesis
      by (simp add: rmatch_tail del: rmatch.simps(3,9)) 
  next
    case True
    show ?thesis
    proof (cases "xs \<noteq> [] \<and> last xs = b \<and> list_all p (butlast xs)")
      case t: True
      with True Cons show ?thesis by simp
    next
      case f: False
      with Cons have "rmatch [R (Star p), R (Cls (\<lambda>x. x = b)), Close i l, R Eol, Close j l'] xs c = None"
        by simp
      with True f show ?thesis
        by (auto simp add: rmatch_tail simp del: rmatch.simps(3,9))
    qed
  qed
qed

lemma re_json_exec:
  "re_exec re_json line = (if brace_block line then Some [(0, line), (1, line)] else None)"
proof (cases line)
  case Nil
  then show ?thesis by (simp add: re_exec_def re_json_def ch_def brace_block_def)
next
  case (Cons x xs)
  have "re_exec re_json line
      = (if x = cu CHR ''{''
         then rmatch [R (Star is_dot), R (Cls (\<lambda>y. y = cu CHR ''}'')), Close 1 line, R Eol, Close 0 line] xs []
         else None)"
    by (simp add: re_exec_def re_json_def ch_def Cons del: rmatch.simps(6))
  then show ?thesis
    by (simp add: rmatch_star_then_last brace_block_def Cons del: rmatch.simps)
qed

lemma brace_line_not_iso: "re_exec re_iso (cu CHR ''{'' # r) = None"
  by (simp add: re_exec_def re_defs numeral_replicate is_digit_def)

lemma brace_line_not_standard: "re_exec re_standard (cu CHR ''{'' # r) = None"
  by (simp add: re_exec_def re_defs numeral_replicate is_digit_def)

lemma brace_line_not_syslog: "re_exec re_syslog (cu CHR ''{'' # r) = None"
  by (simp add: re_exec_def re_defs numeral_replicate is_upper_def)

lemma brace_line_not_simple: "re_exec re_simple (cu CHR ''{'' # r) = None"
  by (simp add: re_exec_def re_defs numeral_replicate)


text \<open>
  C2, as the code has it. The registry has six entries, and \<^verbatim>\<open>"JSON format"\<close>, the pattern
  \<^verbatim>\<open>/^(\{.*\})$/\<close>, is the fifth. A trimmed line that starts with a brace and that
  \<^verbatim>\<open>parseJsonLog\<close> rejects (strict parsing fails, or building the record throws) is
  classified by the registry, where only \<^verbatim>\<open>"Apache access"\<close> and \<^verbatim>\<open>"JSON format"\<close> can match
  such a line. If \<^verbatim>\<open>"Apache access"\<close> matches, the record is built from its groups, with
  that label. Otherwise the record is the plain-text record (the message is the line, the
  level comes from the heuristic scanner, the other fields are absent), and its label is
  \<^verbatim>\<open>"JSON format"\<close> when the line ends with a closing brace and has no line terminator
  between the braces, \<^verbatim>\<open>"Plain text"\<close> when not.
\<close>

theorem unparsed_brace_line_goes_to_registry:
  "startsWith line (js ''{'') \<Longrightarrow>
     (JSON_parse line = None \<longrightarrow> parseJsonLog P line n = None)
   \<and> (parseJsonLog P line n = None \<longrightarrow>
        classify P line n =
          (case re_exec re_apache line of
             Some c \<Rightarrow>
               (\<lparr>entry_id = line_id n,
                 timestamp = parseTimestamp P (map_option JStr (grp c 2)),
                 level = map_option toUpperCase (grp c 4),
                 message = the_grp c 3, rawLine = line, lineNumber = n,
                 source = grp c 1, thread = None, metadata = None\<rparr>, js ''Apache access'')
           | None \<Rightarrow>
               (plainEntry line n,
                if brace_block line then js ''JSON format'' else js ''Plain text'')))
   \<and> map (\<lambda>p. (name p, regex p)) LOG_PATTERNS
       = [(js ''ISO with level'', re_iso), (js ''Standard format'', re_standard),
          (js ''Syslog format'', re_syslog), (js ''Apache access'', re_apache),
          (js ''JSON format'', re_json), (js ''Simple timestamp'', re_simple)]
   \<and> (re_exec re_json line \<noteq> None) = brace_block line
   \<and> list_all (\<lambda>r. re_exec r line = None) [re_iso, re_standard, re_syslog, re_simple]"
proof -
  assume s: "startsWith line (js ''{'')"
  then obtain r where l: "line = cu CHR ''{'' # r"
    by (cases line) (auto simp: startsWith_take)
  have a: "JSON_parse line = None \<longrightarrow> parseJsonLog P line n = None"
    by (simp add: parseJsonLog_def)
  have n4: "re_exec re_iso line = None" "re_exec re_standard line = None"
    "re_exec re_syslog line = None" "re_exec re_simple line = None"
    unfolding l
    by (rule brace_line_not_iso brace_line_not_standard brace_line_not_syslog
          brace_line_not_simple)+
  have b: "parseJsonLog P line n = None \<longrightarrow>
        classify P line n =
          (case re_exec re_apache line of
             Some c \<Rightarrow>
               (\<lparr>entry_id = line_id n,
                 timestamp = parseTimestamp P (map_option JStr (grp c 2)),
                 level = map_option toUpperCase (grp c 4),
                 message = the_grp c 3, rawLine = line, lineNumber = n,
                 source = grp c 1, thread = None, metadata = None\<rparr>, js ''Apache access'')
           | None \<Rightarrow>
               (plainEntry line n,
                if brace_block line then js ''JSON format'' else js ''Plain text''))"
  proof
    assume p: "parseJsonLog P line n = None"
    show "classify P line n =
          (case re_exec re_apache line of
             Some c \<Rightarrow>
               (\<lparr>entry_id = line_id n,
                 timestamp = parseTimestamp P (map_option JStr (grp c 2)),
                 level = map_option toUpperCase (grp c 4),
                 message = the_grp c 3, rawLine = line, lineNumber = n,
                 source = grp c 1, thread = None, metadata = None\<rparr>, js ''Apache access'')
           | None \<Rightarrow>
               (plainEntry line n,
                if brace_block line then js ''JSON format'' else js ''Plain text''))"
    proof (cases "re_exec re_apache line")
      case (Some c)
      with p n4 show ?thesis
        by (simp add: classify_def LOG_PATTERNS_def patternEntry_def)
    next
      case None
      with p n4 show ?thesis
        by (simp add: classify_def LOG_PATTERNS_def re_json_exec patternEntry_def plainEntry_def
              the_grp_def grp_def)
    qed
  qed
  have c: "map (\<lambda>p. (name p, regex p)) LOG_PATTERNS
       = [(js ''ISO with level'', re_iso), (js ''Standard format'', re_standard),
          (js ''Syslog format'', re_syslog), (js ''Apache access'', re_apache),
          (js ''JSON format'', re_json), (js ''Simple timestamp'', re_simple)]"
    by (simp add: LOG_PATTERNS_def)
  have d: "(re_exec re_json line \<noteq> None) = brace_block line"
    by (simp add: re_json_exec)
  have e: "list_all (\<lambda>r. re_exec r line = None) [re_iso, re_standard, re_syslog, re_simple]"
    using n4 by simp
  show ?thesis by (intro conjI a b c d e)
qed

theorem unparsed_brace_line_goes_to_registry_witness:
  \<open>startsWith (js ''{bad}'') (js ''{'') \<and> JSON_parse (js ''{bad}'') = None
   \<and> classify ref_platform (js ''{bad}'') 1 = (plainEntry (js ''{bad}'') 1, js ''JSON format'')
   \<and> startsWith (js ''{a'' @ [0x0D] @ js ''b}'') (js ''{'')
   \<and> JSON_parse (js ''{a'' @ [0x0D] @ js ''b}'') = None
   \<and> classify ref_platform (js ''{a'' @ [0x0D] @ js ''b}'') 1
       = (plainEntry (js ''{a'' @ [0x0D] @ js ''b}'') 1, js ''Plain text'')
   \<and> startsWith (js ''{a b c [2024-01-15T10:30:45Z] "GET" 200 5}'') (js ''{'')
   \<and> JSON_parse (js ''{a b c [2024-01-15T10:30:45Z] "GET" 200 5}'') = None
   \<and> classify ref_platform (js ''{a b c [2024-01-15T10:30:45Z] "GET" 200 5}'') 1
       = (\<lparr>entry_id = js ''line-1'', timestamp = Some 1705314645000, level = Some (js ''200''),
           message = js ''GET'', rawLine = js ''{a b c [2024-01-15T10:30:45Z] "GET" 200 5}'', lineNumber = 1,
           source = Some (js ''{a''), thread = None, metadata = None\<rparr>, js ''Apache access'')\<close>
proof -
  let ?l1 = \<open>js ''{bad}''\<close>
  let ?l2 = \<open>js ''{a'' @ [0x0D] @ js ''b}''\<close>
  let ?l3 = \<open>js ''{a b c [2024-01-15T10:30:45Z] "GET" 200 5}''\<close>
  have s1: \<open>startsWith ?l1 (js ''{'')\<close> and s2: \<open>startsWith ?l2 (js ''{'')\<close>
    and s3: \<open>startsWith ?l3 (js ''{'')\<close>
    by code_simp+
  have j1: \<open>JSON_parse ?l1 = None\<close> by code_simp
  have j2: \<open>JSON_parse ?l2 = None\<close> by code_simp
  have j3: \<open>JSON_parse ?l3 = None\<close> by code_simp
  have a1: \<open>re_exec re_apache ?l1 = None\<close> by code_simp
  have a2: \<open>re_exec re_apache ?l2 = None\<close> by code_simp
  have a3: \<open>re_exec re_apache ?l3
      = Some [(0, js ''{a b c [2024-01-15T10:30:45Z] "GET" 200 5}''), (5, js ''5}''), (4, js ''200''),
              (3, js ''GET''), (2, js ''2024-01-15T10:30:45Z''), (1, js ''{a'')]\<close> by code_simp
  have b1: \<open>brace_block ?l1\<close> by code_simp
  have b2: \<open>\<not> brace_block ?l2\<close> by code_simp
  have t3: \<open>parseTimestamp ref_platform (Some (JStr (js ''2024-01-15T10:30:45Z''))) = Some 1705314645000\<close>
    by code_simp
  have u3: \<open>toUpperCase (js ''200'') = js ''200''\<close> by code_simp
  have i: \<open>line_id 1 = js ''line-1''\<close> by code_simp
  note t1 = unparsed_brace_line_goes_to_registry[OF s1, of ref_platform 1]
  note t2 = unparsed_brace_line_goes_to_registry[OF s2, of ref_platform 1]
  note t3' = unparsed_brace_line_goes_to_registry[OF s3, of ref_platform 1]
  from t1 j1 have \<open>classify ref_platform ?l1 1 =
          (case re_exec re_apache ?l1 of
             Some c \<Rightarrow>
               (\<lparr>entry_id = line_id 1,
                 timestamp = parseTimestamp ref_platform (map_option JStr (grp c 2)),
                 level = map_option toUpperCase (grp c 4),
                 message = the_grp c 3, rawLine = ?l1, lineNumber = 1,
                 source = grp c 1, thread = None, metadata = None\<rparr>, js ''Apache access'')
           | None \<Rightarrow>
               (plainEntry ?l1 1,
                if brace_block ?l1 then js ''JSON format'' else js ''Plain text''))\<close>
    by blast
  then have c1: \<open>classify ref_platform ?l1 1 = (plainEntry ?l1 1, js ''JSON format'')\<close>
    unfolding a1 using b1 by simp
  from t2 j2 have \<open>classify ref_platform ?l2 1 =
          (case re_exec re_apache ?l2 of
             Some c \<Rightarrow>
               (\<lparr>entry_id = line_id 1,
                 timestamp = parseTimestamp ref_platform (map_option JStr (grp c 2)),
                 level = map_option toUpperCase (grp c 4),
                 message = the_grp c 3, rawLine = ?l2, lineNumber = 1,
                 source = grp c 1, thread = None, metadata = None\<rparr>, js ''Apache access'')
           | None \<Rightarrow>
               (plainEntry ?l2 1,
                if brace_block ?l2 then js ''JSON format'' else js ''Plain text''))\<close>
    by blast
  then have c2: \<open>classify ref_platform ?l2 1 = (plainEntry ?l2 1, js ''Plain text'')\<close>
    unfolding a2 using b2 by simp
  from t3' j3 have \<open>classify ref_platform ?l3 1 =
          (case re_exec re_apache ?l3 of
             Some c \<Rightarrow>
               (\<lparr>entry_id = line_id 1,
                 timestamp = parseTimestamp ref_platform (map_option JStr (grp c 2)),
                 level = map_option toUpperCase (grp c 4),
                 message = the_grp c 3, rawLine = ?l3, lineNumber = 1,
                 source = grp c 1, thread = None, metadata = None\<rparr>, js ''Apache access'')
           | None \<Rightarrow>
               (plainEntry ?l3 1,
                if brace_block ?l3 then js ''JSON format'' else js ''Plain text''))\<close>
    by blast
  then have c3: \<open>classify ref_platform ?l3 1
       = (\<lparr>entry_id = js ''line-1'', timestamp = Some 1705314645000, level = Some (js ''200''),
           message = js ''GET'', rawLine = ?l3, lineNumber = 1,
           source = Some (js ''{a''), thread = None, metadata = None\<rparr>, js ''Apache access'')\<close>
    unfolding a3 by (simp add: grp_def the_grp_def t3[simplified] u3[simplified] i[simplified])
  show ?thesis by (intro conjI s1 j1 c1 s2 j2 c2 s3 j3 c3)
qed


section \<open>The key lists of the backfill\<close>


lemma pick_cong:
  "\<forall>k \<in> set ks. getp j1 k = getp j2 k \<Longrightarrow> pick j1 ks = pick j2 ks"
  by (induction ks) (auto simp: bindE_def split: sum.splits)

lemma or_chain_cong:
  "\<forall>k \<in> set ks. getp j1 k = getp j2 k \<Longrightarrow> or_chain P j1 ks = or_chain P j2 ks"
  by (induction P j1 ks rule: or_chain.induct) (auto simp: bindE_def split: sum.splits)

lemma jsonEntry_parts:
  assumes "jsonEntry P json line n = Inr e"
  shows "\<exists>ts lv lvl src thr.
           or_chain P json [js ''timestamp'', js ''@timestamp'', js ''time'', js ''ts''] = Inr ts
         \<and> getp json (js ''level'') = Inr lv \<and> level_upper lv = Inr lvl
         \<and> or_chain P json [js ''source'', js ''logger'', js ''module'', js ''service''] = Inr src
         \<and> or_chain P json [js ''thread'', js ''process'', js ''correlationId''] = Inr thr
         \<and> timestamp e = (if truthy P ts then parseTimestamp P ts else None)
         \<and> level e = lvl \<and> source e = str_of src \<and> thread e = str_of thr"
  using assms unfolding jsonEntry_def
  by (auto simp: bindE_eq_Inr simp del: or_chain.simps)




















section \<open>The records of a run that returns\<close>

lemma rmatch_within:
  "rmatch k s c = Some c' \<Longrightarrow> set s \<subseteq> A \<Longrightarrow> list_all (item_within A) k \<Longrightarrow>
     caps_within A c \<Longrightarrow> caps_within A c'"
proof (induction k s c rule: rmatch.induct)
  case (1 s c)
  then show ?case by simp
next
  case (2 k s c)
  then show ?case by simp
next
  case (3 p k s c)
  show ?case
  proof (cases s)
    case Nil
    with 3 show ?thesis by simp
  next
    case (Cons x xs)
    with "3.prems" have px: "p x" and r: "rmatch k xs c = Some c'"
      by (simp_all split: if_splits)
    from "3.IH"[OF Cons px r] "3.prems" Cons show ?thesis by simp
  qed
next
  case (4 a b k s c)
  then show ?case by simp
next
  case (5 a k s c)
  show ?case
  proof (cases "rmatch (R a # k) s c")
    case None
    with 5 show ?thesis by simp
  next
    case (Some d)
    with "5.prems" have "d = c'" by simp
    with "5.IH"(1) Some "5.prems" show ?thesis by simp
  qed
next
  case (6 p k s c)
  show ?case
  proof (cases s)
    case Nil
    with 6 show ?thesis by simp
  next
    case (Cons x xs)
    show ?thesis
    proof (cases "p x")
      case False
      with Cons 6 show ?thesis by simp
    next
      case True
      show ?thesis
      proof (cases "rmatch (R (Star p) # k) xs c")
        case None
        with True Cons 6 show ?thesis by simp
      next
        case (Some d)
        with True Cons "6.prems" have "d = c'" by simp
        with "6.IH"(2)[OF Cons True] Some "6.prems" Cons show ?thesis by simp
      qed
    qed
  qed
next
  case (7 i a k s c)
  then show ?case by simp
next
  case (8 k s c)
  then show ?case by (simp split: if_splits)
next
  case (9 i s0 k s c)
  from "9.prems"(3) have "set (take (length s0 - length s) s0) \<subseteq> A"
    using set_take_subset[of "length s0 - length s" s0] by auto
  with 9 show ?case by (simp add: caps_within_def)
qed

lemma re_exec_within:
  assumes "re_exec r s = Some c"
  shows "set (the_grp c i) \<subseteq> set s"
proof -
  have "caps_within (set s) c"
    using assms[unfolded re_exec_def] by (rule rmatch_within) (simp_all add: caps_within_def)
  then have "\<And>t. (i, t) \<in> set c \<Longrightarrow> set t \<subseteq> set s"
    unfolding caps_within_def list_all_iff by fastforce
  then show ?thesis
    by (cases "map_of c i") (auto simp: the_grp_def grp_def dest!: map_of_SomeD)
qed

lemma matchPatterns_message_within:
  "matchPatterns P ps line n = Some (e, nm) \<Longrightarrow> set (message e) \<subseteq> set line"
proof (induction ps)
  case Nil
  then show ?case by simp
next
  case (Cons p ps)
  show ?case
  proof (cases "re_exec (regex p) line")
    case None
    with Cons show ?thesis by simp
  next
    case (Some c)
    with Cons.prems have "e = patternEntry P p c line n" by simp
    with re_exec_within[OF Some] show ?thesis
      by (cases "g_message p") (auto simp: patternEntry_def)
  qed
qed

lemma enrich_without_brace: "cu CHR ''{'' \<notin> set (message e) \<Longrightarrow> enrich P e = Inr e"
  by (simp add: enrich_def extractFirstJsonObject_def indexOf_def)

lemma lineEntry_brace_free:
  assumes "cu CHR ''{'' \<notin> set line"
  shows "lineEntry P (n, line) = Inr (fst (classify P line n))"
proof -
  from assms have ns: "\<not> startsWith line (js ''{'')"
    by (cases line) (auto simp: startsWith_take)
  have "set (message (fst (classify P line n))) \<subseteq> set line"
  proof (cases "matchPatterns P LOG_PATTERNS line n")
    case None
    with ns show ?thesis by (simp add: classify_def plainEntry_def)
  next
    case (Some r)
    obtain e nm where "r = (e, nm)" by (cases r)
    with Some ns matchPatterns_message_within[of P LOG_PATTERNS line n e nm] show ?thesis
      by (simp add: classify_def)
  qed
  with assms have "cu CHR ''{'' \<notin> set (message (fst (classify P line n)))" by auto
  then show ?thesis by (simp add: lineEntry_def enrich_without_brace)
qed

lemma processLines_returns:
  "\<forall>l \<in> set ls. cu CHR ''{'' \<notin> set l \<Longrightarrow> \<exists>r. processLines P ls i es fmt = Inr r"
proof (induction ls arbitrary: i es fmt)
  case Nil
  show ?case by simp
next
  case (Cons l ls)
  show ?case
  proof (cases "trim l = []")
    case True
    with Cons show ?thesis by simp
  next
    case False
    from Cons.prems trim_subset[of l] have "cu CHR ''{'' \<notin> set (trim l)" by auto
    from lineEntry_brace_free[OF this, of P "i + 1"]
    have "enrich P (fst (classify P (trim l) (i + 1))) = Inr (fst (classify P (trim l) (i + 1)))"
      by (simp add: lineEntry_def)
    with False Cons show ?thesis
      by (cases "classify P (trim l) (i + 1)") simp
  qed
qed

lemma brace_free_input_returns:
  "\<forall>l \<in> set (split_nl content). cu CHR ''{'' \<notin> set l \<Longrightarrow>
     \<exists>r. parseLogFile P content fname = Inr r"
  using processLines_returns[of "split_nl content" P 0 "[]" "js ''Unknown''"]
  by (auto simp: parseLogFile_def)

text \<open>
  When \<^verbatim>\<open>parseLogFile\<close> returns, the records are one for every line that is not blank, in
  file order and numbered with the 1-based position of the line in
  \<^verbatim>\<open>content.split("\n")\<close>; a blank line produces none; and the number of records plus the
  number of blank lines is \<^verbatim>\<open>totalLines\<close>, the number of segments of that split. It returns
  on every input that has no opening brace.
\<close>

lemma records_of_returned_run:
  "(parseLogFile P content fname = Inr r \<longrightarrow>
      map lineNumber (entries r)
        = map Suc (filter (\<lambda>j. trim (split_nl content ! j) \<noteq> []) [0..<length (split_nl content)])
    \<and> length (entries r) + length (filter (\<lambda>l. trim l = []) (split_nl content)) = totalLines r
    \<and> totalLines r = length (split_nl content))
   \<and> ((\<forall>l \<in> set (split_nl content). cu CHR ''{'' \<notin> set l) \<longrightarrow>
        (\<exists>r'. parseLogFile P content fname = Inr r'))"
proof (rule conjI; rule impI)
  assume a: "parseLogFile P content fname = Inr r"
  note s = parseLogFile_spec[OF a]
  have "map lineNumber (entries r) = map fst (numbered 0 (split_nl content))"
    by (rule entries_lineNumbers[OF s(1)])
  then have 1: "map lineNumber (entries r)
       = map Suc (filter (\<lambda>j. trim (split_nl content ! j) \<noteq> []) [0..<length (split_nl content)])"
    by (simp add: numbered_fst)
  have "length (entries r) = length (numbered 0 (split_nl content))"
    using s(1) by (rule list_all2_lengthD)
  with numbered_length[of 0 "split_nl content"] s(2)
  have 2: "length (entries r) + length (filter (\<lambda>l. trim l = []) (split_nl content)) = totalLines r"
    by simp
  from 1 2 s(2) show "map lineNumber (entries r)
        = map Suc (filter (\<lambda>j. trim (split_nl content ! j) \<noteq> []) [0..<length (split_nl content)])
    \<and> length (entries r) + length (filter (\<lambda>l. trim l = []) (split_nl content)) = totalLines r
    \<and> totalLines r = length (split_nl content)"
    by simp
next
  assume "\<forall>l \<in> set (split_nl content). cu CHR ''{'' \<notin> set l"
  then show "\<exists>r'. parseLogFile P content fname = Inr r'"
    by (rule brace_free_input_returns)
qed


section \<open>Where the code departs from its intent: five runs\<close>

text \<open>
  The full-line interpreter stores the upper-cased text of any string level, whatever
  the vocabulary.
\<close>

lemma full_line_level_upper:
  assumes "jsonEntry P json line n = Inr e" "getp json (js ''level'') = Inr (Some (JStr s))"
  shows "level e = Some (toUpperCase s)"
  using jsonEntry_parts[OF assms(1)] assms(2) by auto

text \<open>
  C1. The full-line JSON interpreter should restrict the level to the six-level
  vocabulary and leave any other value absent. On the line \<^verbatim>\<open>{"level":"notice"}\<close> the
  code stores \<^verbatim>\<open>NOTICE\<close>: \<^verbatim>\<open>parseJsonLog\<close> upper-cases the string and casts it to the
  declared union, where \<^verbatim>\<open>coerceLevel\<close> of the embedded path checks the vocabulary.
\<close>

theorem full_line_level_stored_verbatim:
  \<open>parseLogFile ref_platform (js ''{"level":"notice"}'') (js ''app.log'')
     = Inr \<lparr>entries =
              [\<lparr>entry_id = js ''line-1'', timestamp = None, level = Some (js ''NOTICE''),
                message = js ''Log entry'', rawLine = js ''{"level":"notice"}'', lineNumber = 1,
                source = None, thread = None,
                metadata = Some (JObj [(js ''level'', JStr (js ''notice''))])\<rparr>],
            totalLines = 1, filename = js ''app.log'', detectedFormat = js ''JSON format''\<rparr>\<close>
  by code_simp

text \<open>
  C3. The \<^verbatim>\<open>rawLine\<close> of a record should be the line as it stands in the input, its
  leading white space included. On the line made of a no-break space, a space, \<^verbatim>\<open>hello\<close>
  and a TAB, the record's \<^verbatim>\<open>rawLine\<close> is \<^verbatim>\<open>hello\<close>: the loop body stores \<^verbatim>\<open>line\<close>, which
  holds \<^verbatim>\<open>lines[i].trim()\<close> for the classification, where the raw line is \<^verbatim>\<open>lines[i]\<close>. The
  viewer's copy and export write \<^verbatim>\<open>rawLine\<close> back as the original log.
\<close>

theorem rawLine_loses_leading_space:
  \<open>split_nl ([0xA0] @ js '' hello'' @ [0x09]) = [[0xA0] @ js '' hello'' @ [0x09]]
   \<and> parseLogFile ref_platform ([0xA0] @ js '' hello'' @ [0x09]) (js ''app.log'')
       = Inr \<lparr>entries =
                [\<lparr>entry_id = js ''line-1'', timestamp = None, level = None, message = js ''hello'',
                  rawLine = js ''hello'', lineNumber = 1, source = None, thread = None,
                  metadata = None\<rparr>],
              totalLines = 1, filename = js ''app.log'', detectedFormat = js ''Plain text''\<rparr>\<close>
  by code_simp

text \<open>
  C5. The message of a record should never be empty. On the line
  \<^verbatim>\<open>2023-12-01T10:30:45Z INFO\<close> the first registry pattern matches with an empty
  rest-of-line group and the record's message is the empty string: the registry path has
  no fallback to \<^verbatim>\<open>"Log entry"\<close>, which both JSON paths have.
\<close>

theorem registry_message_empty:
  \<open>parseLogFile ref_platform (js ''2023-12-01T10:30:45Z INFO'') (js ''app.log'')
     = Inr \<lparr>entries =
              [\<lparr>entry_id = js ''line-1'', timestamp = Some 1701426645000, level = Some (js ''INFO''),
                message = [], rawLine = js ''2023-12-01T10:30:45Z INFO'', lineNumber = 1,
                source = None, thread = None, metadata = None\<rparr>],
            totalLines = 1, filename = js ''app.log'', detectedFormat = js ''ISO with level''\<rparr>\<close>
  by code_simp

text \<open>
  C6. Every line that is not blank should produce one record, and the records and the
  blank lines should add up to \<^verbatim>\<open>totalLines\<close>. This input has three lines, two of them not
  blank, and \<^verbatim>\<open>parseLogFile\<close> produces no result at all, neither records nor \<^verbatim>\<open>totalLines\<close>:
  the extractor's \<^verbatim>\<open>String(status)\<close> throws \<^verbatim>\<open>TypeError\<close> on the object of the third line,
  outside any \<^verbatim>\<open>try\<close> (the defect of C8). Whenever \<^verbatim>\<open>parseLogFile\<close> returns, the count
  holds (\<open>records_of_returned_run\<close> above).
\<close>

theorem nonblank_lines_without_records:
  \<open>split_nl (js ''first'' @ [0x0A] @ js ''  '' @ [0x0A] @ js ''second {"status":{"toString":0}}'')
     = [js ''first'', js ''  '', js ''second {"status":{"toString":0}}'']
   \<and> map (\<lambda>l. trim l = []) [js ''first'', js ''  '', js ''second {"status":{"toString":0}}'']
     = [False, True, False]
   \<and> parseLogFile ref_platform
        (js ''first'' @ [0x0A] @ js ''  '' @ [0x0A] @ js ''second {"status":{"toString":0}}'')
        (js ''app.log'')
     = Inl TypeError\<close>
  by code_simp

text \<open>
  C8. \<^verbatim>\<open>parseLogFile\<close> should never throw. The second line of this input holds an
  object whose \<^verbatim>\<open>module\<close> is an object with a key \<^verbatim>\<open>toString\<close>; the extractor's
  \<^verbatim>\<open>String(moduleName)\<close> throws \<^verbatim>\<open>TypeError\<close> outside any \<^verbatim>\<open>try\<close>, and the whole call
  fails: the first line's record and the third line are lost.
\<close>

theorem extractor_throws:
  \<open>parseLogFile ref_platform
      (js ''ok'' @ [0x0A] @ js ''x {"module":{"toString":null}}'' @ [0x0A] @ js ''after'') (js ''app.log'')
     = Inl TypeError\<close>
  by code_simp

end
